(* ===== verification/Rust_Std.thy ===== *)
theory Rust_Std
  imports Prelude
begin

text \<open>
  The part of Rust's standard library that the sources call on strings and numbers: decimal
  printing and parsing of \<open>u64\<close>, and the \<open>str\<close> methods that split and trim at an ASCII
  character. A \<open>String\<close> is the list of its UTF-8 bytes; every separator used in the sources is
  ASCII, and an ASCII byte never occurs inside a multi-byte character, so splitting bytes and
  splitting characters agree.
\<close>

section \<open>Printing and parsing unsigned integers\<close>

definition digit_char :: "nat \<Rightarrow> char" where
  "digit_char d = char_of (48 + d)"

definition to_digit :: "char \<Rightarrow> nat option" where
  "to_digit c = (let n = of_char c :: nat in if 48 \<le> n \<and> n \<le> 57 then Some (n - 48) else None)"

fun show_nat :: "nat \<Rightarrow> string" where
  "show_nat n = (if n < 10 then [digit_char n] else show_nat (n div 10) @ [digit_char (n mod 10)])"

declare show_nat.simps [simp del]

lemma digit_char_simps [std_simps]:
  "digit_char 0 = CHR ''0''" "digit_char (Suc 0) = CHR ''1''" "digit_char 1 = CHR ''1''"
  "digit_char 2 = CHR ''2''" "digit_char 3 = CHR ''3''" "digit_char 4 = CHR ''4''"
  "digit_char 5 = CHR ''5''" "digit_char 6 = CHR ''6''" "digit_char 7 = CHR ''7''"
  "digit_char 8 = CHR ''8''" "digit_char 9 = CHR ''9''"
  by (simp_all add: digit_char_def char_of_def bit_Suc_0_iff)

lemma show_digit [std_simps]: "n < 10 \<Longrightarrow> show_nat n = [digit_char n]"
  by (simp add: show_nat.simps)

text \<open>\<open>format!("{}", x)\<close> for \<open>x: u64\<close>.\<close>

definition to_string :: "u64 \<Rightarrow> string" where
  "to_string x = show_nat (unat x)"

text \<open>
  \<open>str::parse::<u64>\<close>: an optional leading plus sign, then at least one decimal digit; a
  non-digit is reported before an overflow at the same position.
\<close>

datatype parse_int_error = Empty | InvalidDigit | PosOverflow

fun parse_digits :: "nat \<Rightarrow> string \<Rightarrow> parse_int_error + nat" where
  "parse_digits acc [] = Inr acc"
| "parse_digits acc (c # cs) =
     (case to_digit c of
        None \<Rightarrow> Inl InvalidDigit
      | Some d \<Rightarrow>
          if acc * 10 + d < 18446744073709551616 then parse_digits (acc * 10 + d) cs
          else Inl PosOverflow)"

definition parse_u64 :: "string \<Rightarrow> parse_int_error + u64" where
  "parse_u64 s =
     (case s of
        [] \<Rightarrow> Inl Empty
      | c # cs \<Rightarrow>
          if cs = [] \<and> (c = CHR ''+'' \<or> c = CHR ''-'') then Inl InvalidDigit
          else and_then (parse_digits 0 (if c = CHR ''+'' then cs else s)) (\<lambda>n. Inr (of_nat n)))"

lemma to_digit_digit_char [simp]: "d < 10 \<Longrightarrow> to_digit (digit_char d) = Some d"
  by (simp add: to_digit_def digit_char_def)

lemma to_digit_Some_less: "to_digit c = Some d \<Longrightarrow> d < 10"
  by (auto simp: to_digit_def Let_def split: if_splits)

lemma parse_digits_append:
  "parse_digits acc (xs @ ys) = and_then (parse_digits acc xs) (\<lambda>n. parse_digits n ys)"
  by (induction acc xs rule: parse_digits.induct) (auto split: option.splits)

lemma parse_digits_show_nat:
  "n < 18446744073709551616 \<Longrightarrow> parse_digits 0 (show_nat n) = Inr n"
proof (induction n rule: show_nat.induct)
  case (1 n)
  show ?case
  proof (cases "n < 10")
    case True
    then show ?thesis by (simp add: show_nat.simps [of n])
  next
    case False
    have lt: "n div 10 < 18446744073709551616" using "1.prems" by linarith
    from "1.IH" [OF False lt]
    have "parse_digits 0 (show_nat (n div 10)) = Inr (n div 10)" .
    moreover have "n div 10 * 10 + n mod 10 = n" by simp
    ultimately show ?thesis
      using False "1.prems" by (simp add: show_nat.simps [of n] parse_digits_append)
  qed
qed

lemma show_nat_digits: "\<forall>c \<in> set (show_nat n). to_digit c \<noteq> None"
proof (induction n rule: show_nat.induct)
  case (1 n)
  then show ?case by (cases "n < 10") (auto simp: show_nat.simps [of n])
qed

lemma show_nat_nonempty [simp]: "show_nat n \<noteq> []"
  by (subst show_nat.simps) simp

lemma to_digit_separators [simp]:
  "to_digit (CHR ''+'') = None" "to_digit (CHR ''-'') = None" "to_digit (CHR ''='') = None"
  "to_digit (CHR ''/'') = None" "to_digit (CHR '':'') = None"
  by (simp_all add: to_digit_def)

lemma not_in_to_string: "to_digit c = None \<Longrightarrow> c \<notin> set (to_string x)"
  using show_nat_digits [of "unat x"] by (auto simp: to_string_def)

lemma to_string_nonempty [simp]: "to_string x \<noteq> []"
  by (simp add: to_string_def)

lemma parse_u64_to_string [simp]: "parse_u64 (to_string x) = Inr x"
proof -
  obtain c cs where s: "to_string x = c # cs"
    using to_string_nonempty [of x] by (cases "to_string x") auto
  have "c \<noteq> CHR ''+''" "c \<noteq> CHR ''-''"
    using not_in_to_string [of "CHR ''+''" x] not_in_to_string [of "CHR ''-''" x] s by auto
  moreover have "parse_digits 0 (c # cs) = Inr (unat x)"
    using parse_digits_show_nat [of "unat x"] s by (simp add: to_string_def del: parse_digits.simps)
  ultimately show ?thesis
    by (simp add: parse_u64_def s del: parse_digits.simps)
qed

lemma to_string_inject [simp]: "to_string x = to_string y \<longleftrightarrow> x = y"
  by (metis parse_u64_to_string sum.inject(2))

text \<open>Parsing accepts only digits, after the optional sign.\<close>

lemma parse_digits_Inr_digits: "parse_digits acc s = Inr n \<Longrightarrow> \<forall>c \<in> set s. to_digit c \<noteq> None"
  by (induction acc s rule: parse_digits.induct) (auto split: option.splits if_splits)

section \<open>Splitting and trimming\<close>

text \<open>\<open>str::split_once(c)\<close>, \<open>trim_start_matches(c)\<close>, \<open>trim_end_matches(c)\<close>.\<close>

definition split_once :: "char \<Rightarrow> string \<Rightarrow> (string \<times> string) option" where
  "split_once c s =
     (if c \<in> set s then Some (takeWhile (\<lambda>x. x \<noteq> c) s, tl (dropWhile (\<lambda>x. x \<noteq> c) s)) else None)"

definition trim_start_matches :: "char \<Rightarrow> string \<Rightarrow> string" where
  "trim_start_matches c s = dropWhile (\<lambda>x. x = c) s"

definition trim_end_matches :: "char \<Rightarrow> string \<Rightarrow> string" where
  "trim_end_matches c s = rev (dropWhile (\<lambda>x. x = c) (rev s))"

text \<open>
  The items \<open>str::splitn(n, c)\<close> yields: at most \<open>n\<close> of them, the last holding the rest of the
  string; \<open>split(c)\<close> has no such bound and always yields a first item.
\<close>

fun splitn :: "nat \<Rightarrow> char \<Rightarrow> string \<Rightarrow> string list" where
  "splitn 0 c s = []"
| "splitn (Suc 0) c s = [s]"
| "splitn (Suc (Suc n)) c s =
     (case split_once c s of None \<Rightarrow> [s] | Some (a, b) \<Rightarrow> a # splitn (Suc n) c b)"

definition split_first :: "char \<Rightarrow> string \<Rightarrow> string" where
  "split_first c s = takeWhile (\<lambda>x. x \<noteq> c) s"

lemma split_once_None_iff: "split_once c s = None \<longleftrightarrow> c \<notin> set s"
  by (simp add: split_once_def)

lemma split_once_Some_iff: "split_once c s = Some (a, b) \<longleftrightarrow> s = a @ c # b \<and> c \<notin> set a"
proof
  assume "split_once c s = Some (a, b)"
  then show "s = a @ c # b \<and> c \<notin> set a"
    using takeWhile_dropWhile_hit [of c s] by (auto simp: split_once_def split: if_splits)
next
  assume "s = a @ c # b \<and> c \<notin> set a"
  then show "split_once c s = Some (a, b)"
    by (simp add: split_once_def takeWhile_stops_at dropWhile_stops_at)
qed

lemma split_once_append [simp]: "c \<notin> set a \<Longrightarrow> split_once c (a @ c # b) = Some (a, b)"
  by (simp add: split_once_Some_iff)

lemma trim_end_matches_idem [simp]:
  "trim_end_matches c (trim_end_matches c s) = trim_end_matches c s"
  by (simp add: trim_end_matches_def dropWhile_idem)

lemma last_trim_end_matches: "trim_end_matches c s \<noteq> [] \<Longrightarrow> last (trim_end_matches c s) \<noteq> c"
  using hd_dropWhile [of "\<lambda>x. x = c" "rev s"] by (auto simp: trim_end_matches_def last_rev)

lemma trim_end_matches_id: "s = [] \<or> last s \<noteq> c \<Longrightarrow> trim_end_matches c s = s"
  by (cases s rule: rev_cases) (auto simp: trim_end_matches_def)

lemma trim_end_matches_decomp: "\<exists>k. s = trim_end_matches c s @ replicate k c"
proof -
  let ?t = "takeWhile (\<lambda>x. x = c) (rev s)"
  have "?t = replicate (length ?t) c"
    by (rule replicate_eqI) (auto dest: set_takeWhileD)
  moreover have "s = rev (dropWhile (\<lambda>x. x = c) (rev s)) @ rev ?t"
    by (metis rev_append rev_rev_ident takeWhile_dropWhile_id)
  ultimately show ?thesis
    unfolding trim_end_matches_def by (metis rev_replicate)
qed

lemma set_trim_end_matches: "set (trim_end_matches c s) \<subseteq> set s"
  by (auto simp: trim_end_matches_def dest: set_dropWhileD)

lemma trim_start_matches_decomp: "\<exists>k. s = replicate k c @ trim_start_matches c s"
proof -
  let ?t = "takeWhile (\<lambda>x. x = c) s"
  have "?t = replicate (length ?t) c"
    by (rule replicate_eqI) (auto dest: set_takeWhileD)
  then show ?thesis
    unfolding trim_start_matches_def by (metis takeWhile_dropWhile_id)
qed

lemma trim_start_matches_replicate:
  "s = [] \<or> hd s \<noteq> c \<Longrightarrow> trim_start_matches c (replicate k c @ s) = s"
  by (induction k) (cases s; auto simp: trim_start_matches_def)+

lemmas split_simps [std_simps] =
  split_once_def trim_start_matches_def trim_end_matches_def split_first_def

end
