(* ===== verification/BTree_Map.thy ===== *)
theory BTree_Map
  imports Prelude
begin

text \<open>
  Rust's \<open>BTreeMap\<close> as the strictly sorted list of its entries: the list is the order in which
  the map iterates, and \<^const>\<open>map_of\<close> of it is the finite map it represents. The same type is
  the contents of a table of the embedded database, which iterates in key order too.
\<close>

type_synonym ('k, 'v) btree_map = "('k \<times> 'v) list"

definition bt_inv :: "('k :: linorder, 'v) btree_map \<Rightarrow> bool" where
  "bt_inv m \<longleftrightarrow> sorted_wrt (<) (map fst m)"

fun bt_insert :: "'k :: linorder \<Rightarrow> 'v \<Rightarrow> ('k, 'v) btree_map \<Rightarrow> ('k, 'v) btree_map" where
  "bt_insert k v [] = [(k, v)]"
| "bt_insert k v ((k', v') # m) =
     (if k < k' then (k, v) # (k', v') # m
      else if k = k' then (k, v) # m
      else (k', v') # bt_insert k v m)"

definition bt_remove :: "'k \<Rightarrow> ('k, 'v) btree_map \<Rightarrow> ('k, 'v) btree_map" where
  "bt_remove k m = filter (\<lambda>e. fst e \<noteq> k) m"

definition bt_get :: "'k \<Rightarrow> ('k, 'v) btree_map \<Rightarrow> 'v option" where
  "bt_get k m = map_of m k"

definition bt_keys :: "('k, 'v) btree_map \<Rightarrow> 'k list" where
  "bt_keys m = map fst m"

text \<open>\<open>iter().next_back()\<close>, the entry with the greatest key.\<close>

definition bt_last :: "('k, 'v) btree_map \<Rightarrow> ('k \<times> 'v) option" where
  "bt_last m = (if m = [] then None else Some (last m))"

text \<open>Range bounds, as \<open>std::ops::RangeBounds\<close> has them, and iteration over a range.\<close>

datatype 'k bound = Included 'k | Excluded 'k | Unbounded

fun after_start :: "'k :: linorder bound \<Rightarrow> 'k \<Rightarrow> bool" where
  "after_start (Included a) k \<longleftrightarrow> a \<le> k"
| "after_start (Excluded a) k \<longleftrightarrow> a < k"
| "after_start Unbounded k \<longleftrightarrow> True"

fun before_end :: "'k :: linorder bound \<Rightarrow> 'k \<Rightarrow> bool" where
  "before_end (Included b) k \<longleftrightarrow> k \<le> b"
| "before_end (Excluded b) k \<longleftrightarrow> k < b"
| "before_end Unbounded k \<longleftrightarrow> True"

definition bt_range ::
    "'k :: linorder bound \<Rightarrow> 'k bound \<Rightarrow> ('k, 'v) btree_map \<Rightarrow> ('k \<times> 'v) list" where
  "bt_range lo hi m = filter (\<lambda>e. after_start lo (fst e) \<and> before_end hi (fst e)) m"

text \<open>
  \<open>BTreeMap::range\<close> panics when the start is greater than the end, and when both ends exclude
  the same key.
\<close>

fun range_panics :: "'k :: linorder bound \<Rightarrow> 'k bound \<Rightarrow> bool" where
  "range_panics (Included a) (Included b) \<longleftrightarrow> b < a"
| "range_panics (Included a) (Excluded b) \<longleftrightarrow> b < a"
| "range_panics (Excluded a) (Included b) \<longleftrightarrow> b < a"
| "range_panics (Excluded a) (Excluded b) \<longleftrightarrow> b \<le> a"
| "range_panics _ _ \<longleftrightarrow> False"

text \<open>Removing a list of collected keys one by one.\<close>

definition bt_remove_all :: "'k list \<Rightarrow> ('k, 'v) btree_map \<Rightarrow> ('k, 'v) btree_map" where
  "bt_remove_all ks m = fold bt_remove ks m"

section \<open>Lemmas\<close>

lemma bt_inv_Nil [simp, intro]: "bt_inv []"
  by (simp add: bt_inv_def)

lemma bt_inv_Cons: "bt_inv (e # m) \<longleftrightarrow> (\<forall>e' \<in> set m. fst e < fst e') \<and> bt_inv m"
  by (auto simp: bt_inv_def)

lemma bt_inv_distinct: "bt_inv m \<Longrightarrow> distinct (map fst m)"
  by (auto simp: bt_inv_def strict_sorted_iff)

lemma set_bt_insert: "bt_inv m \<Longrightarrow> set (bt_insert k v m) = insert (k, v) {e \<in> set m. fst e \<noteq> k}"
  by (induction k v m rule: bt_insert.induct) (auto simp: bt_inv_Cons split: if_splits)

lemma bt_inv_insert [simp, intro]: "bt_inv m \<Longrightarrow> bt_inv (bt_insert k v m)"
  by (induction k v m rule: bt_insert.induct) (auto simp: bt_inv_Cons set_bt_insert)

lemma map_of_bt_insert [simp]: "map_of (bt_insert k v m) = (map_of m)(k \<mapsto> v)"
  by (induction k v m rule: bt_insert.induct) (auto simp: fun_eq_iff)

lemma bt_inv_filter [simp, intro]: "bt_inv m \<Longrightarrow> bt_inv (filter P m)"
  by (auto simp: bt_inv_def sorted_wrt_filter sorted_wrt_map)

lemma bt_inv_remove [simp, intro]: "bt_inv m \<Longrightarrow> bt_inv (bt_remove k m)"
  by (simp add: bt_remove_def)

lemma map_of_bt_remove [simp]: "map_of (bt_remove k m) = (map_of m)(k := None)"
  by (induction m) (auto simp: bt_remove_def fun_eq_iff)

lemma bt_remove_all_conv: "bt_remove_all ks m = filter (\<lambda>e. fst e \<notin> set ks) m"
  by (induction ks arbitrary: m) (auto simp: bt_remove_all_def bt_remove_def intro!: filter_cong)

lemma bt_inv_remove_all [simp, intro]: "bt_inv m \<Longrightarrow> bt_inv (bt_remove_all ks m)"
  by (simp add: bt_remove_all_conv)

text \<open>Collecting the keys of a range and removing them leaves the entries outside it.\<close>

lemma bt_remove_range:
  "bt_remove_all (map fst (bt_range lo hi m)) m =
     filter (\<lambda>e. \<not> (after_start lo (fst e) \<and> before_end hi (fst e))) m"
  by (auto simp: bt_remove_all_conv bt_range_def intro!: filter_cong)

lemma map_of_filter_fst:
  "map_of (filter (\<lambda>e. P (fst e)) m) k = (if P k then map_of m k else None)"
  by (induction m) auto

lemma in_set_bt_range:
  "bt_inv m \<Longrightarrow> (k, v) \<in> set (bt_range lo hi m) \<longleftrightarrow> map_of m k = Some v \<and> after_start lo k \<and> before_end hi k"
  by (auto simp: bt_range_def bt_inv_distinct)

lemma bt_inv_eqI:
  assumes "bt_inv m" "bt_inv m'" "map_of m = map_of m'"
  shows "m = m'"
proof -
  have "set m = set m'"
  proof (rule set_eqI)
    fix e :: "'a \<times> 'b"
    show "e \<in> set m \<longleftrightarrow> e \<in> set m'"
      using assms map_of_eq_Some_iff [OF bt_inv_distinct [OF assms(1)], of "fst e" "snd e"]
        map_of_eq_Some_iff [OF bt_inv_distinct [OF assms(2)], of "fst e" "snd e"] by simp
  qed
  moreover have "sorted (map fst m)" "distinct (map fst m)" "sorted (map fst m')" "distinct (map fst m')"
    using assms by (auto simp: bt_inv_def strict_sorted_iff)
  ultimately show ?thesis
    by (intro map_sorted_distinct_set_unique [where f = fst])
      (auto intro!: inj_onI intro: eq_key_imp_eq_value)
qed

text \<open>Mapping the values of a map by a function keeps its shape.\<close>

definition bt_map :: "('v \<Rightarrow> 'w) \<Rightarrow> ('k, 'v) btree_map \<Rightarrow> ('k, 'w) btree_map" where
  "bt_map f m = map (\<lambda>(k, v). (k, f v)) m"

lemma fst_bt_map [simp]: "map fst (bt_map f m) = map fst m"
  by (auto simp: bt_map_def)

lemma bt_inv_map [simp]: "bt_inv (bt_map f m) \<longleftrightarrow> bt_inv m"
  by (simp add: bt_inv_def)

lemma bt_map_insert: "bt_map f (bt_insert k v m) = bt_insert k (f v) (bt_map f m)"
  by (induction k v m rule: bt_insert.induct) (auto simp: bt_map_def)

lemma bt_map_filter: "bt_map f (filter (\<lambda>e. P (fst e)) m) = filter (\<lambda>e. P (fst e)) (bt_map f m)"
  by (induction m) (auto simp: bt_map_def)

lemma bt_map_range: "bt_map f (bt_range lo hi m) = bt_range lo hi (bt_map f m)"
  using bt_map_filter [of f "\<lambda>k. after_start lo k \<and> before_end hi k"] by (simp add: bt_range_def)

lemma bt_map_remove_all: "bt_map f (bt_remove_all ks m) = bt_remove_all ks (bt_map f m)"
  using bt_map_filter [of f "\<lambda>k. k \<notin> set ks"] by (simp add: bt_remove_all_conv)

lemma bt_map_last: "bt_last (bt_map f m) = map_option (\<lambda>(k, v). (k, f v)) (bt_last m)"
  by (simp add: bt_last_def bt_map_def last_map)

text \<open>Appending an entry above every key.\<close>

lemma bt_insert_above: "\<forall>e \<in> set m. fst e < k \<Longrightarrow> bt_insert k v m = m @ [(k, v)]"
  by (induction k v m rule: bt_insert.induct) auto

lemma bt_last_greatest: "bt_inv m \<Longrightarrow> bt_last m = Some (k, v) \<Longrightarrow> e \<in> set m \<Longrightarrow> fst e \<le> k"
  by (cases m rule: rev_cases) (auto simp: bt_last_def bt_inv_def sorted_wrt_append)

lemma bt_last_in: "bt_last m = Some e \<Longrightarrow> e \<in> set m"
  by (auto simp: bt_last_def split: if_splits)

end
