(* ===== verification/Raft_Types.thy ===== *)
theory Raft_Types
  imports Rust_Std BTree_Map "HOL-Library.Product_Lexorder"
begin

text \<open>
  The data that travels through the replicated log (\<open>raft/types.rs\<close>) and the values of the
  consensus and serialisation libraries that the sources read or build: log identifiers,
  entries, votes, memberships, storage errors. The libraries' own code is never defined here;
  their functions are arguments of the definitions that call them.
\<close>

section \<open>Values of the consensus library\<close>

record leader_id =
  lid_term :: u64
  lid_node_id :: u64

record log_id =
  lg_leader_id :: leader_id
  lg_index :: u64

text \<open>
  The library orders leaders by term and node, and log identifiers by leader and index; the
  committed log has increasing identifiers.
\<close>

instantiation leader_id_ext :: (linorder) linorder
begin

definition less_eq_leader_id_ext :: "'a leader_id_scheme \<Rightarrow> 'a leader_id_scheme \<Rightarrow> bool" where
  "less_eq_leader_id_ext a b \<longleftrightarrow>
     (lid_term a, lid_node_id a, leader_id.more a) \<le> (lid_term b, lid_node_id b, leader_id.more b)"

definition less_leader_id_ext :: "'a leader_id_scheme \<Rightarrow> 'a leader_id_scheme \<Rightarrow> bool" where
  "less_leader_id_ext a b \<longleftrightarrow> a \<le> b \<and> \<not> b \<le> a"

instance
  by standard (auto simp: less_eq_leader_id_ext_def less_leader_id_ext_def intro: leader_id.equality)

end

instantiation log_id_ext :: (linorder) linorder
begin

definition less_eq_log_id_ext :: "'a log_id_scheme \<Rightarrow> 'a log_id_scheme \<Rightarrow> bool" where
  "less_eq_log_id_ext a b \<longleftrightarrow>
     (lg_leader_id a, lg_index a, log_id.more a) \<le> (lg_leader_id b, lg_index b, log_id.more b)"

definition less_log_id_ext :: "'a log_id_scheme \<Rightarrow> 'a log_id_scheme \<Rightarrow> bool" where
  "less_log_id_ext a b \<longleftrightarrow> a \<le> b \<and> \<not> b \<le> a"

instance
  by standard (auto simp: less_eq_log_id_ext_def less_log_id_ext_def intro: log_id.equality)

end

lemma leader_id_less:
  "(a :: leader_id) < b \<longleftrightarrow>
     lid_term a < lid_term b \<or> lid_term a = lid_term b \<and> lid_node_id a < lid_node_id b"
  by (auto simp: less_leader_id_ext_def less_eq_leader_id_ext_def)

lemma log_id_less:
  "(a :: log_id) < b \<longleftrightarrow>
     lg_leader_id a < lg_leader_id b \<or> lg_leader_id a = lg_leader_id b \<and> lg_index a < lg_index b"
  by (auto simp: less_log_id_ext_def less_eq_log_id_ext_def)

record vote =
  v_leader_id :: leader_id
  v_committed :: bool

record basic_node =
  addr :: string

record membership =
  configs :: "u64 set list"
  nodes :: "(u64, basic_node) btree_map"

record stored_membership =
  sm_log_id :: "log_id option"
  sm_membership :: membership

text \<open>\<open>StoredMembership::default()\<close> and \<open>StoredMembership::new\<close>.\<close>

definition default_stored_membership :: stored_membership where
  "default_stored_membership =
     \<lparr>sm_log_id = None, sm_membership = \<lparr>configs = [], nodes = []\<rparr>\<rparr>"

section \<open>Requests and responses (raft/types.rs)\<close>

record reducer_call_request =
  raw_message :: bytes
  origin_node_id :: u64

record reducer_call_response =
  success :: bool

datatype entry_payload =
    Blank
  | Normal reducer_call_request
  | Membership membership

record entry =
  e_log_id :: log_id
  e_payload :: entry_payload

abbreviation e_index :: "entry \<Rightarrow> u64" where
  "e_index e \<equiv> lg_index (e_log_id e)"

record log_state =
  last_purged_log_id :: "log_id option"
  last_log_id :: "log_id option"

section \<open>Storage errors and panics\<close>

datatype error_subject = Logs | StateMachine
datatype error_verb = Read | Write

text \<open>
  \<open>StorageError::from_io_error(subject, verb, e)\<close>; the underlying error is kept as its text. A
  \<open>fault\<close> is what a storage call can end with besides its value: an error returned to the
  caller or a panic.
\<close>

datatype storage_error = Io_Error error_subject error_verb string
datatype fault = Storage storage_error | Panic string

abbreviation logs_write_error :: "string \<Rightarrow> fault" where
  "logs_write_error e \<equiv> Storage (Io_Error Logs Write e)"

abbreviation logs_read_error :: "string \<Rightarrow> fault" where
  "logs_read_error e \<equiv> Storage (Io_Error Logs Read e)"

section \<open>The serialisation library\<close>

text \<open>
  \<open>serde_json::to_vec\<close> and \<open>from_slice\<close> are parameters wherever they are called. What the code
  relies on is that reading back what was written gives the value that was written.
\<close>

type_synonym 'a to_vec = "'a \<Rightarrow> string + bytes"
type_synonym 'a from_slice = "bytes \<Rightarrow> string + 'a"

definition serde_roundtrip :: "'a to_vec \<Rightarrow> 'a from_slice \<Rightarrow> bool" where
  "serde_roundtrip to_vec from_slice \<longleftrightarrow> (\<forall>x bs. to_vec x = Inr bs \<longrightarrow> from_slice bs = Inr x)"

lemma serde_roundtripD: "serde_roundtrip tv fs \<Longrightarrow> tv x = Inr bs \<Longrightarrow> fs bs = Inr x"
  by (simp add: serde_roundtrip_def)

end
