(* ===== verification/Runtime.thy ===== *)
theory Runtime
  imports Raft_Types
begin

text \<open>
  What runs around the components: the channels of the asynchronous runtime through which the
  tasks hand each other messages, and the metric counters of \<open>metrics.rs\<close>.
\<close>

section \<open>Unbounded channels\<close>

text \<open>
  \<open>mpsc::unbounded_channel\<close>: the messages sent and not yet received, in order, and whether the
  receiver is still there. A send to a dropped receiver returns the message as the error.
\<close>

record 'a channel =
  ch_queue :: "'a list"
  ch_rx_alive :: bool

definition channel_new :: "'a channel" where
  "channel_new = \<lparr>ch_queue = [], ch_rx_alive = True\<rparr>"

definition ch_send :: "'a \<Rightarrow> 'a channel \<Rightarrow> ('a + unit) \<times> 'a channel" where
  "ch_send x c = (if ch_rx_alive c then (Inr (), c\<lparr>ch_queue := ch_queue c @ [x]\<rparr>) else (Inl x, c))"

text \<open>The next message, when there is one; the receiver waits otherwise.\<close>

definition ch_recv :: "'a channel \<Rightarrow> ('a \<times> 'a channel) option" where
  "ch_recv c = (case ch_queue c of [] \<Rightarrow> None | x # xs \<Rightarrow> Some (x, c\<lparr>ch_queue := xs\<rparr>))"

text \<open>
  Sending through an optional sender and dropping the result:
  \<open>if let Some(ref tx) = sender { let _ = tx.send(x); }\<close>.
\<close>

definition send_opt :: "'a \<Rightarrow> 'a channel option \<Rightarrow> 'a channel option" where
  "send_opt x tx = map_option (\<lambda>c. snd (ch_send x c)) tx"

definition send_all :: "'a list \<Rightarrow> 'a channel option \<Rightarrow> 'a channel option" where
  "send_all xs tx = fold send_opt xs tx"

lemma send_all_simps [simp]:
  "send_all [] tx = tx" "send_all (x # xs) tx = send_all xs (send_opt x tx)"
  by (simp_all add: send_all_def)

lemma send_all_append: "send_all (xs @ ys) tx = send_all ys (send_all xs tx)"
  by (simp add: send_all_def)

lemma send_all_None [simp]: "send_all xs None = None"
  by (induction xs) (simp_all add: send_opt_def)

text \<open>What is sent arrives at the end of the queue, in order, while the receiver lives.\<close>

lemma send_all_Some:
  "send_all xs (Some c) = Some (if ch_rx_alive c then c\<lparr>ch_queue := ch_queue c @ xs\<rparr> else c)"
  by (induction xs arbitrary: c) (simp_all add: send_opt_def ch_send_def)

definition sent :: "'a channel option \<Rightarrow> 'a list" where
  "sent tx = (case tx of None \<Rightarrow> [] | Some c \<Rightarrow> ch_queue c)"

definition listening :: "'a channel option \<Rightarrow> bool" where
  "listening tx = (case tx of None \<Rightarrow> False | Some c \<Rightarrow> ch_rx_alive c)"

lemma sent_send_all: "sent (send_all xs tx) = (if listening tx then sent tx @ xs else sent tx)"
  by (cases tx) (simp_all add: send_all_Some sent_def listening_def)

lemma listening_send_all [simp]: "listening (send_all xs tx) = listening tx"
  by (cases tx) (simp_all add: send_all_Some listening_def)

section \<open>Watch channels\<close>

text \<open>
  \<open>watch::channel\<close>: the latest value with its version and the number of receivers. A send
  without receivers fails and leaves the value as it was. A receiver remembers the version it
  has seen; \<open>changed()\<close> completes when the current one differs.
\<close>

record 'a watch =
  w_value :: 'a
  w_version :: nat
  w_receivers :: nat

definition watch_new :: "'a \<Rightarrow> 'a watch" where
  "watch_new x = \<lparr>w_value = x, w_version = 0, w_receivers = 0\<rparr>"

definition watch_subscribe :: "'a watch \<Rightarrow> nat \<times> 'a watch" where
  "watch_subscribe w = (w_version w, w\<lparr>w_receivers := Suc (w_receivers w)\<rparr>)"

definition watch_send :: "'a \<Rightarrow> 'a watch \<Rightarrow> ('a + unit) \<times> 'a watch" where
  "watch_send x w =
     (if w_receivers w = 0 then (Inl x, w)
      else (Inr (), w\<lparr>w_value := x, w_version := Suc (w_version w)\<rparr>))"

definition watch_changed :: "nat \<Rightarrow> 'a watch \<Rightarrow> bool" where
  "watch_changed seen w \<longleftrightarrow> w_version w \<noteq> seen"

section \<open>Metrics (metrics.rs)\<close>

type_synonym i64 = "64 word"

text \<open>
  The process-wide metrics. Gauges are signed, counters unsigned 64-bit integers with wrapping
  updates; of the latency histogram the number of observations is kept.
\<close>

record metrics =
  RAFT_TERM :: i64
  RAFT_IS_LEADER :: i64
  CONNECTIONS_ACTIVE :: i64
  WRITES_TOTAL :: u64
  READS_TOTAL :: u64
  WRITE_LATENCY :: u64
  ENTRIES_APPLIED :: u64

definition metrics_new :: metrics where
  "metrics_new =
     \<lparr>RAFT_TERM = 0, RAFT_IS_LEADER = 0, CONNECTIONS_ACTIVE = 0, WRITES_TOTAL = 0,
      READS_TOTAL = 0, WRITE_LATENCY = 0, ENTRIES_APPLIED = 0\<rparr>"

abbreviation inc_connections :: "metrics \<Rightarrow> metrics" where
  "inc_connections \<equiv> CONNECTIONS_ACTIVE_update (\<lambda>n. n + 1)"

abbreviation dec_connections :: "metrics \<Rightarrow> metrics" where
  "dec_connections \<equiv> CONNECTIONS_ACTIVE_update (\<lambda>n. n - 1)"

abbreviation inc_writes :: "metrics \<Rightarrow> metrics" where
  "inc_writes \<equiv> WRITES_TOTAL_update (\<lambda>n. n + 1)"

abbreviation inc_reads :: "metrics \<Rightarrow> metrics" where
  "inc_reads \<equiv> READS_TOTAL_update (\<lambda>n. n + 1)"

abbreviation observe_latency :: "metrics \<Rightarrow> metrics" where
  "observe_latency \<equiv> WRITE_LATENCY_update (\<lambda>n. n + 1)"

abbreviation inc_applied :: "metrics \<Rightarrow> metrics" where
  "inc_applied \<equiv> ENTRIES_APPLIED_update (\<lambda>n. n + 1)"

text \<open>
  \<open>encode_metrics\<close>: what the registry of the metrics library gathers, as text. The library's
  \<open>gather\<close> and \<open>encode_utf8\<close> are parameters; an encoding error is unwrapped.
\<close>

record 'f metrics_lib =
  gather :: "metrics \<Rightarrow> 'f"
  encode_utf8 :: "'f \<Rightarrow> string + string"

definition encode_metrics :: "'f metrics_lib \<Rightarrow> metrics \<Rightarrow> fault + string" where
  "encode_metrics lib m =
     (case encode_utf8 lib (gather lib m) of Inl e \<Rightarrow> Inl (Panic e) | Inr buffer \<Rightarrow> Inr buffer)"

text \<open>A conversion \<open>as i64\<close> keeps the bits; from 2 to the 63 on they are read as a negative number.\<close>

lemma sint_i64:
  "sint (x :: i64) = (if unat x < 2 ^ 63 then int (unat x) else int (unat x) - 2 ^ 64)"
proof -
  have lo: "- (2 ^ 63) \<le> sint x" and hi: "sint x < 2 ^ 63"
    using sint_greater_eq [of x] sint_less [of x] by simp_all
  have "int (unat x) = sint x mod 2 ^ 64"
    using uint_sint [of x] by (simp add: take_bit_eq_mod)
  moreover have "sint x mod 2 ^ 64 = (if 0 \<le> sint x then sint x else sint x + 2 ^ 64)"
    using lo hi mod_pos_pos_trivial [of "sint x" "2 ^ 64"]
      mod_pos_pos_trivial [of "sint x + 2 ^ 64" "2 ^ 64"] by simp
  moreover have "unat x < 2 ^ 63 \<longleftrightarrow> int (unat x) < 2 ^ 63"
    by (metis of_nat_less_iff of_nat_numeral of_nat_power)
  ultimately show ?thesis using lo hi by (auto split: if_splits)
qed

end
