(* ===== verification/Router.thy ===== *)
theory Router
  imports Raft_Types
begin

text \<open>
  The shard router, \<open>router/mod.rs\<close>: shard configuration commands and their wire format, the
  extraction of a module name from a request path, and the table from module names to shards.
  The locale \<open>route_log\<close> is the contract shared by everything that replays configuration
  commands: the state machine's table and the pool's router both meet it.
\<close>

section \<open>Shard configuration commands\<close>

type_synonym shard_id = u64

definition SHARD_CONFIG_TAG :: u8 where
  "SHARD_CONFIG_TAG = 0xFF"

datatype shard_config_command =
    CreateShard shard_id
  | AddRoute string shard_id
  | RemoveRoute string

text \<open>\<open>serde_json::to_vec(cmd).expect(..)\<close> panics when serialisation fails.\<close>

definition encode_shard_config ::
    "shard_config_command to_vec \<Rightarrow> shard_config_command \<Rightarrow> fault + bytes" where
  "encode_shard_config to_vec cmd =
     (case to_vec cmd of
        Inl e \<Rightarrow> Inl (Panic ''shard config serialization'')
      | Inr json \<Rightarrow> Inr (SHARD_CONFIG_TAG # json))"

definition first_byte :: "bytes \<Rightarrow> u8 option" where
  "first_byte data = (case data of [] \<Rightarrow> None | b # _ \<Rightarrow> Some b)"

definition decode_shard_config ::
    "shard_config_command from_slice \<Rightarrow> bytes \<Rightarrow> shard_config_command option" where
  "decode_shard_config from_slice data =
     (if first_byte data \<noteq> Some SHARD_CONFIG_TAG then None
      else ok (from_slice (drop 1 data)))"

section \<open>Module names in request paths\<close>

definition extract_module_name :: "string \<Rightarrow> string option" where
  "extract_module_name path =
     (let trimmed = trim_start_matches (CHR ''/'') path in
      case splitn 3 (CHR ''/'') trimmed of
        [first, _, third] \<Rightarrow>
          if first = ''database'' \<and> third \<noteq> [] then
            let name = split_first (CHR ''?'') third;
                name = trim_end_matches (CHR ''/'') name
            in if name = [] then None else Some name
          else None
      | _ \<Rightarrow> None)"

section \<open>The router\<close>

record shard_router =
  routes :: "string \<rightharpoonup> shard_id"
  default_shard :: shard_id

definition router_new :: shard_router where
  "router_new = \<lparr>routes = Map.empty, default_shard = 0\<rparr>"

definition route :: "shard_router \<Rightarrow> string \<Rightarrow> shard_id" where
  "route r database_name =
     (case routes r database_name of Some s \<Rightarrow> s | None \<Rightarrow> default_shard r)"

definition add_route :: "string \<Rightarrow> shard_id \<Rightarrow> shard_router \<Rightarrow> shard_router" where
  "add_route database_name shard r = r\<lparr>routes := (routes r)(database_name \<mapsto> shard)\<rparr>"

definition remove_route :: "string \<Rightarrow> shard_router \<Rightarrow> shard_id option \<times> shard_router" where
  "remove_route database_name r =
     (routes r database_name, r\<lparr>routes := (routes r)(database_name := None)\<rparr>)"

definition route_count :: "shard_router \<Rightarrow> nat" where
  "route_count r = card (dom (routes r))"

definition set_default_shard :: "shard_id \<Rightarrow> shard_router \<Rightarrow> shard_router" where
  "set_default_shard shard r = r\<lparr>default_shard := shard\<rparr>"

lemmas router_defs =
  router_new_def route_def add_route_def remove_route_def route_count_def set_default_shard_def

section \<open>Replaying configuration commands\<close>

text \<open>
  What a sequence of commands says about one module: nothing, or the last route it left (which
  may be that the route was removed).
\<close>

fun last_route :: "shard_config_command list \<Rightarrow> string \<Rightarrow> shard_id option option" where
  "last_route [] m = None"
| "last_route (cmd # cmds) m =
     (case last_route cmds m of
        Some r \<Rightarrow> Some r
      | None \<Rightarrow>
          (case cmd of
             CreateShard s \<Rightarrow> None
           | AddRoute m' s \<Rightarrow> if m' = m then Some (Some s) else None
           | RemoveRoute m' \<Rightarrow> if m' = m then Some None else None))"

locale route_log =
  fixes exec :: "shard_config_command \<Rightarrow> 't \<Rightarrow> 't"
    and table :: "'t \<Rightarrow> string \<Rightarrow> shard_id option"
  assumes table_create: "table (exec (CreateShard s) t) m = table t m"
    and table_add: "table (exec (AddRoute m' s) t) m = (if m' = m then Some s else table t m)"
    and table_remove: "table (exec (RemoveRoute m') t) m = (if m' = m then None else table t m)"
begin

lemma table_exec:
  "table (exec cmd t) m = (case last_route [cmd] m of Some r \<Rightarrow> r | None \<Rightarrow> table t m)"
  by (cases cmd) (auto simp: table_create table_add table_remove)

lemma table_fold:
  "table (fold exec cmds t) m = (case last_route cmds m of Some r \<Rightarrow> r | None \<Rightarrow> table t m)"
proof (induction cmds arbitrary: t)
  case Nil
  show ?case by simp
next
  case (Cons cmd cmds)
  show ?case
    using Cons.IH [of "exec cmd t"] table_exec [of cmd t m]
    by (cases "last_route cmds m") (simp_all split: option.splits)
qed

end

lemma last_route_append:
  "last_route (xs @ ys) m = (case last_route ys m of Some r \<Rightarrow> Some r | None \<Rightarrow> last_route xs m)"
  by (induction xs) (auto split: option.splits)

text \<open>Replaying a table entry by entry, in any order, leaves exactly its routes on top.\<close>

definition replay_routes :: "(string \<times> shard_id) list \<Rightarrow> shard_config_command list" where
  "replay_routes kvs = map (\<lambda>(m, s). AddRoute m s) kvs"

lemma last_route_replay:
  "distinct (map fst kvs) \<Longrightarrow> last_route (replay_routes kvs) m = map_option Some (map_of kvs m)"
  by (induction kvs)
    (auto simp: replay_routes_def map_of_eq_None_iff split: option.splits dest: map_of_SomeD
      intro: rev_image_eqI)

lemma last_route_creates: "last_route (map CreateShard ss) m = None"
  by (induction ss) auto

section \<open>Properties\<close>

lemma first_byte_Some_iff: "first_byte data = Some b \<longleftrightarrow> (\<exists>rest. data = b # rest)"
  by (cases data) (auto simp: first_byte_def)

lemma decode_Some_iff:
  "decode_shard_config fs data = Some cmd \<longleftrightarrow>
     (\<exists>json. data = SHARD_CONFIG_TAG # json \<and> fs json = Inr cmd)"
  by (auto simp: decode_shard_config_def first_byte_Some_iff result_simps)

lemma encode_Inr_iff:
  "encode_shard_config tv cmd = Inr data \<longleftrightarrow> (\<exists>json. tv cmd = Inr json \<and> data = SHARD_CONFIG_TAG # json)"
  by (auto simp: encode_shard_config_def split: sum.splits)

subsection \<open>Module names\<close>

lemma splitn_3_iff:
  "splitn 3 c s = [a, b, d] \<longleftrightarrow> s = a @ c # b @ c # d \<and> c \<notin> set a \<and> c \<notin> set b"
proof
  assume "splitn 3 c s = [a, b, d]"
  then show "s = a @ c # b @ c # d \<and> c \<notin> set a \<and> c \<notin> set b"
    by (auto simp: numeral_3_eq_3 split_once_Some_iff split: option.splits)
qed (simp add: numeral_3_eq_3)

lemma extract_module_name_Some:
  "extract_module_name path = Some name \<longleftrightarrow>
     (\<exists>second third.
        trim_start_matches (CHR ''/'') path = ''database'' @ CHR ''/'' # second @ CHR ''/'' # third \<and>
        CHR ''/'' \<notin> set second \<and> name \<noteq> [] \<and>
        name = trim_end_matches (CHR ''/'') (split_first (CHR ''?'') third))"
proof -
  let ?t = "trim_start_matches (CHR ''/'') path"
  have empty: "trim_end_matches (CHR ''/'') (split_first (CHR ''?'') []) = []"
    by (simp add: split_simps)
  have "extract_module_name path = Some name \<longleftrightarrow>
      (\<exists>second third. splitn 3 (CHR ''/'') ?t = [''database'', second, third] \<and> name \<noteq> [] \<and>
        name = trim_end_matches (CHR ''/'') (split_first (CHR ''?'') third))"
    by (auto simp: extract_module_name_def Let_def empty split: list.splits)
  then show ?thesis by (auto simp: splitn_3_iff)
qed

lemma split_first_trimmed_iff:
  "name \<noteq> [] \<and> name = trim_end_matches (CHR ''/'') (split_first (CHR ''?'') third) \<longleftrightarrow>
   name \<noteq> [] \<and> CHR ''?'' \<notin> set name \<and> last name \<noteq> CHR ''/'' \<and>
   (\<exists>j rest. third = name @ replicate j (CHR ''/'') @ rest \<and> (rest = [] \<or> hd rest = CHR ''?''))"
  (is "?l \<longleftrightarrow> ?r")
proof
  assume l: ?l
  obtain j where j: "split_first (CHR ''?'') third = name @ replicate j (CHR ''/'')"
    using trim_end_matches_decomp [of "split_first (CHR ''?'') third" "CHR ''/''"] l by auto
  let ?rest = "dropWhile (\<lambda>x. x \<noteq> CHR ''?'') third"
  have third: "third = name @ replicate j (CHR ''/'') @ ?rest"
    using j unfolding split_first_def by (metis append.assoc takeWhile_dropWhile_id)
  have rest: "?rest = [] \<or> hd ?rest = CHR ''?''"
    using hd_dropWhile [of "\<lambda>x. x \<noteq> CHR ''?''" third] by auto
  have noq: "CHR ''?'' \<notin> set name"
  proof
    assume "CHR ''?'' \<in> set name"
    then have "CHR ''?'' \<in> set (split_first (CHR ''?'') third)" by (simp add: j)
    then show False by (simp add: split_first_def)
  qed
  from l have "last name \<noteq> CHR ''/''"
    using last_trim_end_matches [of "CHR ''/''" "split_first (CHR ''?'') third"] by auto
  with l noq third rest show ?r by blast
next
  assume r: ?r
  then obtain j rest where third: "third = name @ replicate j (CHR ''/'') @ rest"
    and rest: "rest = [] \<or> hd rest = CHR ''?''" by blast
  have "CHR ''?'' \<notin> set (name @ replicate j (CHR ''/''))" using r by auto
  then have "split_first (CHR ''?'') third = name @ replicate j (CHR ''/'')"
    using third rest by (cases rest) (auto simp: split_first_def takeWhile_append takeWhile_no_stop)
  moreover have "trim_end_matches (CHR ''/'') (name @ replicate j (CHR ''/'')) =
      trim_end_matches (CHR ''/'') name"
    by (simp add: trim_end_matches_def dropWhile_append)
  ultimately show ?l using r by (simp add: trim_end_matches_id)
qed

text \<open>
  C27. A request path yields the module name \<open>n\<close> exactly when it is, after any number of leading
  slashes, \<open>database/<segment>/n\<close> followed by trailing slashes and an optional query string;
  the name is never empty, never holds a question mark and never ends in a slash. The second
  segment may be anything without a slash, and the name itself may hold inner slashes.
\<close>

theorem extract_module_name_iff:
  "extract_module_name path = Some n \<longleftrightarrow>
     n \<noteq> [] \<and> CHR ''?'' \<notin> set n \<and> last n \<noteq> CHR ''/'' \<and>
     (\<exists>i second j rest.
        path = replicate i (CHR ''/'') @ ''database'' @ CHR ''/'' # second @ CHR ''/'' #
               n @ replicate j (CHR ''/'') @ rest \<and>
        CHR ''/'' \<notin> set second \<and> (rest = [] \<or> hd rest = CHR ''?''))"
  (is "?l \<longleftrightarrow> ?r")
proof
  assume ?l
  then obtain second third where t: "trim_start_matches (CHR ''/'') path =
      ''database'' @ CHR ''/'' # second @ CHR ''/'' # third" "CHR ''/'' \<notin> set second"
    and n: "n \<noteq> []" "n = trim_end_matches (CHR ''/'') (split_first (CHR ''?'') third)"
    by (auto simp: extract_module_name_Some)
  obtain i where "path = replicate i (CHR ''/'') @ ''database'' @ CHR ''/'' # second @ CHR ''/'' # third"
    using trim_start_matches_decomp [of path "CHR ''/''"] t(1) by auto
  moreover from n split_first_trimmed_iff [of n third]
  have "CHR ''?'' \<notin> set n" "last n \<noteq> CHR ''/''"
    and "\<exists>j rest. third = n @ replicate j (CHR ''/'') @ rest \<and> (rest = [] \<or> hd rest = CHR ''?'')"
    by blast+
  ultimately show ?r using t(2) n(1) by blast
next
  assume r: ?r
  then obtain i second j rest where p: "path = replicate i (CHR ''/'') @ ''database'' @
      CHR ''/'' # second @ CHR ''/'' # n @ replicate j (CHR ''/'') @ rest"
    and s: "CHR ''/'' \<notin> set second" "rest = [] \<or> hd rest = CHR ''?''" by blast
  let ?third = "n @ replicate j (CHR ''/'') @ rest"
  have "trim_start_matches (CHR ''/'') path = ''database'' @ CHR ''/'' # second @ CHR ''/'' # ?third"
    unfolding p by (subst trim_start_matches_replicate) simp_all
  moreover have "n = trim_end_matches (CHR ''/'') (split_first (CHR ''?'') ?third)"
    using split_first_trimmed_iff [of n ?third] r s(2) by blast
  ultimately show ?l
    using s r unfolding extract_module_name_Some by blast
qed

text \<open>
  C28. A configuration command that was encoded for the replicated log decodes to itself, its
  first byte is the reserved tag, and no message whose first byte differs from the tag is ever
  taken for a command.
\<close>

theorem shard_config_roundtrip:
  assumes "serde_roundtrip tv fs"
    and "encode_shard_config tv cmd = Inr data"
  shows "decode_shard_config fs data = Some cmd \<and> first_byte data = Some 0xFF \<and>
    (\<forall>msg. first_byte msg \<noteq> Some 0xFF \<longrightarrow> decode_shard_config fs msg = None)"
  using assms
  by (auto simp: encode_Inr_iff decode_Some_iff SHARD_CONFIG_TAG_def first_byte_def
      decode_shard_config_def dest: serde_roundtripD)

definition demo_to_vec :: "shard_config_command to_vec" where
  "demo_to_vec cmd = (if cmd = CreateShard 7 then Inr [123, 55, 125] else Inl ''unsupported'')"

definition demo_from_slice :: "shard_config_command from_slice" where
  "demo_from_slice bs = (if bs = [123, 55, 125] then Inr (CreateShard 7) else Inl ''bad json'')"

lemma demo_codec_roundtrip: "serde_roundtrip demo_to_vec demo_from_slice"
  by (simp add: serde_roundtrip_def demo_to_vec_def demo_from_slice_def)

theorem shard_config_roundtrip_witness:
  "decode_shard_config demo_from_slice [255, 123, 55, 125] = Some (CreateShard 7)"
proof -
  have "encode_shard_config demo_to_vec (CreateShard 7) = Inr [255, 123, 55, 125]"
    by (simp add: encode_shard_config_def demo_to_vec_def SHARD_CONFIG_TAG_def)
  from shard_config_roundtrip [OF demo_codec_roundtrip this] show ?thesis by simp
qed

end
