(* ===== verification/State_Machine.thy ===== *)
theory State_Machine
  imports Runtime Router
begin

text \<open>
  The replicated state machine, \<open>raft/state_machine.rs\<close>: applying committed entries, dispatching
  shard configuration commands and ordinary writes to their channels, building and installing
  snapshots.
\<close>

section \<open>State\<close>

record snapshot_data =
  sd_last_applied :: "log_id option"
  sd_last_membership :: stored_membership
  sd_applied_count :: u64
  sd_shard_routes :: "string \<rightharpoonup> shard_id"
  sd_active_shards :: "shard_id list"

record snapshot_meta =
  sn_last_log_id :: "log_id option"
  sn_last_membership :: stored_membership
  snapshot_id :: string

record snapshot =
  sn_meta :: snapshot_meta
  sn_bytes :: bytes

record state_machine_inner =
  last_applied :: "log_id option"
  last_membership :: stored_membership
  applied_count :: u64
  shard_routes :: "string \<rightharpoonup> shard_id"
  active_shards :: "shard_id list"

record state_machine_store =
  inner :: state_machine_inner
  forwarder :: "(u64 \<times> bytes) channel option"
  shard_config_tx :: "shard_config_command channel option"
  cached_snapshot :: "snapshot option"

definition inner_new :: state_machine_inner where
  "inner_new =
     \<lparr>last_applied = None, last_membership = default_stored_membership, applied_count = 0,
      shard_routes = Map.empty, active_shards = []\<rparr>"

definition sm_new :: state_machine_store where
  "sm_new = \<lparr>inner = inner_new, forwarder = None, shard_config_tx = None, cached_snapshot = None\<rparr>"

definition set_forwarder :: "(u64 \<times> bytes) channel \<Rightarrow> state_machine_store \<Rightarrow> state_machine_store" where
  "set_forwarder tx s = s\<lparr>forwarder := Some tx\<rparr>"

definition set_shard_config_tx ::
    "shard_config_command channel \<Rightarrow> state_machine_store \<Rightarrow> state_machine_store" where
  "set_shard_config_tx tx s = s\<lparr>shard_config_tx := Some tx\<rparr>"

definition sm_last_applied :: "state_machine_store \<Rightarrow> log_id option" where
  "sm_last_applied s = last_applied (inner s)"

definition sm_applied_count :: "state_machine_store \<Rightarrow> u64" where
  "sm_applied_count s = applied_count (inner s)"

definition applied_state :: "state_machine_store \<Rightarrow> fault + (log_id option \<times> stored_membership)" where
  "applied_state s = Inr (last_applied (inner s), last_membership (inner s))"

section \<open>Applying entries\<close>

text \<open>The \<open>match &cmd\<close> block: the configuration kept for snapshots.\<close>

definition apply_config :: "shard_config_command \<Rightarrow> state_machine_inner \<Rightarrow> state_machine_inner" where
  "apply_config cmd i =
     (case cmd of
        CreateShard sid \<Rightarrow>
          if sid \<in> set (active_shards i) then i else i\<lparr>active_shards := active_shards i @ [sid]\<rparr>
      | AddRoute module_name sid \<Rightarrow> i\<lparr>shard_routes := (shard_routes i)(module_name \<mapsto> sid)\<rparr>
      | RemoveRoute module_name \<Rightarrow> i\<lparr>shard_routes := (shard_routes i)(module_name := None)\<rparr>)"

definition apply_request ::
    "shard_config_command from_slice \<Rightarrow> reducer_call_request \<Rightarrow> state_machine_store \<Rightarrow> state_machine_store" where
  "apply_request fs request s =
     (if first_byte (raw_message request) = Some SHARD_CONFIG_TAG then
        (case decode_shard_config fs (raw_message request) of
           Some cmd \<Rightarrow>
             let s = s\<lparr>inner := apply_config cmd (inner s)\<rparr>
             in s\<lparr>shard_config_tx := send_opt cmd (shard_config_tx s)\<rparr>
         | None \<Rightarrow> s)
      else s\<lparr>forwarder := send_opt (origin_node_id request, raw_message request) (forwarder s)\<rparr>)"

text \<open>
  One turn of the loop of \<open>apply\<close>: the log id is recorded for every entry, the membership for a
  membership entry, and a normal entry is dispatched and counted. The count wraps.
\<close>

definition apply_entry ::
    "shard_config_command from_slice \<Rightarrow> entry \<Rightarrow> state_machine_store \<times> metrics \<Rightarrow>
     state_machine_store \<times> metrics" where
  "apply_entry fs e sm =
     (let (s, m) = sm;
          i = (inner s)\<lparr>last_applied := Some (e_log_id e)\<rparr>;
          i = (case e_payload e of
                 Membership mb \<Rightarrow>
                   i\<lparr>last_membership := \<lparr>sm_log_id = Some (e_log_id e), sm_membership = mb\<rparr>\<rparr>
               | _ \<Rightarrow> i);
          s = s\<lparr>inner := i\<rparr>
      in case e_payload e of
           Normal request \<Rightarrow>
             let s = apply_request fs request s;
                 s = s\<lparr>inner := (inner s)\<lparr>applied_count := applied_count (inner s) + 1\<rparr>\<rparr>
             in (s, inc_applied m)
         | _ \<Rightarrow> (s, m))"

fun apply_loop ::
    "shard_config_command from_slice \<Rightarrow> reducer_call_response list \<Rightarrow> entry list \<Rightarrow>
     state_machine_store \<times> metrics \<Rightarrow>
     reducer_call_response list \<times> state_machine_store \<times> metrics" where
  "apply_loop fs results [] sm = (results, sm)"
| "apply_loop fs results (e # es) sm =
     apply_loop fs (results @ [\<lparr>success = True\<rparr>]) es (apply_entry fs e sm)"

definition sm_apply ::
    "shard_config_command from_slice \<Rightarrow> entry list \<Rightarrow> state_machine_store \<times> metrics \<Rightarrow>
     (fault + reducer_call_response list) \<times> state_machine_store \<times> metrics" where
  "sm_apply fs es sm = (let (results, sm) = apply_loop fs [] es sm in (Inr results, sm))"

section \<open>Snapshots\<close>

definition snapshot_data_of :: "state_machine_inner \<Rightarrow> snapshot_data" where
  "snapshot_data_of i =
     \<lparr>sd_last_applied = last_applied i, sd_last_membership = last_membership i,
      sd_applied_count = applied_count i, sd_shard_routes = shard_routes i,
      sd_active_shards = active_shards i\<rparr>"

abbreviation sm_read_error :: "string \<Rightarrow> fault" where
  "sm_read_error e \<equiv> Storage (Io_Error StateMachine Read e)"

definition begin_receiving_snapshot :: "state_machine_store \<Rightarrow> fault + bytes" where
  "begin_receiving_snapshot s = Inr []"

text \<open>
  \<open>order\<close> is the iteration order of the hash map. \<open>unwrap_or_default\<close> caches an empty byte
  string when the serialisation fails.
\<close>

definition install_snapshot ::
    "snapshot_data to_vec \<Rightarrow> snapshot_data from_slice \<Rightarrow>
     ((string \<rightharpoonup> shard_id) \<Rightarrow> (string \<times> shard_id) list) \<Rightarrow>
     snapshot_meta \<Rightarrow> bytes \<Rightarrow> state_machine_store \<Rightarrow> (fault + unit) \<times> state_machine_store" where
  "install_snapshot tv fs order meta snap s =
     (case map_err sm_read_error (fs snap) of
        Inl e \<Rightarrow> (Inl e, s)
      | Inr data \<Rightarrow>
          let i = \<lparr>last_applied = sd_last_applied data, last_membership = sd_last_membership data,
                   applied_count = sd_applied_count data, shard_routes = sd_shard_routes data,
                   active_shards = sd_active_shards data\<rparr>;
              s = s\<lparr>inner := i\<rparr>;
              s = s\<lparr>shard_config_tx :=
                     send_all (map CreateShard (active_shards i) @ replay_routes (order (shard_routes i)))
                       (shard_config_tx s)\<rparr>;
              json = (case tv (snapshot_data_of i) of Inl e \<Rightarrow> [] | Inr bs \<Rightarrow> bs)
          in (Inr (), s\<lparr>cached_snapshot := Some \<lparr>sn_meta = meta, sn_bytes = json\<rparr>\<rparr>))"

definition get_current_snapshot :: "state_machine_store \<Rightarrow> fault + snapshot option" where
  "get_current_snapshot s =
     (case cached_snapshot s of
        Some snap \<Rightarrow> Inr (Some \<lparr>sn_meta = sn_meta snap, sn_bytes = sn_bytes snap\<rparr>)
      | None \<Rightarrow> Inr None)"

text \<open>\<open>show_leader\<close> is the \<open>Display\<close> of the consensus library's leader id.\<close>

definition build_snapshot ::
    "snapshot_data to_vec \<Rightarrow> (leader_id \<Rightarrow> string) \<Rightarrow> state_machine_store \<Rightarrow>
     (fault + snapshot) \<times> state_machine_store" where
  "build_snapshot tv show_leader s =
     (let i = inner s in
      case map_err sm_read_error (tv (snapshot_data_of i)) of
        Inl e \<Rightarrow> (Inl e, s)
      | Inr json \<Rightarrow>
          let sid = (case last_applied i of
                       Some l \<Rightarrow> show_leader (lg_leader_id l) @ ''-'' @ to_string (lg_index l)
                     | None \<Rightarrow> ''0-0'');
              meta = \<lparr>sn_last_log_id = last_applied i, sn_last_membership = last_membership i,
                      snapshot_id = sid\<rparr>;
              snap = \<lparr>sn_meta = meta, sn_bytes = json\<rparr>
          in (Inr snap, s\<lparr>cached_snapshot := Some snap\<rparr>))"

section \<open>What a batch of entries says\<close>

text \<open>
  The contract of \<open>apply\<close>, entry by entry: the writes for SpacetimeDB, the configuration commands,
  how many entries count, and the last membership.
\<close>

definition app_write :: "entry \<Rightarrow> (u64 \<times> bytes) option" where
  "app_write e =
     (case e_payload e of
        Normal q \<Rightarrow>
          if first_byte (raw_message q) = Some SHARD_CONFIG_TAG then None
          else Some (origin_node_id q, raw_message q)
      | _ \<Rightarrow> None)"

definition config_command :: "shard_config_command from_slice \<Rightarrow> entry \<Rightarrow> shard_config_command option" where
  "config_command fs e =
     (case e_payload e of Normal q \<Rightarrow> decode_shard_config fs (raw_message q) | _ \<Rightarrow> None)"

definition app_writes :: "entry list \<Rightarrow> (u64 \<times> bytes) list" where
  "app_writes es = List.map_filter app_write es"

definition config_commands :: "shard_config_command from_slice \<Rightarrow> entry list \<Rightarrow> shard_config_command list" where
  "config_commands fs es = List.map_filter (config_command fs) es"

definition is_normal :: "entry \<Rightarrow> bool" where
  "is_normal e = (case e_payload e of Normal q \<Rightarrow> True | _ \<Rightarrow> False)"

fun last_membership_of :: "stored_membership \<Rightarrow> entry list \<Rightarrow> stored_membership" where
  "last_membership_of sm [] = sm"
| "last_membership_of sm (e # es) =
     last_membership_of
       (case e_payload e of Membership mb \<Rightarrow> \<lparr>sm_log_id = Some (e_log_id e), sm_membership = mb\<rparr> | _ \<Rightarrow> sm) es"

lemma batch_simps [simp]:
  "app_writes [] = []" "config_commands fs [] = []"
  "app_writes (e # es) = (case app_write e of None \<Rightarrow> [] | Some w \<Rightarrow> [w]) @ app_writes es"
  "config_commands fs (e # es) =
     (case config_command fs e of None \<Rightarrow> [] | Some c \<Rightarrow> [c]) @ config_commands fs es"
  by (simp_all add: app_writes_def config_commands_def List.map_filter_def split: option.splits)

lemma app_writes_append [simp]: "app_writes (xs @ ys) = app_writes xs @ app_writes ys"
  by (induction xs) simp_all

lemma config_commands_append [simp]:
  "config_commands fs (xs @ ys) = config_commands fs xs @ config_commands fs ys"
  by (induction xs) simp_all

text \<open>A write for SpacetimeDB never carries the configuration tag.\<close>

lemma app_writes_untagged: "(n, d) \<in> set (app_writes es) \<Longrightarrow> first_byte d \<noteq> Some SHARD_CONFIG_TAG"
  by (induction es) (auto simp: app_write_def split: option.splits entry_payload.splits if_splits)

section \<open>Applying, by its contract\<close>

text \<open>The evolution of the replicated part alone, without the channels and the metrics.\<close>

definition apply_inner ::
    "shard_config_command from_slice \<Rightarrow> entry \<Rightarrow> state_machine_inner \<Rightarrow> state_machine_inner" where
  "apply_inner fs e i =
     (let i = i\<lparr>last_applied := Some (e_log_id e),
                last_membership := last_membership_of (last_membership i) [e]\<rparr>;
          i = (case config_command fs e of None \<Rightarrow> i | Some cmd \<Rightarrow> apply_config cmd i)
      in if is_normal e then i\<lparr>applied_count := applied_count i + 1\<rparr> else i)"

lemma decode_needs_tag: "first_byte d \<noteq> Some SHARD_CONFIG_TAG \<Longrightarrow> decode_shard_config fs d = None"
  by (simp add: decode_shard_config_def)

lemma apply_entry_parts:
  "inner (fst (apply_entry fs e sm)) = apply_inner fs e (inner (fst sm))"
  "forwarder (fst (apply_entry fs e sm)) =
     (case app_write e of None \<Rightarrow> forwarder (fst sm) | Some w \<Rightarrow> send_opt w (forwarder (fst sm)))"
  "shard_config_tx (fst (apply_entry fs e sm)) =
     (case config_command fs e of
        None \<Rightarrow> shard_config_tx (fst sm) | Some c \<Rightarrow> send_opt c (shard_config_tx (fst sm)))"
  "cached_snapshot (fst (apply_entry fs e sm)) = cached_snapshot (fst sm)"
  "snd (apply_entry fs e sm) = (if is_normal e then inc_applied (snd sm) else snd sm)"
  by (auto simp: apply_entry_def apply_request_def apply_inner_def app_write_def config_command_def
      is_normal_def Let_def decode_needs_tag split: entry_payload.splits option.splits prod.splits)

lemma apply_loop_eq:
  "apply_loop fs rs es sm = (rs @ replicate (length es) \<lparr>success = True\<rparr>, fold (apply_entry fs) es sm)"
  by (induction es arbitrary: rs sm) (simp_all add: replicate_append_same [symmetric])

lemma sm_apply_eq:
  "sm_apply fs es sm = (Inr (replicate (length es) \<lparr>success = True\<rparr>), fold (apply_entry fs) es sm)"
  by (simp add: sm_apply_def apply_loop_eq)

lemma fold_apply_parts:
  "inner (fst (fold (apply_entry fs) es sm)) = fold (apply_inner fs) es (inner (fst sm))"
  "forwarder (fst (fold (apply_entry fs) es sm)) = send_all (app_writes es) (forwarder (fst sm))"
  "shard_config_tx (fst (fold (apply_entry fs) es sm)) =
     send_all (config_commands fs es) (shard_config_tx (fst sm))"
  "cached_snapshot (fst (fold (apply_entry fs) es sm)) = cached_snapshot (fst sm)"
  "ENTRIES_APPLIED (snd (fold (apply_entry fs) es sm)) =
     ENTRIES_APPLIED (snd sm) + of_nat (length (filter is_normal es))"
  by (induction es arbitrary: sm) (simp_all add: apply_entry_parts split: option.splits)

lemma apply_config_parts [simp]:
  "last_applied (apply_config c i) = last_applied i"
  "last_membership (apply_config c i) = last_membership i"
  "applied_count (apply_config c i) = applied_count i"
  by (simp_all add: apply_config_def split: shard_config_command.splits)

lemma apply_inner_parts:
  "last_applied (apply_inner fs e i) = Some (e_log_id e)"
  "last_membership (apply_inner fs e i) = last_membership_of (last_membership i) [e]"
  "applied_count (apply_inner fs e i) = applied_count i + (if is_normal e then 1 else 0)"
  by (simp_all add: apply_inner_def Let_def split: option.splits)

text \<open>The replicated configuration: the routing table and the shards created.\<close>

lemma apply_inner_config:
  "shard_routes (apply_inner fs e i) = shard_routes (fold apply_config (config_commands fs [e]) i)"
  "active_shards (apply_inner fs e i) = active_shards (fold apply_config (config_commands fs [e]) i)"
  by (auto simp: apply_inner_def Let_def apply_config_def split: option.splits shard_config_command.splits)

lemma apply_config_cong:
  assumes "shard_routes i = shard_routes j" "active_shards i = active_shards j"
  shows "shard_routes (fold apply_config cs i) = shard_routes (fold apply_config cs j) \<and>
   active_shards (fold apply_config cs i) = active_shards (fold apply_config cs j)"
  using assms
proof (induction cs arbitrary: i j)
  case (Cons c cs)
  have "shard_routes (apply_config c i) = shard_routes (apply_config c j)"
    "active_shards (apply_config c i) = active_shards (apply_config c j)"
    using Cons.prems by (cases c; simp add: apply_config_def)+
  from Cons.IH [OF this] show ?case by simp
qed simp

lemma fold_apply_inner_parts:
  "last_applied (fold (apply_inner fs) es i) =
     (if es = [] then last_applied i else Some (e_log_id (last es)))"
  "last_membership (fold (apply_inner fs) es i) = last_membership_of (last_membership i) es"
  "applied_count (fold (apply_inner fs) es i) = applied_count i + of_nat (length (filter is_normal es))"
  by (induction es arbitrary: i) (simp_all add: apply_inner_parts)

lemma fold_apply_inner_config:
  "shard_routes (fold (apply_inner fs) es i) = shard_routes (fold apply_config (config_commands fs es) i) \<and>
   active_shards (fold (apply_inner fs) es i) = active_shards (fold apply_config (config_commands fs es) i)"
proof (induction es arbitrary: i)
  case (Cons e es)
  have "config_commands fs (e # es) = config_commands fs [e] @ config_commands fs es" by simp
  then show ?case
    using Cons.IH [of "apply_inner fs e i"]
      apply_config_cong [OF apply_inner_config(1) [of fs e i] apply_inner_config(2) [of fs e i],
        where cs = "config_commands fs es"]
    by (simp only: fold_simps fold_append comp_apply)
qed simp

interpretation sm_table: route_log apply_config shard_routes
  by unfold_locales (simp_all add: apply_config_def)

lemma active_shards_fold:
  "set (active_shards (fold apply_config cs i)) = set (active_shards i) \<union> {s. CreateShard s \<in> set cs}"
proof (induction cs arbitrary: i)
  case (Cons c cs)
  have "set (active_shards (apply_config c i)) = set (active_shards i) \<union> {s. CreateShard s = c}"
    by (cases c) (auto simp: apply_config_def)
  with Cons.IH [of "apply_config c i"] show ?case by auto
qed simp

section \<open>Well-formed state machines\<close>

definition inner_inv :: "state_machine_inner \<Rightarrow> bool" where
  "inner_inv i \<longleftrightarrow> finite (dom (shard_routes i)) \<and> distinct (active_shards i)"

lemma inner_inv_new: "inner_inv inner_new"
  by (simp add: inner_inv_def inner_new_def)

lemma inner_inv_config: "inner_inv i \<Longrightarrow> inner_inv (apply_config c i)"
  by (cases c) (auto simp: inner_inv_def apply_config_def)

lemma inner_inv_fold_config: "inner_inv i \<Longrightarrow> inner_inv (fold apply_config cs i)"
  by (induction cs arbitrary: i) (simp_all add: inner_inv_config)

lemma inner_inv_fold: "inner_inv i \<Longrightarrow> inner_inv (fold (apply_inner fs) es i)"
  using inner_inv_fold_config [of i "config_commands fs es"] fold_apply_inner_config [of fs es i]
  by (simp add: inner_inv_def)

section \<open>Properties\<close>

text \<open>
  C1. Applying a batch of committed entries. There is exactly one response per entry, blank and
  membership entries included, and every response reports success. Afterwards the last applied
  id is that of the last entry, the count has grown by the number of normal entries modulo
  2 to the 64, the membership is that of the last membership entry; the forwarder received the
  ordinary writes, and only those, in log order with their origins; the pool received the
  decodable configuration commands, and only those, in log order; and the routing table maps a
  module to where the last command about it sent it.
\<close>

theorem sm_apply_contract:
  "let (r, s', m') = sm_apply fs es (s, m) in
     r = Inr (replicate (length es) \<lparr>success = True\<rparr>) \<and>
     last_applied (inner s') = (if es = [] then last_applied (inner s) else Some (e_log_id (last es))) \<and>
     last_membership (inner s') = last_membership_of (last_membership (inner s)) es \<and>
     unat (applied_count (inner s')) =
       (unat (applied_count (inner s)) + length (filter is_normal es)) mod 2 ^ 64 \<and>
     forwarder s' = send_all (app_writes es) (forwarder s) \<and>
     shard_config_tx s' = send_all (config_commands fs es) (shard_config_tx s) \<and>
     (\<forall>mn. shard_routes (inner s') mn =
        (case last_route (config_commands fs es) mn of
           Some target \<Rightarrow> target | None \<Rightarrow> shard_routes (inner s) mn)) \<and>
     set (active_shards (inner s')) =
       set (active_shards (inner s)) \<union> {sid. CreateShard sid \<in> set (config_commands fs es)} \<and>
     cached_snapshot s' = cached_snapshot s"
proof -
  let ?i = "fold (apply_inner fs) es (inner s)"
  have "unat (applied_count ?i) =
      (unat (applied_count (inner s)) + length (filter is_normal es)) mod 2 ^ 64"
    by (simp add: fold_apply_inner_parts unat_word_ariths unat_of_nat take_bit_eq_mod mod_simps)
  moreover have "shard_routes ?i mn =
      (case last_route (config_commands fs es) mn of
         Some target \<Rightarrow> target | None \<Rightarrow> shard_routes (inner s) mn)" for mn
    using fold_apply_inner_config [of fs es "inner s"] sm_table.table_fold by simp
  moreover have "set (active_shards ?i) =
      set (active_shards (inner s)) \<union> {sid. CreateShard sid \<in> set (config_commands fs es)}"
    using fold_apply_inner_config [of fs es "inner s"] by (simp add: active_shards_fold)
  ultimately show ?thesis
    by (simp add: sm_apply_eq fold_apply_parts fold_apply_inner_parts split: prod.splits)
      (metis fold_apply_parts fold_apply_inner_parts fst_conv)
qed

lemma snapshot_data_of_inverse:
  "\<lparr>last_applied = sd_last_applied (snapshot_data_of i),
    last_membership = sd_last_membership (snapshot_data_of i),
    applied_count = sd_applied_count (snapshot_data_of i),
    shard_routes = sd_shard_routes (snapshot_data_of i),
    active_shards = sd_active_shards (snapshot_data_of i)\<rparr> = i"
  by (simp add: snapshot_data_of_def)

lemma build_snapshot_Inr:
  assumes "build_snapshot tv sl s = (Inr snap, s')"
  shows "tv (snapshot_data_of (inner s)) = Inr (sn_bytes snap)" "inner s' = inner s"
    "get_current_snapshot s' = Inr (Some snap)" "sn_last_log_id (sn_meta snap) = last_applied (inner s)"
  using assms
  by (auto simp: build_snapshot_def Let_def get_current_snapshot_def split: sum.splits
      elim: map_err.elims)

lemma install_built_snapshot:
  assumes "serde_roundtrip tv sfs" "build_snapshot tv sl a = (Inr snap, a')"
  shows "\<exists>b'. install_snapshot tv sfs order (sn_meta snap) (sn_bytes snap) b = (Inr (), b') \<and>
    inner b' = inner a \<and> cached_snapshot b' = Some snap \<and> forwarder b' = forwarder b \<and>
    shard_config_tx b' = send_all (map CreateShard (active_shards (inner a)) @
      replay_routes (order (shard_routes (inner a)))) (shard_config_tx b)"
proof -
  have enc: "tv (snapshot_data_of (inner a)) = Inr (sn_bytes snap)"
    using build_snapshot_Inr(1) [OF assms(2)] .
  have dec: "sfs (sn_bytes snap) = Inr (snapshot_data_of (inner a))"
    using serde_roundtripD [OF assms(1) enc] .
  show ?thesis
    by (simp add: install_snapshot_def dec Let_def snapshot_data_of_inverse enc)
qed


definition demo_create7 :: entry where
  "demo_create7 =
     \<lparr>e_log_id = \<lparr>lg_leader_id = \<lparr>lid_term = 1, lid_node_id = 1\<rparr>, lg_index = 4\<rparr>,
      e_payload = Normal \<lparr>raw_message = [255, 123, 55, 125], origin_node_id = 1\<rparr>\<rparr>"

definition demo_write :: entry where
  "demo_write =
     \<lparr>e_log_id = \<lparr>lg_leader_id = \<lparr>lid_term = 1, lid_node_id = 1\<rparr>, lg_index = 5\<rparr>,
      e_payload = Normal \<lparr>raw_message = [3, 9], origin_node_id = 2\<rparr>\<rparr>"

definition demo_inner7 :: state_machine_inner where
  "demo_inner7 =
     \<lparr>last_applied = Some (e_log_id demo_create7), last_membership = default_stored_membership,
      applied_count = 1, shard_routes = Map.empty, active_shards = [7]\<rparr>"

definition demo_snap_to_vec :: "snapshot_data to_vec" where
  "demo_snap_to_vec d = (if d = snapshot_data_of demo_inner7 then Inr [77] else Inl ''unsupported'')"

definition demo_snap_from_slice :: "snapshot_data from_slice" where
  "demo_snap_from_slice b = (if b = [77] then Inr (snapshot_data_of demo_inner7) else Inl ''bad json'')"

lemma demo_snap_roundtrip: "serde_roundtrip demo_snap_to_vec demo_snap_from_slice"
  by (simp add: serde_roundtrip_def demo_snap_to_vec_def demo_snap_from_slice_def)

lemma demo_apply_create7:
  "sm_apply demo_from_slice [demo_create7] (sm_new, metrics_new) =
     (Inr [\<lparr>success = True\<rparr>], sm_new\<lparr>inner := demo_inner7\<rparr>, inc_applied metrics_new)"
  by (simp add: sm_apply_def apply_entry_def demo_create7_def apply_request_def Let_def first_byte_def
      SHARD_CONFIG_TAG_def decode_shard_config_def demo_from_slice_def apply_config_def sm_new_def
      inner_new_def send_opt_def demo_inner7_def)

lemma demo_build7:
  "build_snapshot demo_snap_to_vec (\<lambda>l. ''1'') (sm_new\<lparr>inner := demo_inner7\<rparr>) =
     (Inr \<lparr>sn_meta = \<lparr>sn_last_log_id = Some (e_log_id demo_create7),
            sn_last_membership = default_stored_membership, snapshot_id = ''1-4''\<rparr>, sn_bytes = [77]\<rparr>,
      sm_new\<lparr>inner := demo_inner7, cached_snapshot := Some
        \<lparr>sn_meta = \<lparr>sn_last_log_id = Some (e_log_id demo_create7),
            sn_last_membership = default_stored_membership, snapshot_id = ''1-4''\<rparr>, sn_bytes = [77]\<rparr>\<rparr>)"
  by (simp add: build_snapshot_def Let_def demo_snap_to_vec_def demo_inner7_def demo_create7_def
      to_string_def std_simps)


text \<open>
  Installing a snapshot changes nothing when its bytes do not decode, and otherwise replaces
  the whole replicated state by the decoded one and tells the pool, on shard 0, to create every
  active shard before it adds any route.
\<close>

lemma install_snapshot_branches:
  "(case sfs bytes of
      Inl e \<Rightarrow> install_snapshot tv sfs order meta bytes s = (Inl (Storage (Io_Error StateMachine Read e)), s)
    | Inr d \<Rightarrow>
        (\<exists>s'. install_snapshot tv sfs order meta bytes s = (Inr (), s') \<and>
           snapshot_data_of (inner s') = d \<and> forwarder s' = forwarder s \<and>
           shard_config_tx s' = send_all (map CreateShard (sd_active_shards d) @
             map (\<lambda>(m, sid). AddRoute m sid) (order (sd_shard_routes d))) (shard_config_tx s)))"
  by (auto simp: install_snapshot_def snapshot_data_of_def Let_def replay_routes_def split: sum.splits)

text \<open>
  In every state reached by applying entries from a new state machine, or from a
  well-formed one, the list of active shards has no duplicates and the routing table is finite.
\<close>

lemma sm_apply_well_formed:
  assumes "inner_inv (inner s)"
  shows "inner_inv (inner (fst (snd (sm_apply fs es (s, m)))))"
  using inner_inv_fold [OF assms] by (simp add: sm_apply_eq fold_apply_parts)

end
