(* ===== verification/Forwarder.thy ===== *)
theory Forwarder
  imports Runtime "HOL-Library.Sublist"
begin

text \<open>
  The forwarder task of a shard, \<open>RaftPool::spawn_forwarder\<close> of \<open>raft/mod.rs\<close>: it waits for a
  database path, connects to SpacetimeDB and sends it the committed writes of other nodes.
\<close>

section \<open>The task\<close>

text \<open>
  Where the task is in its code: in the loop that waits for a path, at the top of the connect
  loop with the URL fixed, in the inner loop with an open connection, or returned.
\<close>

datatype fwd_phase = Waiting | Connecting string | Connected string | Stopped

record forwarder_task =
  fw_node_id :: u64
  fw_stdb_url :: string
  fw_seen :: nat
  fw_phase :: fwd_phase

definition spawn_forwarder :: "u64 \<Rightarrow> string \<Rightarrow> nat \<Rightarrow> forwarder_task" where
  "spawn_forwarder nid url seen =
     \<lparr>fw_node_id = nid, fw_stdb_url = url, fw_seen = seen, fw_phase = Waiting\<rparr>"

text \<open>
  What the task can observe at an \<open>await\<close>: the path channel changed or lost its sender, the
  shutdown signal fired, the outcome of a connection attempt, a message with the outcome of its
  send, or the end of the message channel. \<open>fwd_world\<close> is the task with the channels it reads
  and, in order, what SpacetimeDB received from it.
\<close>

datatype fwd_event =
    Path_Changed
  | Path_Sender_Dropped
  | Shutdown_Changed
  | Shutdown_Seen
  | Connect_Result bool
  | Received bool
  | Rx_Closed

record fwd_world =
  fw_task :: forwarder_task
  fw_paths :: "string watch"
  fw_rx :: "(u64 \<times> bytes) channel"
  fw_delivered :: "bytes list"

abbreviation set_phase :: "fwd_phase \<Rightarrow> fwd_world \<Rightarrow> fwd_world" where
  "set_phase ph w \<equiv> w\<lparr>fw_task := (fw_task w)\<lparr>fw_phase := ph\<rparr>\<rparr>"

fun fwd_step :: "fwd_event \<Rightarrow> fwd_world \<Rightarrow> fwd_world option" where
  "fwd_step ev w =
     (case fw_phase (fw_task w) of
        Waiting \<Rightarrow>
          (case ev of
             Path_Changed \<Rightarrow>
               if watch_changed (fw_seen (fw_task w)) (fw_paths w) then
                 let t = (fw_task w)\<lparr>fw_seen := w_version (fw_paths w)\<rparr>;
                     path = w_value (fw_paths w)
                 in if path = [] then Some (w\<lparr>fw_task := t\<rparr>)
                    else Some (w\<lparr>fw_task := t\<lparr>fw_phase := Connecting (fw_stdb_url t @ path)\<rparr>\<rparr>)
               else None
           | Path_Sender_Dropped \<Rightarrow> Some (set_phase Stopped w)
           | Shutdown_Changed \<Rightarrow> Some (set_phase Stopped w)
           | _ \<Rightarrow> None)
      | Connecting url \<Rightarrow>
          (case ev of
             Shutdown_Seen \<Rightarrow> Some (set_phase Stopped w)
           | Connect_Result True \<Rightarrow> Some (set_phase (Connected url) w)
           | Connect_Result False \<Rightarrow> Some w
           | _ \<Rightarrow> None)
      | Connected url \<Rightarrow>
          (case ev of
             Received sent_ok \<Rightarrow>
               (case ch_recv (fw_rx w) of
                  None \<Rightarrow> None
                | Some ((origin, data), rx) \<Rightarrow>
                    let w = w\<lparr>fw_rx := rx\<rparr> in
                    if origin = fw_node_id (fw_task w) then Some w
                    else if sent_ok then Some (w\<lparr>fw_delivered := fw_delivered w @ [data]\<rparr>)
                    else Some (set_phase (Connecting url) w))
           | Rx_Closed \<Rightarrow> if ch_queue (fw_rx w) = [] then Some (set_phase Stopped w) else None
           | Shutdown_Changed \<Rightarrow> Some (set_phase Stopped w)
           | _ \<Rightarrow> None)
      | Stopped \<Rightarrow> None)"

declare fwd_step.simps [simp del]

text \<open>
  Runs of the task in its environment: between its own steps the state machine may send further
  messages and a client connection may publish a path. A run ends with the task: once it has
  returned, its receiver is dropped and no further message reaches it.
\<close>

datatype fwd_action = Task fwd_event | Commit "(u64 \<times> bytes) list" | Publish string

fun fwd_exec :: "fwd_action \<Rightarrow> fwd_world \<Rightarrow> fwd_world option" where
  "fwd_exec (Task ev) w = fwd_step ev w"
| "fwd_exec (Commit ms) w =
     (if fw_phase (fw_task w) = Stopped then None
      else Some (w\<lparr>fw_rx := (fw_rx w)\<lparr>ch_queue := ch_queue (fw_rx w) @ ms\<rparr>\<rparr>))"
| "fwd_exec (Publish p) w = Some (w\<lparr>fw_paths := snd (watch_send p (fw_paths w))\<rparr>)"

inductive fwd_run :: "fwd_world \<Rightarrow> fwd_action list \<Rightarrow> fwd_world \<Rightarrow> bool" where
  run_done: "fwd_run w [] w"
| run_step: "fwd_exec a w = Some w1 \<Longrightarrow> fwd_run w1 as w2 \<Longrightarrow> fwd_run w (a # as) w2"

inductive_cases fwd_run_ConsE: "fwd_run w (a # as) w2"
inductive_cases fwd_run_NilE: "fwd_run w [] w2"

section \<open>What a run delivers\<close>

definition committed :: "fwd_action list \<Rightarrow> (u64 \<times> bytes) list" where
  "committed as = concat (map (\<lambda>a. case a of Commit ms \<Rightarrow> ms | _ \<Rightarrow> []) as)"

definition foreign :: "u64 \<Rightarrow> (u64 \<times> bytes) list \<Rightarrow> bytes list" where
  "foreign nid ms = map snd (filter (\<lambda>m. fst m \<noteq> nid) ms)"

definition send_failure :: "fwd_action \<Rightarrow> bool" where
  "send_failure a = (a = Task (Received False))"

lemma foreign_simps [simp]:
  "foreign nid [] = []"
  "foreign nid ((o', d) # ms) = (if o' = nid then foreign nid ms else d # foreign nid ms)"
  "foreign nid (xs @ ys) = foreign nid xs @ foreign nid ys"
  by (simp_all add: foreign_def)

lemma committed_simps [simp]:
  "committed [] = []"
  "committed (a # as) = (case a of Commit ms \<Rightarrow> ms | _ \<Rightarrow> []) @ committed as"
  by (simp_all add: committed_def)

text \<open>
  One step takes a prefix of the queue and delivers a subsequence of what is foreign in it, all
  of it when the send succeeds.
\<close>

lemma fwd_step_takes:
  assumes "fwd_step ev w = Some w'"
  shows "\<exists>taken out. ch_queue (fw_rx w) = taken @ ch_queue (fw_rx w') \<and>
     fw_delivered w' = fw_delivered w @ out \<and> subseq out (foreign (fw_node_id (fw_task w)) taken) \<and>
     (ev \<noteq> Received False \<longrightarrow> out = foreign (fw_node_id (fw_task w)) taken) \<and>
     fw_node_id (fw_task w') = fw_node_id (fw_task w)"
proof (cases "\<exists>url ok. fw_phase (fw_task w) = Connected url \<and> ev = Received ok")
  case True
  then obtain url ok where ph: "fw_phase (fw_task w) = Connected url" "ev = Received ok" by blast
  with assms obtain og d rx where rx: "ch_recv (fw_rx w) = Some ((og, d), rx)"
    by (auto simp: fwd_step.simps split: option.splits)
  then have q: "ch_queue (fw_rx w) = (og, d) # ch_queue rx"
    by (auto simp: ch_recv_def split: list.splits)
  show ?thesis
    by (rule exI [of _ "[(og, d)]"],
        rule exI [of _ "if ok \<and> og \<noteq> fw_node_id (fw_task w) then [d] else []"])
      (use assms ph rx q in \<open>auto simp: fwd_step.simps Let_def split: if_splits\<close>)
next
  case False
  then have "fw_rx w' = fw_rx w" "fw_delivered w' = fw_delivered w"
      "fw_node_id (fw_task w') = fw_node_id (fw_task w)"
    using assms
    by (auto simp: fwd_step.simps Let_def split: fwd_phase.splits fwd_event.splits if_splits bool.splits)
  then show ?thesis by (intro exI [of _ "[]"]) simp
qed

lemma fwd_exec_takes:
  assumes "fwd_exec a w = Some w'"
  shows "\<exists>taken out. ch_queue (fw_rx w) @ committed [a] = taken @ ch_queue (fw_rx w') \<and>
     fw_delivered w' = fw_delivered w @ out \<and> subseq out (foreign (fw_node_id (fw_task w)) taken) \<and>
     (\<not> send_failure a \<longrightarrow> out = foreign (fw_node_id (fw_task w)) taken) \<and>
     fw_node_id (fw_task w') = fw_node_id (fw_task w)"
proof (cases a)
  case (Task ev)
  with assms have "fwd_step ev w = Some w'" by simp
  from fwd_step_takes [OF this] Task show ?thesis by (simp add: send_failure_def)
next
  case (Commit ms)
  with assms show ?thesis by (intro exI [of _ "[]"]) (auto split: if_splits)
next
  case (Publish p)
  with assms show ?thesis by (intro exI [of _ "[]"]) auto
qed

lemma fwd_run_takes:
  "fwd_run w as w' \<Longrightarrow>
   \<exists>taken out. ch_queue (fw_rx w) @ committed as = taken @ ch_queue (fw_rx w') \<and>
     fw_delivered w' = fw_delivered w @ out \<and> subseq out (foreign (fw_node_id (fw_task w)) taken) \<and>
     (list_all (\<lambda>a. \<not> send_failure a) as \<longrightarrow> out = foreign (fw_node_id (fw_task w)) taken)"
proof (induction rule: fwd_run.induct)
  case (run_done w)
  show ?case by (intro exI [of _ "[]"]) simp
next
  case (run_step a w w1 as w2)
  obtain t1 o1 where 1: "ch_queue (fw_rx w) @ committed [a] = t1 @ ch_queue (fw_rx w1)"
    "fw_delivered w1 = fw_delivered w @ o1" "subseq o1 (foreign (fw_node_id (fw_task w)) t1)"
    "\<not> send_failure a \<longrightarrow> o1 = foreign (fw_node_id (fw_task w)) t1"
    "fw_node_id (fw_task w1) = fw_node_id (fw_task w)"
    using fwd_exec_takes [OF run_step.hyps(1)] by blast
  obtain t2 o2 where 2: "ch_queue (fw_rx w1) @ committed as = t2 @ ch_queue (fw_rx w2)"
    "fw_delivered w2 = fw_delivered w1 @ o2" "subseq o2 (foreign (fw_node_id (fw_task w)) t2)"
    "list_all (\<lambda>a. \<not> send_failure a) as \<longrightarrow> o2 = foreign (fw_node_id (fw_task w)) t2"
    using run_step.IH 1(5) by auto
  have "ch_queue (fw_rx w) @ committed (a # as) = (t1 @ t2) @ ch_queue (fw_rx w2)"
  proof -
    have "ch_queue (fw_rx w) @ committed (a # as) = (ch_queue (fw_rx w) @ committed [a]) @ committed as"
      by simp
    also have "\<dots> = t1 @ t2 @ ch_queue (fw_rx w2)"
      unfolding 1(1) using 2(1) by simp
    finally show ?thesis by simp
  qed
  moreover have "subseq (o1 @ o2) (foreign (fw_node_id (fw_task w)) (t1 @ t2))"
    using list_emb_append_mono [OF 1(3) 2(3)] by simp
  ultimately show ?case
    using 1 2 by (intro exI [of _ "t1 @ t2"] exI [of _ "o1 @ o2"]) simp
qed

section \<open>Properties\<close>

text \<open>
  C17. Whatever happens to the connection, the forwarder hands SpacetimeDB only committed writes
  of other nodes, in log order, none of them twice and none of its own: what it delivered is a
  subsequence of the foreign writes among the messages it took, and what it took is a prefix of
  what was committed to it. Messages wait in the channel while there is no connection. When no
  send fails, it delivered all the foreign writes it took.
\<close>

theorem forwarder_delivers_foreign_in_order:
  assumes "fwd_run w as w'" "fw_delivered w = []" "ch_queue (fw_rx w) = []"
  shows "\<exists>taken. committed as = taken @ ch_queue (fw_rx w') \<and>
    subseq (fw_delivered w') (foreign (fw_node_id (fw_task w)) taken) \<and>
    (Task (Received False) \<notin> set as \<longrightarrow> fw_delivered w' = foreign (fw_node_id (fw_task w)) taken)"
  using fwd_run_takes [OF assms(1)] assms(2,3)
  by (auto simp: send_failure_def list_all_iff)

definition demo_fwd :: fwd_world where
  "demo_fwd =
     \<lparr>fw_task = spawn_forwarder 1 ''ws://db'' 0,
      fw_paths = snd (watch_subscribe (watch_new [])), fw_rx = channel_new, fw_delivered = []\<rparr>"

definition demo_fwd_actions :: "fwd_action list" where
  "demo_fwd_actions =
     [Commit [(1, [3, 10]), (2, [3, 20])], Publish ''/database/subscribe/m'', Task Path_Changed,
      Task (Connect_Result False), Task (Connect_Result True), Task (Received True),
      Task (Received True)]"

fun fwd_execs :: "fwd_action list \<Rightarrow> fwd_world \<Rightarrow> fwd_world option" where
  "fwd_execs [] w = Some w"
| "fwd_execs (a # as) w = (case fwd_exec a w of None \<Rightarrow> None | Some w1 \<Rightarrow> fwd_execs as w1)"

lemma fwd_run_execs: "fwd_execs as w = Some w' \<Longrightarrow> fwd_run w as w'"
  by (induction as arbitrary: w) (auto intro: fwd_run.intros split: option.splits)

lemma demo_fwd_execs:
  "\<exists>w'. fwd_execs demo_fwd_actions demo_fwd = Some w' \<and> ch_queue (fw_rx w') = [] \<and>
     fw_phase (fw_task w') = Connected ''ws://db/database/subscribe/m''"
  by (simp add: demo_fwd_actions_def demo_fwd_def spawn_forwarder_def watch_new_def watch_subscribe_def
      channel_new_def fwd_step.simps watch_send_def watch_changed_def ch_recv_def Let_def)

theorem forwarder_delivers_foreign_in_order_witness:
  "\<exists>w'. fwd_run demo_fwd demo_fwd_actions w' \<and> fw_delivered w' = [[3, 20]]"
proof -
  obtain w' where w': "fwd_execs demo_fwd_actions demo_fwd = Some w'" "ch_queue (fw_rx w') = []"
    using demo_fwd_execs by blast
  have run: "fwd_run demo_fwd demo_fwd_actions w'" using fwd_run_execs [OF w'(1)] .
  from forwarder_delivers_foreign_in_order [OF run] w'(2)
  have "fw_delivered w' = foreign 1 (committed demo_fwd_actions)"
    by (auto simp: demo_fwd_def channel_new_def spawn_forwarder_def demo_fwd_actions_def)
  with run show ?thesis by (auto simp: demo_fwd_actions_def)
qed

text \<open>
  A failed send loses its message. In a run where two foreign writes are committed and the
  send of the first fails, the task reconnects and goes on with the second: the channel is empty
  at the end, SpacetimeDB has the second write and never the first.
\<close>

lemma forwarder_drops_failed_send:
  "\<exists>as w'. fwd_run demo_fwd as w' \<and> committed as = [(2, [3, 20]), (3, [3, 30])] \<and>
     ch_queue (fw_rx w') = [] \<and> fw_delivered w' = [[3, 30]]"
proof -
  let ?as = "[Publish ''/m'', Task Path_Changed, Task (Connect_Result True),
    Commit [(2, [3, 20]), (3, [3, 30])], Task (Received False), Task (Connect_Result True),
    Task (Received True)]"
  have "\<exists>w'. fwd_execs ?as demo_fwd = Some w' \<and> ch_queue (fw_rx w') = [] \<and> fw_delivered w' = [[3, 30]]"
    by (simp add: demo_fwd_def spawn_forwarder_def watch_new_def watch_subscribe_def
        channel_new_def fwd_step.simps watch_send_def watch_changed_def ch_recv_def Let_def)
  then obtain w' where w': "fwd_execs ?as demo_fwd = Some w'" "ch_queue (fw_rx w') = []"
    "fw_delivered w' = [[3, 30]]" by blast
  moreover have "committed ?as = [(2, [3, 20]), (3, [3, 30])]" by simp
  ultimately show ?thesis using fwd_run_execs by blast
qed

section \<open>The forwarder drains its channel\<close>

lemma fwd_receive:
  assumes "fw_phase (fw_task w) = Connected url" "ch_queue (fw_rx w) = (og, d) # ms"
  shows "\<exists>w'. fwd_exec (Task (Received True)) w = Some w' \<and> fw_phase (fw_task w') = Connected url \<and>
    fw_node_id (fw_task w') = fw_node_id (fw_task w) \<and> ch_queue (fw_rx w') = ms \<and>
    fw_delivered w' = fw_delivered w @ foreign (fw_node_id (fw_task w)) [(og, d)]"
  using assms by (simp add: fwd_step.simps ch_recv_def Let_def)

text \<open>
  A connected forwarder can always finish its work: after as many successful receives as there
  are messages in its channel it has delivered every foreign write that was waiting, in order.
\<close>

lemma fwd_drain:
  assumes "fw_phase (fw_task w) = Connected url"
  shows "\<exists>w'. fwd_run w (replicate (length (ch_queue (fw_rx w))) (Task (Received True))) w' \<and>
    fw_phase (fw_task w') = Connected url \<and> ch_queue (fw_rx w') = [] \<and>
    fw_delivered w' = fw_delivered w @ foreign (fw_node_id (fw_task w)) (ch_queue (fw_rx w))"
  using assms
proof (induction "ch_queue (fw_rx w)" arbitrary: w)
  case Nil
  then show ?case by (auto intro: fwd_run.intros simp flip: Nil)
next
  case (Cons msg ms)
  obtain og d where msg: "msg = (og, d)" by fastforce
  obtain w1 where w1: "fwd_exec (Task (Received True)) w = Some w1" "fw_phase (fw_task w1) = Connected url"
    "fw_node_id (fw_task w1) = fw_node_id (fw_task w)" "ch_queue (fw_rx w1) = ms"
    "fw_delivered w1 = fw_delivered w @ foreign (fw_node_id (fw_task w)) [(og, d)]"
    using fwd_receive [OF Cons.prems] Cons.hyps(2) msg by metis
  from Cons.hyps(1) [OF w1(4) [symmetric] w1(2)] obtain w' where
    "fwd_run w1 (replicate (length ms) (Task (Received True))) w'" "fw_phase (fw_task w') = Connected url"
    "ch_queue (fw_rx w') = []" "fw_delivered w' = fw_delivered w1 @ foreign (fw_node_id (fw_task w)) ms"
    using w1(3,4) by auto
  moreover from this(1) have "fwd_run w (replicate (length (msg # ms)) (Task (Received True))) w'"
    using run_step [OF w1(1)] by simp
  ultimately show ?case
    unfolding Cons.hyps(2) [symmetric] using w1(5) msg by (intro exI [of _ w']) simp
qed

section \<open>The forwarder stops working\<close>

text \<open>
  The potential of a task: two units per waiting message, since a failed send costs a further
  connection, and the phases still ahead. Only what arrives from outside adds to it, and every
  step but a failed connection attempt takes from it.
\<close>

definition fwd_potential :: "fwd_world \<Rightarrow> nat" where
  "fwd_potential w = 2 * length (ch_queue (fw_rx w)) +
     (case fw_phase (fw_task w) of
        Waiting \<Rightarrow> 3 + (if watch_changed (fw_seen (fw_task w)) (fw_paths w) then 1 else 0)
      | Connecting url \<Rightarrow> 2 | Connected url \<Rightarrow> 1 | Stopped \<Rightarrow> 0)"

definition progress_step :: "fwd_action \<Rightarrow> bool" where
  "progress_step a \<longleftrightarrow> (case a of Task ev \<Rightarrow> ev \<noteq> Connect_Result False | _ \<Rightarrow> False)"

definition is_publish :: "fwd_action \<Rightarrow> bool" where
  "is_publish a \<longleftrightarrow> (case a of Publish p \<Rightarrow> True | _ \<Rightarrow> False)"

lemma fwd_step_potential:
  assumes "fwd_step ev w = Some w'"
  shows "fwd_potential w' + (if ev \<noteq> Connect_Result False then 1 else 0) \<le> fwd_potential w"
  using assms
  by (auto simp: fwd_step.simps fwd_potential_def Let_def ch_recv_def watch_changed_def
      split: fwd_phase.splits fwd_event.splits if_splits bool.splits option.splits list.splits)

lemma fwd_exec_potential:
  assumes "fwd_exec a w = Some w'"
  shows "fwd_potential w' + (if progress_step a then 1 else 0) \<le>
    fwd_potential w + 2 * length (committed [a]) + (if is_publish a then 1 else 0)"
proof (cases a)
  case (Task ev)
  with assms fwd_step_potential [of ev w w'] show ?thesis by (simp add: progress_step_def)
next
  case (Commit ms)
  with assms show ?thesis
    by (auto simp: fwd_potential_def progress_step_def split: if_splits fwd_phase.splits)
next
  case (Publish p)
  with assms show ?thesis
    by (auto simp: fwd_potential_def progress_step_def is_publish_def watch_changed_def split: fwd_phase.splits)
qed

lemma fwd_run_potential:
  "fwd_run w as w' \<Longrightarrow>
   fwd_potential w' + length (filter progress_step as) \<le>
     fwd_potential w + 2 * length (committed as) + length (filter is_publish as)"
proof (induction rule: fwd_run.induct)
  case (run_step a w w1 as w2)
  from fwd_exec_potential [OF run_step.hyps(1)] run_step.IH show ?case by (auto split: if_splits)
qed simp

text \<open>
  C39. The forwarder does a bounded amount of work. In every run the number of its steps, failed
  connection attempts aside, is at most four more than the number of published paths and twice
  the number of messages, those waiting at first and those committed during the run. So without
  new input the only thing it can do for ever is to retry a connection that fails.
\<close>

theorem forwarder_work_is_bounded:
  assumes "fwd_run w as w'"
  shows "length (filter progress_step as) \<le>
    2 * (length (ch_queue (fw_rx w)) + length (committed as)) + length (filter is_publish as) + 4"
proof -
  have "fwd_potential w \<le> 2 * length (ch_queue (fw_rx w)) + 4"
    by (simp add: fwd_potential_def split: fwd_phase.splits)
  with fwd_run_potential [OF assms] show ?thesis by simp
qed

theorem forwarder_work_is_bounded_witness:
  "\<exists>w'. fwd_run demo_fwd demo_fwd_actions w' \<and>
     length (filter progress_step demo_fwd_actions) = 4 \<and> length demo_fwd_actions = 7 \<and>
     length (filter progress_step demo_fwd_actions) \<le> 2 * (0 + 2) + 1 + 4"
proof -
  obtain w' where run: "fwd_run demo_fwd demo_fwd_actions w'"
    using demo_fwd_execs fwd_run_execs by blast
  from forwarder_work_is_bounded [OF run] have
    "length (filter progress_step demo_fwd_actions) \<le> 2 * (0 + 2) + 1 + 4"
    by (simp add: demo_fwd_def channel_new_def demo_fwd_actions_def is_publish_def)
  moreover have "length (filter progress_step demo_fwd_actions) = 4" "length demo_fwd_actions = 7"
    by (simp_all add: demo_fwd_actions_def progress_step_def)
  ultimately show ?thesis using run by blast
qed

section \<open>The path the forwarder uses\<close>

definition fwd_url :: "fwd_world \<Rightarrow> string option" where
  "fwd_url w = (case fw_phase (fw_task w) of Connecting url \<Rightarrow> Some url | Connected url \<Rightarrow> Some url | _ \<Rightarrow> None)"

lemma fwd_exec_url:
  assumes "fwd_exec a w = Some w1" "fwd_url w = Some url"
  shows "fwd_url w1 = Some url \<or> fw_phase (fw_task w1) = Stopped"
  using assms
  by (cases a)
    (auto simp: fwd_step.simps fwd_url_def Let_def
      split: fwd_phase.splits fwd_event.splits if_splits bool.splits option.splits)

lemma fwd_run_stopped:
  assumes "fwd_run w as w'" "fw_phase (fw_task w) = Stopped"
  shows "fw_phase (fw_task w') = Stopped \<and> fw_delivered w' = fw_delivered w"
  using assms
proof (induction rule: fwd_run.induct)
  case (run_step a w w1 as w2)
  have "fw_phase (fw_task w1) = Stopped \<and> fw_delivered w1 = fw_delivered w"
    using run_step.hyps(1) run_step.prems by (cases a) (auto simp: fwd_step.simps)
  with run_step.IH show ?case by simp
qed simp

text \<open>
  C36. A forwarder sends everything to one database path. Once it has taken a path, the URL it
  connects to never changes, whatever paths clients publish later: the writes of every module of
  the shard go to the database of the client that connected first.
\<close>

theorem forwarder_keeps_first_path:
  assumes "fwd_run w as w'" "fwd_url w = Some url"
  shows "fwd_url w' = Some url \<or> fw_phase (fw_task w') = Stopped"
  using assms
proof (induction rule: fwd_run.induct)
  case (run_step a w w1 as w2)
  from fwd_exec_url [OF run_step.hyps(1) run_step.prems] show ?case
    using run_step.IH fwd_run_stopped [OF run_step.hyps(2)] by blast
qed simp

theorem forwarder_keeps_first_path_witness:
  "\<exists>w w'. fwd_url w = Some ''ws://db/database/subscribe/m'' \<and>
     fwd_run w [Publish ''/database/subscribe/other'', Task (Received True)] w' \<and>
     (fwd_url w' = Some ''ws://db/database/subscribe/m'' \<or> fw_phase (fw_task w') = Stopped)"
proof -
  let ?w = "demo_fwd\<lparr>fw_task := (fw_task demo_fwd)\<lparr>fw_phase := Connected ''ws://db/database/subscribe/m''\<rparr>,
    fw_rx := \<lparr>ch_queue = [(2, [3, 20])], ch_rx_alive = True\<rparr>\<rparr>"
  let ?as = "[Publish ''/database/subscribe/other'', Task (Received True)]"
  have u: "fwd_url ?w = Some ''ws://db/database/subscribe/m''" by (simp add: fwd_url_def)
  have "\<exists>w'. fwd_execs ?as ?w = Some w'"
    by (simp add: fwd_step.simps ch_recv_def Let_def watch_send_def)
  then obtain w' where run: "fwd_run ?w ?as w'" using fwd_run_execs by blast
  from forwarder_keeps_first_path [OF run u] u run show ?thesis by blast
qed

lemma fwd_exec_waiting:
  assumes "fwd_exec a w = Some w1" "fw_phase (fw_task w) = Waiting"
    "\<not> watch_changed (fw_seen (fw_task w)) (fw_paths w)" "\<not> is_publish a"
  shows "fw_delivered w1 = fw_delivered w \<and>
    (fw_phase (fw_task w1) = Stopped \<or>
     fw_phase (fw_task w1) = Waiting \<and> \<not> watch_changed (fw_seen (fw_task w1)) (fw_paths w1) \<and>
       ch_queue (fw_rx w1) = ch_queue (fw_rx w) @ committed [a])"
  using assms
  by (cases a) (auto simp: fwd_step.simps is_publish_def split: fwd_event.splits if_splits)

text \<open>
  A forwarder waits for a client. As long as no client connection of the shard publishes a
  path on this node, the forwarder delivers nothing: the committed writes of other nodes pile up
  in its channel, or are dropped with it when it stops.
\<close>

lemma forwarder_waits_for_a_client:
  assumes "fwd_run w as w'" "fw_phase (fw_task w) = Waiting"
    and "\<not> watch_changed (fw_seen (fw_task w)) (fw_paths w)" "list_all (\<lambda>a. \<not> is_publish a) as"
  shows "fw_delivered w' = fw_delivered w \<and>
    (fw_phase (fw_task w') = Stopped \<or> ch_queue (fw_rx w') = ch_queue (fw_rx w) @ committed as)"
  using assms
proof (induction rule: fwd_run.induct)
  case (run_step a w w1 as w2)
  have np: "\<not> is_publish a" "list_all (\<lambda>a. \<not> is_publish a) as" using run_step.prems(3) by simp_all
  note step = fwd_exec_waiting [OF run_step.hyps(1) run_step.prems(1,2) np(1)]
  show ?case
  proof (cases "fw_phase (fw_task w1) = Stopped")
    case True
    with fwd_run_stopped [OF run_step.hyps(2)] step show ?thesis by simp
  next
    case False
    with step have "fw_phase (fw_task w1) = Waiting" "\<not> watch_changed (fw_seen (fw_task w1)) (fw_paths w1)"
      "ch_queue (fw_rx w1) = ch_queue (fw_rx w) @ committed [a]" "fw_delivered w1 = fw_delivered w" by simp_all
    with run_step.IH np(2) show ?thesis by simp
  qed
qed simp

lemma forwarder_waits_for_a_client_instance:
  "\<exists>w'. fwd_run demo_fwd [Commit [(2, [3, 20])]] w' \<and> fw_delivered w' = []"
proof -
  have "\<exists>w'. fwd_execs [Commit [(2, [3, 20])]] demo_fwd = Some w'"
    by (simp add: demo_fwd_def spawn_forwarder_def)
  then obtain w' where run: "fwd_run demo_fwd [Commit [(2, [3, 20])]] w'" using fwd_run_execs by blast
  have "fw_phase (fw_task demo_fwd) = Waiting" "\<not> watch_changed (fw_seen (fw_task demo_fwd)) (fw_paths demo_fwd)"
    by (simp_all add: demo_fwd_def spawn_forwarder_def watch_changed_def watch_subscribe_def watch_new_def)
  from forwarder_waits_for_a_client [OF run this] run show ?thesis
    by (auto simp: is_publish_def demo_fwd_def)
qed

end
