(* ===== verification/Network.thy ===== *)
theory Network
  imports Raft_Types
begin

text \<open>
  The transport of Raft messages between nodes, \<open>raft/network.rs\<close>. The HTTP client is a
  parameter: how a client is built, and what a request to a URL returns.
\<close>

record ('cl, 'cert) http_client_lib =
  from_pem :: "bytes \<Rightarrow> string + 'cert"
  build_client :: "'cert list \<Rightarrow> string + 'cl"
  client_new :: 'cl

record 'cl network_factory =
  nf_client :: 'cl
  nf_use_tls :: bool
  nf_shard_id :: u64

definition network_factory_new ::
    "('cl, 'cert) http_client_lib \<Rightarrow> bool \<Rightarrow> bytes option \<Rightarrow> u64 \<Rightarrow> 'cl network_factory" where
  "network_factory_new lib use_tls ca_cert_pem sid =
     (let certs = (case ca_cert_pem of
                     None \<Rightarrow> []
                   | Some ca_pem \<Rightarrow> (case from_pem lib ca_pem of Inl e \<Rightarrow> [] | Inr cert \<Rightarrow> [cert]))
      in \<lparr>nf_client = (case build_client lib certs of Inl e \<Rightarrow> client_new lib | Inr c \<Rightarrow> c),
          nf_use_tls = use_tls, nf_shard_id = sid\<rparr>)"

definition network_factory_default :: "('cl, 'cert) http_client_lib \<Rightarrow> 'cl network_factory" where
  "network_factory_default lib = network_factory_new lib False None 0"

record 'cl network_connection =
  nc_target :: u64
  nc_addr :: string
  nc_client :: 'cl
  nc_use_tls :: bool
  nc_shard_id :: u64

definition raft_url :: "'cl network_connection \<Rightarrow> string \<Rightarrow> string" where
  "raft_url c rpc =
     (if nc_use_tls c then ''https'' else ''http'') @ ''://'' @ nc_addr c @ ''/raft/'' @
     to_string (nc_shard_id c) @ ''/'' @ rpc"

definition new_client :: "u64 \<Rightarrow> basic_node \<Rightarrow> 'cl network_factory \<Rightarrow> 'cl network_connection" where
  "new_client target n nf =
     \<lparr>nc_target = target, nc_addr = addr n, nc_client = nf_client nf, nc_use_tls = nf_use_tls nf,
      nc_shard_id = nf_shard_id nf\<rparr>"

text \<open>
  A call posts the request as JSON and reads the reply as JSON; either step can fail, which
  counts as the target being unreachable. The reply itself is the target's result.
\<close>

datatype 'e rpc_error = Unreachable string | RemoteError u64 'e

record ('cl, 'q, 'h, 'e, 'p) http_rpc =
  post_json :: "'cl \<Rightarrow> string \<Rightarrow> 'q \<Rightarrow> string + 'h"
  read_json :: "'h \<Rightarrow> string + ('e + 'p)"

definition send_rpc ::
    "('cl, 'q, 'h, 'e, 'p) http_rpc \<Rightarrow> string \<Rightarrow> 'q \<Rightarrow> 'cl network_connection \<Rightarrow> 'e rpc_error + 'p" where
  "send_rpc http name rpc c =
     and_then (map_err Unreachable (post_json http (nc_client c) (raft_url c name) rpc)) (\<lambda>resp.
     and_then (map_err Unreachable (read_json http resp)) (\<lambda>result.
     map_err (RemoteError (nc_target c)) result))"

definition rpc_append_entries ::
    "('cl, 'q, 'h, 'e, 'p) http_rpc \<Rightarrow> 'q \<Rightarrow> 'cl network_connection \<Rightarrow> 'e rpc_error + 'p" where
  "rpc_append_entries http rpc c = send_rpc http ''append'' rpc c"

definition rpc_vote ::
    "('cl, 'q, 'h, 'e, 'p) http_rpc \<Rightarrow> 'q \<Rightarrow> 'cl network_connection \<Rightarrow> 'e rpc_error + 'p" where
  "rpc_vote http rpc c = send_rpc http ''vote'' rpc c"

definition rpc_install_snapshot ::
    "('cl, 'q, 'h, 'e, 'p) http_rpc \<Rightarrow> 'q \<Rightarrow> 'cl network_connection \<Rightarrow> 'e rpc_error + 'p" where
  "rpc_install_snapshot http rpc c = send_rpc http ''snapshot'' rpc c"

section \<open>Outcomes of a call\<close>

text \<open>
  The error of a remote call says where it failed: a call reports a remote error exactly
  when the target answered with an error, names the target then, and reports the target
  unreachable exactly when the request or the decoding of the reply failed.
\<close>

lemma send_rpc_outcomes:
  "send_rpc http name rpc c =
     (case post_json http (nc_client c) (raft_url c name) rpc of
        Inl e \<Rightarrow> Inl (Unreachable e)
      | Inr h \<Rightarrow> (case read_json http h of
                    Inl e \<Rightarrow> Inl (Unreachable e)
                  | Inr (Inl e) \<Rightarrow> Inl (RemoteError (nc_target c) e)
                  | Inr (Inr p) \<Rightarrow> Inr p))"
  by (simp add: send_rpc_def split: sum.splits)

end
