(* ===== verification/Config.thy ===== *)
theory Config
  imports Prelude
begin

text \<open>
  The configuration of a node, \<open>config.rs\<close>, and the part of \<open>main.rs\<close> that builds it from the
  command line.
\<close>

record node_config =
  node_id :: u64
  listen_addr :: string
  raft_addr :: string
  stdb_url :: string
  peers :: "string list"
  data_dir :: string
  tls_cert :: "string option"
  tls_key :: "string option"
  tls_ca_cert :: "string option"

definition tls_enabled :: "node_config \<Rightarrow> bool" where
  "tls_enabled c \<longleftrightarrow> tls_cert c \<noteq> None \<and> tls_key c \<noteq> None"

definition http_scheme :: "node_config \<Rightarrow> string" where
  "http_scheme c = (if tls_enabled c then ''https'' else ''http'')"

text \<open>
  The parsed command line has the fields of the configuration, defaults filled in by the
  argument parser. \<open>main\<close> refuses a certificate without a key and a key without a certificate
  before it copies the fields over.
\<close>

record cli =
  cli_node_id :: u64
  cli_listen_addr :: string
  cli_raft_addr :: string
  cli_stdb_url :: string
  cli_peers :: "string list"
  cli_data_dir :: string
  cli_tls_cert :: "string option"
  cli_tls_key :: "string option"
  cli_tls_ca_cert :: "string option"

definition main_config :: "cli \<Rightarrow> string + node_config" where
  "main_config c =
     (if (cli_tls_cert c \<noteq> None) \<noteq> (cli_tls_key c \<noteq> None)
      then Inl ''Both --tls-cert and --tls-key must be provided together''
      else Inr \<lparr>node_id = cli_node_id c, listen_addr = cli_listen_addr c, raft_addr = cli_raft_addr c,
                stdb_url = cli_stdb_url c, peers = cli_peers c, data_dir = cli_data_dir c,
                tls_cert = cli_tls_cert c, tls_key = cli_tls_key c, tls_ca_cert = cli_tls_ca_cert c\<rparr>)"

text \<open>
  Past the check, TLS is enabled exactly when a certificate was given: no node serves plain text
  with a certificate configured.
\<close>

lemma main_config_tls:
  "main_config c = Inr cfg \<Longrightarrow> tls_enabled cfg \<longleftrightarrow> cli_tls_cert c \<noteq> None"
  by (auto simp: main_config_def tls_enabled_def split: if_splits)

lemma main_config_error_iff:
  "(\<exists>e. main_config c = Inl e) \<longleftrightarrow> (cli_tls_cert c = None) \<noteq> (cli_tls_key c = None)"
  by (auto simp: main_config_def)

lemma http_scheme_cases: "http_scheme c \<in> {''http'', ''https''}"
  by (simp add: http_scheme_def)

end
