(* ===== verification/Log_Storage.thy ===== *)
theory Log_Storage
  imports Raft_Types
begin

text \<open>
  What a Raft log store promises. The abstract log is a partial map from indexes to entries with
  the purge mark and the saved vote; the locale \<open>log_storage\<close> states, for each operation of
  the storage interface the sources implement, what a successful call does to the abstract log,
  that a failed call leaves it alone, and what the readers return. Both stores of the repository
  (\<open>raft/log_store.rs\<close> and \<open>raft/persistent_log_store.rs\<close>) are instances, and the lemmas about
  runs of operations are proved once, here.
\<close>

section \<open>The abstract log\<close>

record abs_log =
  al_entries :: "u64 \<rightharpoonup> entry"
  al_purged :: "log_id option"
  al_vote :: "vote option"

definition al_empty :: abs_log where
  "al_empty = \<lparr>al_entries = Map.empty, al_purged = None, al_vote = None\<rparr>"

definition put_entry :: "entry \<Rightarrow> (u64 \<rightharpoonup> entry) \<Rightarrow> (u64 \<rightharpoonup> entry)" where
  "put_entry e m = m(e_index e \<mapsto> e)"

definition al_append :: "entry list \<Rightarrow> abs_log \<Rightarrow> abs_log" where
  "al_append es l = l\<lparr>al_entries := fold put_entry es (al_entries l)\<rparr>"

definition al_truncate :: "log_id \<Rightarrow> abs_log \<Rightarrow> abs_log" where
  "al_truncate i l = l\<lparr>al_entries := al_entries l |` {k. k < lg_index i}\<rparr>"

definition al_purge :: "log_id \<Rightarrow> abs_log \<Rightarrow> abs_log" where
  "al_purge i l = l\<lparr>al_entries := al_entries l |` {k. lg_index i < k}, al_purged := Some i\<rparr>"

definition al_save_vote :: "vote \<Rightarrow> abs_log \<Rightarrow> abs_log" where
  "al_save_vote v l = l\<lparr>al_vote := Some v\<rparr>"

text \<open>Every entry is stored under its own index.\<close>

definition al_keyed :: "abs_log \<Rightarrow> bool" where
  "al_keyed l \<longleftrightarrow> (\<forall>k e. al_entries l k = Some e \<longrightarrow> e_index e = k)"

text \<open>The list a range read must return: the entries in the range, in index order.\<close>

definition al_range :: "abs_log \<Rightarrow> u64 bound \<Rightarrow> u64 bound \<Rightarrow> entry list \<Rightarrow> bool" where
  "al_range l lo hi es \<longleftrightarrow>
     sorted_wrt (<) (map e_index es) \<and>
     set es = {e. al_entries l (e_index e) = Some e \<and>
                  after_start lo (e_index e) \<and> before_end hi (e_index e)}"

definition al_last :: "abs_log \<Rightarrow> log_id option \<Rightarrow> bool" where
  "al_last l r \<longleftrightarrow>
     (case r of
        None \<Rightarrow> al_entries l = Map.empty
      | Some i \<Rightarrow> \<exists>e. al_entries l (lg_index i) = Some e \<and> e_log_id e = i \<and>
                     (\<forall>k \<in> dom (al_entries l). k \<le> lg_index i))"

text \<open>No holes: between two present indexes every index is present.\<close>

definition hole_free :: "u64 set \<Rightarrow> bool" where
  "hole_free D \<longleftrightarrow> (\<forall>i j k. i \<in> D \<and> k \<in> D \<and> i \<le> j \<and> j \<le> k \<longrightarrow> j \<in> D)"

definition al_no_holes :: "abs_log \<Rightarrow> bool" where
  "al_no_holes l \<longleftrightarrow> hole_free (dom (al_entries l))"

lemmas al_defs = al_append_def al_truncate_def al_purge_def al_save_vote_def

section \<open>Operations as data\<close>

datatype flushed = Flushed

datatype log_op = Append "entry list" | Truncate log_id | Purge log_id | Save_Vote vote

fun al_exec :: "log_op \<Rightarrow> abs_log \<Rightarrow> abs_log" where
  "al_exec (Append es) l = al_append es l"
| "al_exec (Truncate i) l = al_truncate i l"
| "al_exec (Purge i) l = al_purge i l"
| "al_exec (Save_Vote v) l = al_save_vote v l"

text \<open>Two range reads that meet the same abstract log return the same list.\<close>

lemma al_range_unique:
  assumes "al_range l lo hi es" "al_range l lo hi es'"
  shows "es = es'"
proof -
  have set_eq: "set es = set es'" using assms unfolding al_range_def by blast
  have "al_entries l (e_index e) = Some e" if "e \<in> set es" for e
    using assms(1) that unfolding al_range_def by blast
  then have inj: "inj_on e_index (set es)"
    by (intro inj_onI) (metis option.inject)
  have "sorted_wrt (<) (map e_index es)" "sorted_wrt (<) (map e_index es')"
    using assms unfolding al_range_def by blast+
  then have "sorted (map e_index es)" "distinct (map e_index es)"
    "sorted (map e_index es')" "distinct (map e_index es')"
    by (simp_all add: strict_sorted_iff)
  then show ?thesis
    using map_sorted_distinct_set_unique [of e_index es es'] set_eq inj by simp
qed

lemma al_last_unique:
  assumes "al_last l r" "al_last l r'"
  shows "r = r'"
  using assms unfolding al_last_def
  by (auto split: option.splits) (metis domI order_antisym option.inject)

lemma fold_upd_keyed:
  assumes "\<And>k e. m k = Some e \<Longrightarrow> e_index e = k"
    and "fold put_entry es m k = Some e"
  shows "e_index e = k"
  using assms
proof (induction es arbitrary: m)
  case (Cons a es)
  show ?case
  proof (rule Cons.IH)
    show "fold put_entry es (put_entry a m) k = Some e"
      using Cons.prems(2) by simp
    show "put_entry a m j = Some d \<Longrightarrow> e_index d = j" for j d
      using Cons.prems(1) by (simp add: put_entry_def split: if_splits)
  qed
qed simp

lemma al_keyed_exec [simp, intro]:
  assumes "al_keyed l"
  shows "al_keyed (al_exec op l)"
proof (cases op)
  case (Append es)
  have "\<And>k e. al_entries l k = Some e \<Longrightarrow> e_index e = k" using assms by (simp add: al_keyed_def)
  from fold_upd_keyed [OF this] show ?thesis
    by (simp add: Append al_keyed_def al_append_def)
qed (use assms in \<open>auto simp: al_keyed_def al_defs restrict_map_def split: if_splits\<close>)

lemma al_keyed_empty [simp, intro]: "al_keyed al_empty"
  by (simp add: al_keyed_def al_empty_def)

lemma dom_fold_upd: "dom (fold put_entry es m) = dom m \<union> e_index ` set es"
  by (induction es arbitrary: m) (auto simp: put_entry_def)

lemma fold_upd_notin:
  "k \<notin> e_index ` set es \<Longrightarrow> fold put_entry es m k = m k"
  by (induction es arbitrary: m) (auto simp: put_entry_def)

lemma fold_upd_in:
  "distinct (map e_index es) \<Longrightarrow> e \<in> set es \<Longrightarrow>
   fold put_entry es m (e_index e) = Some e"
  by (induction es arbitrary: m) (auto simp: fold_upd_notin put_entry_def)

section \<open>Holes\<close>

text \<open>
  A batch continues the log when its indexes are consecutive and the first one follows the last
  present index, or the log has no entry at all.
\<close>

definition al_continues :: "abs_log \<Rightarrow> entry list \<Rightarrow> bool" where
  "al_continues l es \<longleftrightarrow>
     (\<exists>n. map (unat \<circ> e_index) es = [n ..< n + length es] \<and>
          (al_entries l = Map.empty \<or>
           (\<exists>k \<in> dom (al_entries l). n = Suc (unat k) \<and> (\<forall>j \<in> dom (al_entries l). j \<le> k))))"

fun al_op_ok :: "log_op \<Rightarrow> abs_log \<Rightarrow> bool" where
  "al_op_ok (Append es) l = al_continues l es"
| "al_op_ok _ l = True"

lemma continues_indexes:
  assumes "map (unat \<circ> e_index) es = [n ..< n + length es]"
  shows "j \<in> e_index ` set es \<longleftrightarrow> n \<le> unat j \<and> unat j < n + length es"
proof -
  have "unat ` e_index ` set es = {n ..< n + length es}"
    using arg_cong [OF assms, of set] by (simp add: image_comp o_def)
  then have "unat j \<in> unat ` e_index ` set es \<longleftrightarrow> n \<le> unat j \<and> unat j < n + length es" by simp
  moreover have "unat j \<in> unat ` e_index ` set es \<longleftrightarrow> j \<in> e_index ` set es"
    by (rule inj_image_mem_iff) (simp add: inj_def word_unat_eq_iff)
  ultimately show ?thesis by simp
qed

lemma hole_freeD: "hole_free D \<Longrightarrow> i \<in> D \<Longrightarrow> k \<in> D \<Longrightarrow> i \<le> j \<Longrightarrow> j \<le> k \<Longrightarrow> j \<in> D"
  unfolding hole_free_def by blast

lemma hole_free_prefix: "hole_free D \<Longrightarrow> hole_free {k \<in> D. k < c}"
  unfolding hole_free_def [of "{k \<in> D. k < c}"]
  by (auto intro: hole_freeD order_le_less_trans)

lemma hole_free_suffix: "hole_free D \<Longrightarrow> hole_free {k \<in> D. c < k}"
  unfolding hole_free_def [of "{k \<in> D. c < k}"]
  by (auto intro: hole_freeD order_less_le_trans)

lemma al_no_holes_append:
  assumes holes: "al_no_holes l" and cont: "al_continues l es"
  shows "al_no_holes (al_append es l)"
proof -
  let ?D = "dom (al_entries l)" and ?E = "e_index ` set es"
  obtain n where n: "map (unat \<circ> e_index) es = [n ..< n + length es]"
    and start: "al_entries l = Map.empty \<or>
      (\<exists>k \<in> ?D. n = Suc (unat k) \<and> (\<forall>j \<in> ?D. j \<le> k))"
    using cont by (auto simp: al_continues_def)
  note E = continues_indexes [OF n]
  have "j \<in> ?D \<union> ?E" if i: "i \<in> ?D \<union> ?E" and k: "k \<in> ?D \<union> ?E" and ij: "i \<le> j" and jk: "j \<le> k" for i j k
  proof -
    have nij: "unat i \<le> unat j" "unat j \<le> unat k" using ij jk by (simp_all add: word_le_nat_alt)
    consider (empty) "?D = {}" | (last) m where "m \<in> ?D" "n = Suc (unat m)" "\<forall>j \<in> ?D. j \<le> m"
      using start by auto
    then show ?thesis
    proof cases
      case empty
      then show ?thesis using i k nij by (auto simp: E)
    next
      case (last m)
      show ?thesis
      proof (cases "j \<le> m")
        case True
        have "i \<in> ?D"
        proof (rule ccontr)
          assume "i \<notin> ?D"
          with i have "n \<le> unat i" by (simp add: E)
          with last(2) nij True show False by (simp add: word_le_nat_alt)
        qed
        then show ?thesis
          using holes last(1) True ij unfolding al_no_holes_def hole_free_def by blast
      next
        case False
        then have "n \<le> unat j" using last(2) by (simp add: word_le_nat_alt)
        moreover have "k \<notin> ?D"
          using False jk last(3) by (meson order_trans)
        then have "unat k < n + length es" using k by (simp add: E)
        ultimately show ?thesis using nij by (simp add: E)
      qed
    qed
  qed
  then show ?thesis
    unfolding al_no_holes_def hole_free_def by (simp add: al_append_def dom_fold_upd del: Un_iff) blast
qed

lemma al_no_holes_exec:
  assumes holes: "al_no_holes l" and ok: "al_op_ok op l"
  shows "al_no_holes (al_exec op l)"
proof (cases op)
  case (Append es)
  with ok holes show ?thesis by (simp add: al_no_holes_append)
next
  case (Truncate i)
  have "dom (al_entries (al_exec op l)) = {k \<in> dom (al_entries l). k < lg_index i}"
    by (auto simp: Truncate al_truncate_def)
  then show ?thesis using holes by (simp add: al_no_holes_def hole_free_prefix)
next
  case (Purge i)
  have "dom (al_entries (al_exec op l)) = {k \<in> dom (al_entries l). lg_index i < k}"
    by (auto simp: Purge al_purge_def)
  then show ?thesis using holes by (simp add: al_no_holes_def hole_free_suffix)
next
  case (Save_Vote v)
  with holes show ?thesis by (simp add: al_no_holes_def al_save_vote_def)
qed

section \<open>The storage interface\<close>

text \<open>Running a sequence of operations; an error ends the run.\<close>

fun run_ops :: "(log_op \<Rightarrow> 's \<Rightarrow> (fault + unit) \<times> 's) \<Rightarrow> log_op list \<Rightarrow> 's \<Rightarrow> fault + 's" where
  "run_ops ex [] s = Inr s"
| "run_ops ex (op # ops) s =
     (case ex op s of (Inl e, _) \<Rightarrow> Inl e | (Inr _, s') \<Rightarrow> run_ops ex ops s')"

text \<open>Every append of a run continues the log it is applied to.\<close>

fun ops_ok :: "log_op list \<Rightarrow> abs_log \<Rightarrow> bool" where
  "ops_ok [] l = True"
| "ops_ok (op # ops) l = (al_op_ok op l \<and> ops_ok ops (al_exec op l))"

definition saved_vote :: "log_op list \<Rightarrow> vote option \<Rightarrow> vote option" where
  "saved_vote ops v0 =
     fold (\<lambda>op v. case op of Save_Vote w \<Rightarrow> Some w | _ \<Rightarrow> v) ops v0"

lemma saved_vote_Cons:
  "saved_vote (op # ops) v0 = saved_vote ops (case op of Save_Vote w \<Rightarrow> Some w | _ \<Rightarrow> v0)"
  by (simp add: saved_vote_def)

lemma al_vote_fold: "al_vote (fold al_exec ops l) = saved_vote ops (al_vote l)"
proof (induction ops arbitrary: l)
  case Nil
  show ?case by (simp add: saved_vote_def)
next
  case (Cons op ops)
  have "al_vote (al_exec op l) = (case op of Save_Vote w \<Rightarrow> Some w | _ \<Rightarrow> al_vote l)"
    by (cases op) (simp_all add: al_defs)
  then show ?case using Cons.IH [of "al_exec op l"] by (simp add: saved_vote_Cons)
qed

lemma al_no_holes_fold: "al_no_holes l \<Longrightarrow> ops_ok ops l \<Longrightarrow> al_no_holes (fold al_exec ops l)"
  by (induction ops arbitrary: l) (auto intro: al_no_holes_exec)

locale log_storage =
  fixes exec :: "log_op \<Rightarrow> 's \<Rightarrow> (fault + unit) \<times> 's"
    and entries :: "u64 bound \<Rightarrow> u64 bound \<Rightarrow> 's \<Rightarrow> fault + entry list"
    and log_state :: "'s \<Rightarrow> fault + log_state"
    and read_vote :: "'s \<Rightarrow> fault + vote option"
    and view :: "'s \<Rightarrow> abs_log"
    and invar :: "'s \<Rightarrow> bool"
  assumes exec_invar: "invar s \<Longrightarrow> exec op s = (r, s') \<Longrightarrow> invar s'"
    and exec_ok: "invar s \<Longrightarrow> exec op s = (Inr u, s') \<Longrightarrow> view s' = al_exec op (view s)"
    and exec_err: "invar s \<Longrightarrow> exec op s = (Inl f, s') \<Longrightarrow> view s' = view s"
    and entries_ok: "invar s \<Longrightarrow> entries lo hi s = Inr es \<Longrightarrow> al_range (view s) lo hi es"
    and state_ok: "invar s \<Longrightarrow> log_state s = Inr st \<Longrightarrow>
      last_purged_log_id st = al_purged (view s) \<and> al_last (view s) (last_log_id st)"
    and vote_ok: "invar s \<Longrightarrow> read_vote s = Inr v \<Longrightarrow> v = al_vote (view s)"
begin

lemma run_view:
  "invar s \<Longrightarrow> run_ops exec ops s = Inr s' \<Longrightarrow> invar s' \<and> view s' = fold al_exec ops (view s)"
proof (induction ops arbitrary: s)
  case Nil
  then show ?case by simp
next
  case (Cons op ops)
  obtain u t where ex: "exec op s = (Inr u, t)" and run: "run_ops exec ops t = Inr s'"
    using Cons.prems(2) by (auto split: prod.splits sum.splits)
  from exec_invar [OF Cons.prems(1) ex] exec_ok [OF Cons.prems(1) ex] Cons.IH [OF _ run]
  show ?case by simp
qed

lemma run_vote:
  assumes "invar s" "run_ops exec ops s = Inr s'" "read_vote s' = Inr v"
  shows "v = saved_vote ops (al_vote (view s))"
  using run_view [OF assms(1,2)] vote_ok [OF _ assms(3)] by (simp add: al_vote_fold)

lemma run_no_holes:
  assumes "invar s" "run_ops exec ops s = Inr s'" "al_no_holes (view s)" "ops_ok ops (view s)"
  shows "al_no_holes (view s')"
  using run_view [OF assms(1,2)] assms(3,4) by (simp add: al_no_holes_fold)

end

text \<open>
  Two stores behind the same interface: runs of the same operations from the same abstract log
  cannot be told apart by the readers.
\<close>

locale log_storage_pair =
  a: log_storage exec1 entries1 log_state1 read_vote1 view1 invar1 +
  b: log_storage exec2 entries2 log_state2 read_vote2 view2 invar2
  for exec1 :: "log_op \<Rightarrow> 's \<Rightarrow> (fault + unit) \<times> 's" and entries1 log_state1 read_vote1 view1 invar1
    and exec2 :: "log_op \<Rightarrow> 't \<Rightarrow> (fault + unit) \<times> 't" and entries2 log_state2 read_vote2 view2 invar2
begin

lemma same_reads:
  assumes inv: "invar1 s" "invar2 t" and same: "view1 s = view2 t"
    and run: "run_ops exec1 ops s = Inr s'" "run_ops exec2 ops t = Inr t'"
  shows "(\<forall>es fs. entries1 lo hi s' = Inr es \<and> entries2 lo hi t' = Inr fs \<longrightarrow> es = fs) \<and>
    (\<forall>u w. log_state1 s' = Inr u \<and> log_state2 t' = Inr w \<longrightarrow> u = w) \<and>
    (\<forall>u w. read_vote1 s' = Inr u \<and> read_vote2 t' = Inr w \<longrightarrow> u = w)"
proof -
  from a.run_view [OF inv(1) run(1)] b.run_view [OF inv(2) run(2)] same
  have inv': "invar1 s'" "invar2 t'" and v: "view1 s' = view2 t'" by auto
  have "u = w" if "log_state1 s' = Inr u" "log_state2 t' = Inr w" for u w
  proof -
    from a.state_ok [OF inv'(1) that(1)] b.state_ok [OF inv'(2) that(2)] v
    have "last_purged_log_id u = last_purged_log_id w"
      and "al_last (view1 s') (last_log_id u)" "al_last (view1 s') (last_log_id w)" by auto
    then show ?thesis using al_last_unique by (metis log_state.equality unit_eq)
  qed
  moreover have "es = fs" if "entries1 lo hi s' = Inr es" "entries2 lo hi t' = Inr fs" for es fs
    using a.entries_ok [OF inv'(1) that(1)] b.entries_ok [OF inv'(2) that(2)] v
    by (auto intro: al_range_unique)
  ultimately show ?thesis
    using a.vote_ok [OF inv'(1)] b.vote_ok [OF inv'(2)] v by auto
qed

end

end
