(* ===== verification/Log_Store.thy ===== *)
theory Log_Store
  imports Log_Storage
begin

text \<open>
  The in-memory log store, \<open>raft/log_store.rs\<close>: a vote, a \<open>BTreeMap\<close> of entries and the purge
  mark behind one mutex. It is the reference the persistent store is compared with.
\<close>

record log_store_inner =
  ls_vote :: "vote option"
  ls_log :: "(u64, entry) btree_map"
  ls_last_purged :: "log_id option"

definition ls_new :: log_store_inner where
  "ls_new = \<lparr>ls_vote = None, ls_log = [], ls_last_purged = None\<rparr>"

definition ls_try_get_log_entries ::
    "u64 bound \<Rightarrow> u64 bound \<Rightarrow> log_store_inner \<Rightarrow> fault + entry list" where
  "ls_try_get_log_entries lo hi s =
     (if range_panics lo hi then Inl (Panic ''range start is greater than range end in BTreeMap'')
      else Inr (map snd (bt_range lo hi (ls_log s))))"

definition ls_get_log_state :: "log_store_inner \<Rightarrow> fault + log_state" where
  "ls_get_log_state s =
     Inr \<lparr>last_purged_log_id = ls_last_purged s,
          last_log_id = map_option (\<lambda>(_, v). e_log_id v) (bt_last (ls_log s))\<rparr>"

definition ls_save_vote :: "vote \<Rightarrow> log_store_inner \<Rightarrow> (fault + unit) \<times> log_store_inner" where
  "ls_save_vote v s = (Inr (), s\<lparr>ls_vote := Some v\<rparr>)"

definition ls_read_vote :: "log_store_inner \<Rightarrow> fault + vote option" where
  "ls_read_vote s = Inr (ls_vote s)"

text \<open>The flush callback is completed with \<open>Ok\<close> before the call returns.\<close>

definition ls_append ::
    "entry list \<Rightarrow> log_store_inner \<Rightarrow> (fault + flushed) \<times> log_store_inner" where
  "ls_append es s =
     (Inr Flushed, s\<lparr>ls_log := fold (\<lambda>e m. bt_insert (e_index e) e m) es (ls_log s)\<rparr>)"

definition ls_truncate :: "log_id \<Rightarrow> log_store_inner \<Rightarrow> (fault + unit) \<times> log_store_inner" where
  "ls_truncate i s =
     (let to_remove = map fst (bt_range (Included (lg_index i)) Unbounded (ls_log s))
      in (Inr (), s\<lparr>ls_log := bt_remove_all to_remove (ls_log s)\<rparr>))"

definition ls_purge :: "log_id \<Rightarrow> log_store_inner \<Rightarrow> (fault + unit) \<times> log_store_inner" where
  "ls_purge i s =
     (let to_remove = map fst (bt_range Unbounded (Included (lg_index i)) (ls_log s))
      in (Inr (), s\<lparr>ls_log := bt_remove_all to_remove (ls_log s), ls_last_purged := Some i\<rparr>))"

fun ls_exec :: "log_op \<Rightarrow> log_store_inner \<Rightarrow> (fault + unit) \<times> log_store_inner" where
  "ls_exec (Append es) s = map_prod (map_sum id (\<lambda>_. ())) id (ls_append es s)"
| "ls_exec (Truncate i) s = ls_truncate i s"
| "ls_exec (Purge i) s = ls_purge i s"
| "ls_exec (Save_Vote v) s = ls_save_vote v s"

section \<open>Invariant and abstraction\<close>

definition ls_inv :: "log_store_inner \<Rightarrow> bool" where
  "ls_inv s \<longleftrightarrow> bt_inv (ls_log s) \<and> (\<forall>(k, e) \<in> set (ls_log s). e_index e = k)"

definition ls_view :: "log_store_inner \<Rightarrow> abs_log" where
  "ls_view s = \<lparr>al_entries = map_of (ls_log s), al_purged = ls_last_purged s, al_vote = ls_vote s\<rparr>"

lemma ls_inv_new [simp, intro]: "ls_inv ls_new"
  by (simp add: ls_inv_def ls_new_def)

lemma ls_view_new: "ls_view ls_new = al_empty"
  by (simp add: ls_view_def ls_new_def al_empty_def)

text \<open>
  The representation lemmas below are about sorted entry lists in general, so that the
  persistent store reuses them for the contents of its table.
\<close>

definition keyed_log :: "(u64, entry) btree_map \<Rightarrow> bool" where
  "keyed_log m \<longleftrightarrow> bt_inv m \<and> (\<forall>(k, e) \<in> set m. e_index e = k)"

lemma ls_inv_keyed: "ls_inv s \<longleftrightarrow> keyed_log (ls_log s)"
  by (simp add: ls_inv_def keyed_log_def)

lemma keyed_log_insert: "keyed_log m \<Longrightarrow> keyed_log (bt_insert (e_index e) e m)"
  by (auto simp: keyed_log_def set_bt_insert)

lemma keyed_log_fold: "keyed_log m \<Longrightarrow> keyed_log (fold (\<lambda>e m. bt_insert (e_index e) e m) es m)"
  by (induction es arbitrary: m) (auto simp: keyed_log_insert)

lemma keyed_log_filter: "keyed_log m \<Longrightarrow> keyed_log (filter P m)"
  by (auto simp: keyed_log_def)

lemma map_of_fold_insert:
  "map_of (fold (\<lambda>e m. bt_insert (e_index e) e m) es m) = fold put_entry es (map_of m)"
  by (induction es arbitrary: m) (simp_all add: put_entry_def)

lemma keyed_log_range:
  assumes "keyed_log m"
  shows "al_range \<lparr>al_entries = map_of m, al_purged = p, al_vote = v\<rparr> lo hi (map snd (bt_range lo hi m))"
proof -
  have idx: "e_index (snd x) = fst x" if "x \<in> set m" for x
    using assms that by (auto simp: keyed_log_def)
  have "map (\<lambda>x. e_index (snd x)) (bt_range lo hi m) = map fst (bt_range lo hi m)"
    by (auto simp: bt_range_def idx)
  moreover have "sorted_wrt (<) (map fst (bt_range lo hi m))"
    using assms bt_inv_filter [of m] by (simp add: keyed_log_def bt_range_def bt_inv_def)
  ultimately have "sorted_wrt (<) (map (\<lambda>x. e_index (snd x)) (bt_range lo hi m))"
    by (simp only:)
  moreover have "snd ` set (bt_range lo hi m) =
      {e. map_of m (e_index e) = Some e \<and> after_start lo (e_index e) \<and> before_end hi (e_index e)}"
    (is "_ = ?R")
  proof (intro equalityI subsetI)
    fix e assume "e \<in> snd ` set (bt_range lo hi m)"
    then obtain k where "(k, e) \<in> set (bt_range lo hi m)" by auto
    then have "map_of m k = Some e" "after_start lo k" "before_end hi k"
      using assms by (simp_all add: in_set_bt_range keyed_log_def)
    moreover from this(1) have "e_index e = k" using idx by (force dest: map_of_SomeD)
    ultimately show "e \<in> ?R" by simp
  next
    fix e assume "e \<in> ?R"
    then have "(e_index e, e) \<in> set (bt_range lo hi m)"
      using assms by (simp add: in_set_bt_range keyed_log_def)
    then show "e \<in> snd ` set (bt_range lo hi m)" by (rule rev_image_eqI) simp
  qed
  ultimately show ?thesis by (simp add: al_range_def o_def)
qed

lemma keyed_log_last:
  assumes "keyed_log m"
  shows "al_last \<lparr>al_entries = map_of m, al_purged = p, al_vote = v\<rparr>
    (map_option (\<lambda>(_, e). e_log_id e) (bt_last m))"
proof (cases "bt_last m")
  case None
  then show ?thesis by (auto simp: al_last_def bt_last_def split: if_splits)
next
  case (Some x)
  obtain k e where x: "x = (k, e)" by (cases x)
  have inv: "bt_inv m" and "(k, e) \<in> set m"
    using assms Some by (auto simp: keyed_log_def x dest: bt_last_in)
  then have "map_of m k = Some e" "e_index e = k"
    using assms by (auto simp: keyed_log_def map_of_eq_Some_iff bt_inv_distinct)
  moreover have "\<forall>j \<in> dom (map_of m). j \<le> k"
    using bt_last_greatest [OF inv] Some by (fastforce simp: x dest: map_of_SomeD)
  ultimately show ?thesis by (auto simp: Some x al_last_def)
qed

lemma map_of_truncate:
  "map_of (bt_remove_all (map fst (bt_range (Included c) Unbounded m)) m) = map_of m |` {k. k < c}"
  using map_of_filter_fst [of "\<lambda>k. \<not> c \<le> k" m]
  by (auto simp: bt_remove_range restrict_map_def fun_eq_iff not_le)

lemma map_of_purge:
  "map_of (bt_remove_all (map fst (bt_range Unbounded (Included c) m)) m) = map_of m |` {k. c < k}"
  using map_of_filter_fst [of "\<lambda>k. \<not> k \<le> c" m]
  by (auto simp: bt_remove_range restrict_map_def fun_eq_iff not_le)

lemmas ls_op_defs = ls_append_def ls_truncate_def ls_purge_def ls_save_vote_def Let_def

interpretation mem: log_storage ls_exec ls_try_get_log_entries ls_get_log_state ls_read_vote ls_view ls_inv
proof unfold_locales
  fix s s' op r
  assume inv: "ls_inv s" and ex: "ls_exec op s = (r, s')"
  from ex inv show "ls_inv s'"
    by (cases op) (auto simp: ls_op_defs ls_inv_keyed keyed_log_fold bt_remove_range keyed_log_filter)
next
  fix s s' op u
  assume "ls_inv s" and ex: "ls_exec op s = (Inr u, s')"
  from ex show "ls_view s' = al_exec op (ls_view s)"
    by (cases op)
      (auto simp: ls_op_defs ls_view_def al_defs map_of_fold_insert map_of_truncate map_of_purge)
next
  fix s s' op f
  assume "ls_inv s" and ex: "ls_exec op s = (Inl f, s')"
  from ex show "ls_view s' = ls_view s" by (cases op) (auto simp: ls_op_defs)
next
  fix s lo hi es
  assume "ls_inv s" and "ls_try_get_log_entries lo hi s = Inr es"
  then show "al_range (ls_view s) lo hi es"
    by (auto simp: ls_try_get_log_entries_def ls_view_def ls_inv_keyed keyed_log_range split: if_splits)
next
  fix s st
  assume "ls_inv s" and "ls_get_log_state s = Inr st"
  then show "last_purged_log_id st = al_purged (ls_view s) \<and> al_last (ls_view s) (last_log_id st)"
    by (auto simp: ls_get_log_state_def ls_view_def ls_inv_keyed keyed_log_last)
next
  fix s v
  assume "ls_inv s" and "ls_read_vote s = Inr v"
  then show "v = al_vote (ls_view s)" by (simp add: ls_read_vote_def ls_view_def)
qed

end
