(* ===== verification/Persistent_Log_Store.thy ===== *)
theory Persistent_Log_Store
  imports Log_Store
begin

text \<open>
  The persistent log store, \<open>raft/persistent_log_store.rs\<close>. The embedded database (redb) and the
  serialiser are not part of the sources: their calls are the fields of two records that every
  definition takes as arguments, and what the store relies on is stated by \<open>redb_laws\<close> and
  \<open>serde_laws\<close>. Every call of the database can fail, and the model follows each failure to the
  place where the code returns.
\<close>

section \<open>The embedded database\<close>

text \<open>
  One field per call the store makes. A write transaction is passed along; an early return
  drops it, which aborts it. \<open>log_range\<close> yields one result per entry, as the iterator does.
\<close>

record ('db, 'tx) redb =
  db_create :: "'db option \<Rightarrow> string + 'db"
  begin_read :: "'db \<Rightarrow> string + 'tx"
  begin_write :: "'db \<Rightarrow> string + 'tx"
  open_log_table :: "'tx \<Rightarrow> string + 'tx"
  open_meta_table :: "'tx \<Rightarrow> string + 'tx"
  log_insert :: "u64 \<Rightarrow> bytes \<Rightarrow> 'tx \<Rightarrow> string + 'tx"
  log_remove :: "u64 \<Rightarrow> 'tx \<Rightarrow> string + 'tx"
  log_range :: "u64 bound \<Rightarrow> u64 bound \<Rightarrow> 'tx \<Rightarrow> string + (string + u64 \<times> bytes) list"
  log_last :: "'tx \<Rightarrow> string + (u64 \<times> bytes) option"
  meta_get :: "string \<Rightarrow> 'tx \<Rightarrow> string + bytes option"
  meta_insert :: "string \<Rightarrow> bytes \<Rightarrow> 'tx \<Rightarrow> string + 'tx"
  commit :: "'tx \<Rightarrow> string + 'db"

record ('db, 'tx) redb_view =
  db_log :: "'db \<Rightarrow> (u64, bytes) btree_map"
  db_meta :: "'db \<Rightarrow> string \<rightharpoonup> bytes"
  tx_log :: "'tx \<Rightarrow> (u64, bytes) btree_map"
  tx_meta :: "'tx \<Rightarrow> string \<rightharpoonup> bytes"

text \<open>
  Documented behaviour of the successful calls: a transaction starts from the committed tables,
  inserts and removes change one key, ranges come in key order (each item the entry or an error
  reading it), a commit makes the transaction's tables the database's, and creating a database
  over an existing file opens it.
\<close>

definition item_ok :: "string + 'a \<Rightarrow> 'a \<Rightarrow> bool" where
  "item_ok item x \<longleftrightarrow> (case item of Inl e \<Rightarrow> True | Inr y \<Rightarrow> y = x)"

definition redb_laws :: "('db, 'tx) redb \<Rightarrow> ('db, 'tx) redb_view \<Rightarrow> bool" where
  "redb_laws api v \<longleftrightarrow>
     (\<forall>d. db_create api None = Inr d \<longrightarrow> db_log v d = [] \<and> db_meta v d = Map.empty) \<and>
     (\<forall>d0 d. db_create api (Some d0) = Inr d \<longrightarrow> db_log v d = db_log v d0 \<and> db_meta v d = db_meta v d0) \<and>
     (\<forall>d t. begin_read api d = Inr t \<longrightarrow> tx_log v t = db_log v d \<and> tx_meta v t = db_meta v d) \<and>
     (\<forall>d t. begin_write api d = Inr t \<longrightarrow> tx_log v t = db_log v d \<and> tx_meta v t = db_meta v d) \<and>
     (\<forall>t t'. open_log_table api t = Inr t' \<longrightarrow> tx_log v t' = tx_log v t \<and> tx_meta v t' = tx_meta v t) \<and>
     (\<forall>t t'. open_meta_table api t = Inr t' \<longrightarrow> tx_log v t' = tx_log v t \<and> tx_meta v t' = tx_meta v t) \<and>
     (\<forall>k b t t'. log_insert api k b t = Inr t' \<longrightarrow>
        tx_log v t' = bt_insert k b (tx_log v t) \<and> tx_meta v t' = tx_meta v t) \<and>
     (\<forall>k t t'. log_remove api k t = Inr t' \<longrightarrow>
        tx_log v t' = bt_remove k (tx_log v t) \<and> tx_meta v t' = tx_meta v t) \<and>
     (\<forall>lo hi t items. log_range api lo hi t = Inr items \<longrightarrow>
        list_all2 item_ok items (bt_range lo hi (tx_log v t))) \<and>
     (\<forall>t r. log_last api t = Inr r \<longrightarrow> r = bt_last (tx_log v t)) \<and>
     (\<forall>k t r. meta_get api k t = Inr r \<longrightarrow> r = tx_meta v t k) \<and>
     (\<forall>k b t t'. meta_insert api k b t = Inr t' \<longrightarrow>
        tx_log v t' = tx_log v t \<and> tx_meta v t' = (tx_meta v t)(k \<mapsto> b)) \<and>
     (\<forall>t d. commit api t = Inr d \<longrightarrow> db_log v d = tx_log v t \<and> db_meta v d = tx_meta v t)"

text \<open>Removals and range items that never fail: the store ignores their errors.\<close>

definition redb_no_lost_removes :: "('db, 'tx) redb \<Rightarrow> bool" where
  "redb_no_lost_removes api \<longleftrightarrow>
     (\<forall>k t e. log_remove api k t \<noteq> Inl e) \<and>
     (\<forall>lo hi t items. log_range api lo hi t = Inr items \<longrightarrow> (\<forall>item \<in> set items. is_ok item))"

record serde =
  entry_to_vec :: "entry to_vec"
  entry_from_slice :: "entry from_slice"
  vote_to_vec :: "vote to_vec"
  vote_from_slice :: "vote from_slice"
  log_id_to_vec :: "log_id to_vec"
  log_id_from_slice :: "log_id from_slice"

definition serde_laws :: "serde \<Rightarrow> bool" where
  "serde_laws c \<longleftrightarrow>
     serde_roundtrip (entry_to_vec c) (entry_from_slice c) \<and>
     serde_roundtrip (vote_to_vec c) (vote_from_slice c) \<and>
     serde_roundtrip (log_id_to_vec c) (log_id_from_slice c)"

section \<open>Operations\<close>

definition META_VOTE :: string where
  "META_VOTE = ''vote''"

definition META_LAST_PURGED :: string where
  "META_LAST_PURGED = ''last_purged''"

abbreviation w_err :: "string + 'a \<Rightarrow> fault + 'a" where
  "w_err r \<equiv> map_err logs_write_error r"

abbreviation r_err :: "string + 'a \<Rightarrow> fault + 'a" where
  "r_err r \<equiv> map_err logs_read_error r"

text \<open>The database after a call: the committed one, or the old one when the call returned early.\<close>

definition settle :: "'db \<Rightarrow> fault + 'a \<times> 'db \<Rightarrow> (fault + 'a) \<times> 'db" where
  "settle db r = (case r of Inl f \<Rightarrow> (Inl f, db) | Inr (x, db') \<Rightarrow> (Inr x, db'))"

definition read_meta ::
    "('db, 'tx) redb \<Rightarrow> 'a from_slice \<Rightarrow> string \<Rightarrow> 'db \<Rightarrow> fault + 'a option" where
  "read_meta api from_slice key db =
     and_then (r_err (begin_read api db)) (\<lambda>read_txn.
     and_then (r_err (open_meta_table api read_txn)) (\<lambda>table.
     (case meta_get api key table of
        Inr (Some bytes) \<Rightarrow> and_then (r_err (from_slice bytes)) (\<lambda>val. Inr (Some val))
      | Inr None \<Rightarrow> Inr None
      | Inl e \<Rightarrow> Inl (logs_read_error e))))"

definition write_meta ::
    "('db, 'tx) redb \<Rightarrow> 'a to_vec \<Rightarrow> string \<Rightarrow> 'a \<Rightarrow> 'db \<Rightarrow> (fault + unit) \<times> 'db" where
  "write_meta api to_vec key val db = settle db (
     and_then (w_err (to_vec val)) (\<lambda>json.
     and_then (w_err (begin_write api db)) (\<lambda>write_txn.
     and_then (w_err (open_meta_table api write_txn)) (\<lambda>table.
     and_then (w_err (meta_insert api key json table)) (\<lambda>table.
     and_then (w_err (commit api table)) (\<lambda>db'. Inr ((), db')))))))"

text \<open>Decoding the items of a range iterator, stopping at the first error.\<close>

fun decode_items :: "entry from_slice \<Rightarrow> (string + u64 \<times> bytes) list \<Rightarrow> fault + entry list" where
  "decode_items from_slice [] = Inr []"
| "decode_items from_slice (item # items) =
     and_then (r_err item) (\<lambda>(_, bytes).
     and_then (r_err (from_slice bytes)) (\<lambda>entry.
     and_then (decode_items from_slice items) (\<lambda>entries. Inr (entry # entries))))"

definition pls_try_get_log_entries ::
    "('db, 'tx) redb \<Rightarrow> serde \<Rightarrow> u64 bound \<Rightarrow> u64 bound \<Rightarrow> 'db \<Rightarrow> fault + entry list" where
  "pls_try_get_log_entries api c lo hi db =
     and_then (r_err (begin_read api db)) (\<lambda>read_txn.
     and_then (r_err (open_log_table api read_txn)) (\<lambda>table.
     and_then (r_err (log_range api lo hi table)) (\<lambda>iter.
     decode_items (entry_from_slice c) iter)))"

definition pls_get_log_state :: "('db, 'tx) redb \<Rightarrow> serde \<Rightarrow> 'db \<Rightarrow> fault + log_state" where
  "pls_get_log_state api c db =
     and_then (read_meta api (log_id_from_slice c) META_LAST_PURGED db) (\<lambda>last_purged.
     and_then (r_err (begin_read api db)) (\<lambda>read_txn.
     and_then (r_err (open_log_table api read_txn)) (\<lambda>table.
     and_then
       (case log_last api table of
          Inr (Some (_, bytes)) \<Rightarrow>
            and_then (r_err (entry_from_slice c bytes)) (\<lambda>entry. Inr (Some (e_log_id entry)))
        | Inr None \<Rightarrow> Inr None
        | Inl e \<Rightarrow> Inl (logs_read_error e)) (\<lambda>last_log.
     Inr \<lparr>last_purged_log_id = last_purged, last_log_id = last_log\<rparr>))))"

definition pls_save_vote ::
    "('db, 'tx) redb \<Rightarrow> serde \<Rightarrow> vote \<Rightarrow> 'db \<Rightarrow> (fault + unit) \<times> 'db" where
  "pls_save_vote api c v db = write_meta api (vote_to_vec c) META_VOTE v db"

definition pls_read_vote :: "('db, 'tx) redb \<Rightarrow> serde \<Rightarrow> 'db \<Rightarrow> fault + vote option" where
  "pls_read_vote api c db = read_meta api (vote_from_slice c) META_VOTE db"

fun append_loop :: "('db, 'tx) redb \<Rightarrow> serde \<Rightarrow> entry list \<Rightarrow> 'tx \<Rightarrow> fault + 'tx" where
  "append_loop api c [] table = Inr table"
| "append_loop api c (entry # entries) table =
     and_then (w_err (entry_to_vec c entry)) (\<lambda>json.
     and_then (w_err (log_insert api (e_index entry) json table)) (\<lambda>table.
     append_loop api c entries table))"

definition pls_append ::
    "('db, 'tx) redb \<Rightarrow> serde \<Rightarrow> entry list \<Rightarrow> 'db \<Rightarrow> (fault + flushed) \<times> 'db" where
  "pls_append api c entries db = settle db (
     and_then (w_err (begin_write api db)) (\<lambda>write_txn.
     and_then (w_err (open_log_table api write_txn)) (\<lambda>table.
     and_then (append_loop api c entries table) (\<lambda>table.
     and_then (w_err (commit api table)) (\<lambda>db'. Inr (Flushed, db'))))))"

text \<open>\<open>filter_map(|item| item.ok().map(..))\<close>: items that could not be read are skipped.\<close>

definition ok_keys :: "(string + u64 \<times> bytes) list \<Rightarrow> u64 list" where
  "ok_keys items = List.map_filter (\<lambda>item. map_option fst (ok item)) items"

text \<open>\<open>let _ = table.remove(key)\<close>: a failed removal is ignored.\<close>

fun remove_keys :: "('db, 'tx) redb \<Rightarrow> u64 list \<Rightarrow> 'tx \<Rightarrow> 'tx" where
  "remove_keys api [] table = table"
| "remove_keys api (key # keys) table =
     remove_keys api keys (case log_remove api key table of Inl e \<Rightarrow> table | Inr table' \<Rightarrow> table')"

definition pls_truncate ::
    "('db, 'tx) redb \<Rightarrow> log_id \<Rightarrow> 'db \<Rightarrow> (fault + unit) \<times> 'db" where
  "pls_truncate api i db = settle db (
     and_then (w_err (begin_write api db)) (\<lambda>write_txn.
     and_then (w_err (open_log_table api write_txn)) (\<lambda>table.
     and_then (r_err (log_range api (Included (lg_index i)) Unbounded table)) (\<lambda>items.
     let table = remove_keys api (ok_keys items) table in
     and_then (w_err (commit api table)) (\<lambda>db'. Inr ((), db'))))))"

definition pls_purge ::
    "('db, 'tx) redb \<Rightarrow> serde \<Rightarrow> log_id \<Rightarrow> 'db \<Rightarrow> (fault + unit) \<times> 'db" where
  "pls_purge api c i db = settle db (
     and_then (w_err (begin_write api db)) (\<lambda>write_txn.
     and_then (w_err (open_log_table api write_txn)) (\<lambda>table.
     and_then (r_err (log_range api Unbounded (Included (lg_index i)) table)) (\<lambda>items.
     let table = remove_keys api (ok_keys items) table in
     and_then (w_err (open_meta_table api table)) (\<lambda>meta.
     and_then (w_err (log_id_to_vec c i)) (\<lambda>json.
     and_then (w_err (meta_insert api META_LAST_PURGED json meta)) (\<lambda>meta.
     and_then (w_err (commit api meta)) (\<lambda>db'. Inr ((), db')))))))))"

fun pls_exec :: "('db, 'tx) redb \<Rightarrow> serde \<Rightarrow> log_op \<Rightarrow> 'db \<Rightarrow> (fault + unit) \<times> 'db" where
  "pls_exec api c (Append es) db = map_prod (map_sum id (\<lambda>_. ())) id (pls_append api c es db)"
| "pls_exec api c (Truncate i) db = pls_truncate api i db"
| "pls_exec api c (Purge i) db = pls_purge api c i db"
| "pls_exec api c (Save_Vote v) db = pls_save_vote api c v db"

section \<open>Invariant and abstraction\<close>

definition decoded_log :: "serde \<Rightarrow> ('db, 'tx) redb_view \<Rightarrow> 'db \<Rightarrow> (u64, entry) btree_map" where
  "decoded_log c v db = bt_map (\<lambda>b. projr (entry_from_slice c b)) (db_log v db)"

definition decoded_meta :: "'a from_slice \<Rightarrow> ('db, 'tx) redb_view \<Rightarrow> string \<Rightarrow> 'db \<Rightarrow> 'a option" where
  "decoded_meta fs v key db = map_option (\<lambda>b. projr (fs b)) (db_meta v db key)"

definition pls_view :: "serde \<Rightarrow> ('db, 'tx) redb_view \<Rightarrow> 'db \<Rightarrow> abs_log" where
  "pls_view c v db =
     \<lparr>al_entries = map_of (decoded_log c v db),
      al_purged = decoded_meta (log_id_from_slice c) v META_LAST_PURGED db,
      al_vote = decoded_meta (vote_from_slice c) v META_VOTE db\<rparr>"

text \<open>Every stored byte string can be read back, and every entry is stored under its index.\<close>

definition stored_ok :: "serde \<Rightarrow> ('db, 'tx) redb_view \<Rightarrow> 'db \<Rightarrow> bool" where
  "stored_ok c v db \<longleftrightarrow>
     keyed_log (decoded_log c v db) \<and>
     (\<forall>b \<in> snd ` set (db_log v db). is_ok (entry_from_slice c b)) \<and>
     (\<forall>b. db_meta v db META_LAST_PURGED = Some b \<longrightarrow> is_ok (log_id_from_slice c b)) \<and>
     (\<forall>b. db_meta v db META_VOTE = Some b \<longrightarrow> is_ok (vote_from_slice c b))"

definition pls_inv ::
    "('db, 'tx) redb \<Rightarrow> serde \<Rightarrow> ('db, 'tx) redb_view \<Rightarrow> 'db \<Rightarrow> bool" where
  "pls_inv api c v db \<longleftrightarrow>
     redb_laws api v \<and> redb_no_lost_removes api \<and> serde_laws c \<and> stored_ok c v db"

section \<open>What the database calls do\<close>

lemma redb_lawsD:
  assumes "redb_laws api v"
  shows redb_begin_read: "begin_read api d = Inr t \<Longrightarrow> tx_log v t = db_log v d \<and> tx_meta v t = db_meta v d"
    and redb_begin_write: "begin_write api d = Inr t \<Longrightarrow> tx_log v t = db_log v d \<and> tx_meta v t = db_meta v d"
    and redb_open_log: "open_log_table api t = Inr t' \<Longrightarrow> tx_log v t' = tx_log v t \<and> tx_meta v t' = tx_meta v t"
    and redb_open_meta: "open_meta_table api t = Inr t' \<Longrightarrow> tx_log v t' = tx_log v t \<and> tx_meta v t' = tx_meta v t"
    and redb_log_insert: "log_insert api k b t = Inr t' \<Longrightarrow>
      tx_log v t' = bt_insert k b (tx_log v t) \<and> tx_meta v t' = tx_meta v t"
    and redb_log_remove: "log_remove api k t = Inr t' \<Longrightarrow>
      tx_log v t' = bt_remove k (tx_log v t) \<and> tx_meta v t' = tx_meta v t"
    and redb_log_range: "log_range api lo hi t = Inr items \<Longrightarrow>
      list_all2 item_ok items (bt_range lo hi (tx_log v t))"
    and redb_log_last: "log_last api t = Inr r \<Longrightarrow> r = bt_last (tx_log v t)"
    and redb_meta_get: "meta_get api key t = Inr m \<Longrightarrow> m = tx_meta v t key"
    and redb_meta_insert: "meta_insert api key b t = Inr t' \<Longrightarrow>
      tx_log v t' = tx_log v t \<and> tx_meta v t' = (tx_meta v t)(key \<mapsto> b)"
    and redb_commit: "commit api t = Inr d \<Longrightarrow> db_log v d = tx_log v t \<and> db_meta v d = tx_meta v t"
  using assms unfolding redb_laws_def by (simp_all only: simp_thms)

lemma redb_create:
  assumes "redb_laws api v" "db_create api content = Inr d"
  shows "db_log v d = (case content of None \<Rightarrow> [] | Some d0 \<Rightarrow> db_log v d0) \<and>
    db_meta v d = (case content of None \<Rightarrow> Map.empty | Some d0 \<Rightarrow> db_meta v d0)"
  using assms unfolding redb_laws_def by (cases content) auto

lemma settle_Inr_iff: "settle db r = (Inr x, db') \<longleftrightarrow> r = Inr (x, db')"
  by (auto simp: settle_def split: sum.splits prod.splits)

lemma settle_Inl_iff: "settle db r = (Inl f, db') \<longleftrightarrow> r = Inl f \<and> db' = db"
  by (auto simp: settle_def split: sum.splits prod.splits)

lemmas settle_iffs = settle_Inr_iff settle_Inl_iff

text \<open>The append loop inserts the encodings in order.\<close>

lemma append_loop_log:
  assumes "redb_laws api v"
  shows "append_loop api c es t = Inr t' \<Longrightarrow>
    (\<forall>e \<in> set es. is_ok (entry_to_vec c e)) \<and> tx_meta v t' = tx_meta v t \<and>
    tx_log v t' = fold (\<lambda>e m. bt_insert (e_index e) (projr (entry_to_vec c e)) m) es (tx_log v t)"
proof (induction es arbitrary: t)
  case (Cons e es)
  then obtain json t1 where "entry_to_vec c e = Inr json" "log_insert api (e_index e) json t = Inr t1"
    and "append_loop api c es t1 = Inr t'"
    by (auto simp: result_simps)
  with Cons.IH [of t1] redb_log_insert [OF assms, of "e_index e" json t t1] show ?case by simp
qed simp

lemma bt_map_fold_insert:
  "(\<forall>e \<in> set es. f (g e) = e) \<Longrightarrow>
   bt_map f (fold (\<lambda>e m. bt_insert (e_index e) (g e) m) es m) =
   fold (\<lambda>e m. bt_insert (e_index e) e m) es (bt_map f m)"
  by (induction es arbitrary: m) (simp_all add: bt_map_insert)

lemma set_fold_insert:
  "bt_inv m \<Longrightarrow> snd ` set (fold (\<lambda>e m. bt_insert (e_index e) (g e) m) es m) \<subseteq> g ` set es \<union> snd ` set m"
proof (induction es arbitrary: m)
  case (Cons e es)
  let ?m = "bt_insert (e_index e) (g e) m"
  have "snd ` set ?m \<subseteq> insert (g e) (snd ` set m)"
    using Cons.prems by (auto simp: set_bt_insert)
  moreover have "snd ` set (fold (\<lambda>e m. bt_insert (e_index e) (g e) m) es ?m) \<subseteq> g ` set es \<union> snd ` set ?m"
    using Cons.prems by (intro Cons.IH) simp
  ultimately have "snd ` set (fold (\<lambda>e m. bt_insert (e_index e) (g e) m) es ?m) \<subseteq>
      g ` set es \<union> insert (g e) (snd ` set m)" by blast
  then show ?case by simp
qed simp

text \<open>When no removal is lost, the collected keys are those of the range and all are removed.\<close>

lemma ok_keys_range:
  assumes "list_all2 item_ok items xs" "\<forall>item \<in> set items. is_ok item"
  shows "ok_keys items = map fst xs"
  using assms
  by (induction rule: list_all2_induct)
    (auto simp: ok_keys_def map_filter_def item_ok_def split: sum.splits)

lemma remove_keys_log:
  assumes "redb_laws api v" "redb_no_lost_removes api"
  shows "tx_log v (remove_keys api ks t) = bt_remove_all ks (tx_log v t) \<and>
    tx_meta v (remove_keys api ks t) = tx_meta v t"
proof (induction ks arbitrary: t)
  case (Cons k ks)
  have "\<forall>e. log_remove api k t \<noteq> Inl e" using assms(2) by (simp add: redb_no_lost_removes_def)
  then obtain t1 where "log_remove api k t = Inr t1" by (cases "log_remove api k t") auto
  with Cons.IH [of t1] redb_log_remove [OF assms(1), of k t t1] show ?case
    by (simp add: bt_remove_all_def)
qed (simp add: bt_remove_all_def)

lemma remove_range_log:
  assumes "redb_laws api v" "redb_no_lost_removes api" "log_range api lo hi t = Inr items"
  shows "tx_log v (remove_keys api (ok_keys items) t) =
      bt_remove_all (map fst (bt_range lo hi (tx_log v t))) (tx_log v t) \<and>
    tx_meta v (remove_keys api (ok_keys items) t) = tx_meta v t"
proof -
  have "\<forall>item \<in> set items. is_ok item"
    using assms(2,3) unfolding redb_no_lost_removes_def by blast
  with ok_keys_range [OF redb_log_range [OF assms(1,3)]]
  have "ok_keys items = map fst (bt_range lo hi (tx_log v t))" .
  with remove_keys_log [OF assms(1,2)] show ?thesis by simp
qed

section \<open>Effect of each operation on the committed tables\<close>

lemma pls_append_tables:
  assumes "redb_laws api v" "pls_append api c es db = (Inr u, db')"
  shows "(\<forall>e \<in> set es. is_ok (entry_to_vec c e)) \<and> db_meta v db' = db_meta v db \<and>
    db_log v db' = fold (\<lambda>e m. bt_insert (e_index e) (projr (entry_to_vec c e)) m) es (db_log v db)"
proof -
  obtain t1 t2 t3 where *: "begin_write api db = Inr t1" "open_log_table api t1 = Inr t2"
    "append_loop api c es t2 = Inr t3" "commit api t3 = Inr db'"
    using assms(2) by (auto simp: pls_append_def settle_iffs result_simps)
  from redb_begin_write [OF assms(1) *(1)] redb_open_log [OF assms(1) *(2)]
    append_loop_log [OF assms(1) *(3)] redb_commit [OF assms(1) *(4)]
  show ?thesis by simp
qed

lemma pls_truncate_tables:
  assumes "redb_laws api v" "redb_no_lost_removes api" "pls_truncate api i db = (Inr u, db')"
  shows "db_meta v db' = db_meta v db \<and>
    db_log v db' =
      bt_remove_all (map fst (bt_range (Included (lg_index i)) Unbounded (db_log v db))) (db_log v db)"
proof -
  obtain t1 t2 items where *: "begin_write api db = Inr t1" "open_log_table api t1 = Inr t2"
    "log_range api (Included (lg_index i)) Unbounded t2 = Inr items"
    "commit api (remove_keys api (ok_keys items) t2) = Inr db'"
    using assms(3) by (auto simp: pls_truncate_def settle_iffs result_simps Let_def)
  from remove_range_log [OF assms(1,2) *(3)] redb_begin_write [OF assms(1) *(1)]
    redb_open_log [OF assms(1) *(2)] redb_commit [OF assms(1) *(4)]
  show ?thesis by simp
qed

lemma pls_purge_tables:
  assumes "redb_laws api v" "redb_no_lost_removes api" "pls_purge api c i db = (Inr u, db')"
  shows "(\<exists>json. log_id_to_vec c i = Inr json \<and>
      db_meta v db' = (db_meta v db)(META_LAST_PURGED \<mapsto> json)) \<and>
    db_log v db' =
      bt_remove_all (map fst (bt_range Unbounded (Included (lg_index i)) (db_log v db))) (db_log v db)"
proof -
  obtain t1 t2 items t3 json t4 where *: "begin_write api db = Inr t1" "open_log_table api t1 = Inr t2"
    "log_range api Unbounded (Included (lg_index i)) t2 = Inr items"
    "open_meta_table api (remove_keys api (ok_keys items) t2) = Inr t3"
    "log_id_to_vec c i = Inr json" "meta_insert api META_LAST_PURGED json t3 = Inr t4"
    "commit api t4 = Inr db'"
    using assms(3) by (auto simp: pls_purge_def settle_iffs result_simps Let_def)
  from remove_range_log [OF assms(1,2) *(3)] redb_begin_write [OF assms(1) *(1)]
    redb_open_log [OF assms(1) *(2)] redb_open_meta [OF assms(1) *(4)]
    redb_meta_insert [OF assms(1) *(6)] redb_commit [OF assms(1) *(7)] *(5)
  show ?thesis by simp
qed

lemma pls_save_vote_tables:
  assumes "redb_laws api v" "pls_save_vote api c vt db = (Inr u, db')"
  shows "\<exists>json. vote_to_vec c vt = Inr json \<and> db_log v db' = db_log v db \<and>
    db_meta v db' = (db_meta v db)(META_VOTE \<mapsto> json)"
proof -
  obtain json t1 t2 t3 where *: "vote_to_vec c vt = Inr json" "begin_write api db = Inr t1"
    "open_meta_table api t1 = Inr t2" "meta_insert api META_VOTE json t2 = Inr t3"
    "commit api t3 = Inr db'"
    using assms(2) by (auto simp: pls_save_vote_def write_meta_def settle_iffs result_simps)
  from redb_begin_write [OF assms(1) *(2)] redb_open_meta [OF assms(1) *(3)]
    redb_meta_insert [OF assms(1) *(4)] redb_commit [OF assms(1) *(5)] *(1)
  show ?thesis by simp
qed

section \<open>The store meets the storage interface\<close>

lemma serde_decode_encode:
  assumes "serde_laws c"
  shows "entry_to_vec c e = Inr b1 \<Longrightarrow> entry_from_slice c b1 = Inr e"
    and "vote_to_vec c vt = Inr b2 \<Longrightarrow> vote_from_slice c b2 = Inr vt"
    and "log_id_to_vec c i = Inr b3 \<Longrightarrow> log_id_from_slice c b3 = Inr i"
  using assms by (auto simp: serde_laws_def dest: serde_roundtripD)

lemma decode_encode_entry:
  "serde_laws c \<Longrightarrow> is_ok (entry_to_vec c e) \<Longrightarrow>
   entry_from_slice c (projr (entry_to_vec c e)) = Inr e"
  by (auto simp: is_ok_iff dest: serde_decode_encode(1))

lemma range_keys_decoded:
  "map fst (bt_range lo hi (db_log v db)) = map fst (bt_range lo hi (decoded_log c v db))"
  unfolding decoded_log_def bt_map_range [symmetric] by simp

lemma decoded_log_remove_range:
  assumes "db_log v db' = bt_remove_all (map fst (bt_range lo hi (db_log v db))) (db_log v db)"
  shows "decoded_log c v db' =
    bt_remove_all (map fst (bt_range lo hi (decoded_log c v db))) (decoded_log c v db)"
  using assms unfolding range_keys_decoded [of lo hi v db c]
  by (simp add: decoded_log_def bt_map_remove_all)

lemma stored_ok_remove_range:
  assumes "stored_ok c v db"
    and "db_log v db' = bt_remove_all (map fst (bt_range lo hi (db_log v db))) (db_log v db)"
  shows "keyed_log (decoded_log c v db') \<and> (\<forall>b \<in> snd ` set (db_log v db'). is_ok (entry_from_slice c b))"
  using assms decoded_log_remove_range [OF assms(2), of c]
  by (auto simp: stored_ok_def bt_remove_all_conv keyed_log_filter)

lemma META_keys_distinct [simp]: "META_VOTE \<noteq> META_LAST_PURGED" "META_LAST_PURGED \<noteq> META_VOTE"
  by (simp_all add: META_VOTE_def META_LAST_PURGED_def)

lemma pls_append_view:
  assumes "pls_inv api c v db" "pls_append api c es db = (Inr u, db')"
  shows "stored_ok c v db' \<and> pls_view c v db' = al_append es (pls_view c v db)"
proof -
  have laws: "redb_laws api v" "serde_laws c" and st: "stored_ok c v db"
    using assms(1) by (auto simp: pls_inv_def)
  let ?g = "\<lambda>e. projr (entry_to_vec c e)"
  from pls_append_tables [OF laws(1) assms(2)]
  have enc: "\<forall>e \<in> set es. is_ok (entry_to_vec c e)" and meta: "db_meta v db' = db_meta v db"
    and log: "db_log v db' = fold (\<lambda>e m. bt_insert (e_index e) (?g e) m) es (db_log v db)" by auto
  have inverse: "entry_from_slice c (?g e) = Inr e" if "e \<in> set es" for e
    using enc that laws(2) by (simp add: decode_encode_entry)
  then have dec: "decoded_log c v db' = fold (\<lambda>e m. bt_insert (e_index e) e m) es (decoded_log c v db)"
    by (simp add: decoded_log_def log bt_map_fold_insert)
  have sub: "snd ` set (db_log v db') \<subseteq> ?g ` set es \<union> snd ` set (db_log v db)"
    using st set_fold_insert [of "db_log v db"]
    by (simp add: log stored_ok_def keyed_log_def decoded_log_def)
  have old: "\<forall>b \<in> snd ` set (db_log v db). is_ok (entry_from_slice c b)"
    using st by (simp add: stored_ok_def)
  have "\<forall>b \<in> snd ` set (db_log v db'). is_ok (entry_from_slice c b)"
  proof
    fix b assume "b \<in> snd ` set (db_log v db')"
    with sub have "b \<in> ?g ` set es \<union> snd ` set (db_log v db)" by (rule subsetD)
    then show "is_ok (entry_from_slice c b)"
      by (rule UnE) (use inverse old in \<open>auto simp only: is_ok.simps image_iff\<close>)
  qed
  moreover have "keyed_log (decoded_log c v db')"
    using st by (simp add: dec keyed_log_fold stored_ok_def)
  ultimately show ?thesis
    using st
    by (simp add: stored_ok_def meta pls_view_def dec map_of_fold_insert al_append_def decoded_meta_def)
qed

lemma pls_truncate_view:
  assumes "pls_inv api c v db" "pls_truncate api i db = (Inr u, db')"
  shows "stored_ok c v db' \<and> pls_view c v db' = al_truncate i (pls_view c v db)"
proof -
  have st: "stored_ok c v db" using assms(1) by (simp add: pls_inv_def)
  from pls_truncate_tables [of api v, OF _ _ assms(2)] assms(1)
  have meta: "db_meta v db' = db_meta v db" and
    log: "db_log v db' = bt_remove_all (map fst (bt_range (Included (lg_index i)) Unbounded (db_log v db)))
      (db_log v db)" by (auto simp: pls_inv_def)
  from stored_ok_remove_range [OF st log] decoded_log_remove_range [OF log, of c] st
  show ?thesis
    by (simp add: stored_ok_def meta pls_view_def map_of_truncate al_truncate_def decoded_meta_def)
qed

lemma pls_purge_view:
  assumes "pls_inv api c v db" "pls_purge api c i db = (Inr u, db')"
  shows "stored_ok c v db' \<and> pls_view c v db' = al_purge i (pls_view c v db)"
proof -
  have st: "stored_ok c v db" and sl: "serde_laws c" using assms(1) by (simp_all add: pls_inv_def)
  from pls_purge_tables [of api v, OF _ _ assms(2)] assms(1) obtain json where
    json: "log_id_to_vec c i = Inr json" and
    meta: "db_meta v db' = (db_meta v db)(META_LAST_PURGED \<mapsto> json)" and
    log: "db_log v db' = bt_remove_all (map fst (bt_range Unbounded (Included (lg_index i)) (db_log v db)))
      (db_log v db)" by (auto simp: pls_inv_def)
  from stored_ok_remove_range [OF st log] decoded_log_remove_range [OF log, of c] st
    serde_decode_encode(3) [OF sl json]
  show ?thesis
    by (simp add: stored_ok_def meta pls_view_def map_of_purge al_purge_def decoded_meta_def)
qed

lemma pls_save_vote_view:
  assumes "pls_inv api c v db" "pls_save_vote api c vt db = (Inr u, db')"
  shows "stored_ok c v db' \<and> pls_view c v db' = al_save_vote vt (pls_view c v db)"
proof -
  have st: "stored_ok c v db" and sl: "serde_laws c" using assms(1) by (simp_all add: pls_inv_def)
  from pls_save_vote_tables [of api v, OF _ assms(2)] assms(1) obtain json where
    json: "vote_to_vec c vt = Inr json" and log: "db_log v db' = db_log v db" and
    meta: "db_meta v db' = (db_meta v db)(META_VOTE \<mapsto> json)" by (auto simp: pls_inv_def)
  from st serde_decode_encode(2) [OF sl json] show ?thesis
    by (simp add: stored_ok_def meta log pls_view_def al_save_vote_def decoded_meta_def decoded_log_def)
qed

lemma pls_exec_err: "pls_exec api c op db = (Inl f, db') \<Longrightarrow> db' = db"
  by (cases op)
    (auto simp: pls_append_def pls_truncate_def pls_purge_def pls_save_vote_def write_meta_def
      settle_def split: sum.splits prod.splits)

lemma pls_exec_ok:
  assumes "pls_inv api c v db" "pls_exec api c op db = (Inr u, db')"
  shows "stored_ok c v db' \<and> pls_view c v db' = al_exec op (pls_view c v db)"
proof (cases op)
  case (Append es)
  then obtain w where "pls_append api c es db = (Inr w, db')"
    using assms(2) by (cases "pls_append api c es db"; cases "fst (pls_append api c es db)") auto
  from pls_append_view [OF assms(1) this] show ?thesis by (simp add: Append)
next
  case (Truncate i)
  with assms pls_truncate_view [OF assms(1)] show ?thesis by simp
next
  case (Purge i)
  with assms pls_purge_view [OF assms(1)] show ?thesis by simp
next
  case (Save_Vote vt)
  with assms pls_save_vote_view [OF assms(1)] show ?thesis by simp
qed

subsection \<open>Readers\<close>

lemma decode_items_ok:
  assumes "list_all2 item_ok items xs"
  shows "decode_items fs items = Inr es \<Longrightarrow> es = map (\<lambda>x. projr (fs (snd x))) xs"
  using assms
  by (induction arbitrary: es rule: list_all2_induct) (auto simp: result_simps item_ok_def)

lemma pls_entries_range:
  assumes "pls_inv api c v db" "pls_try_get_log_entries api c lo hi db = Inr es"
  shows "al_range (pls_view c v db) lo hi es"
proof -
  have laws: "redb_laws api v" and st: "stored_ok c v db" using assms(1) by (simp_all add: pls_inv_def)
  obtain t1 t2 items where *: "begin_read api db = Inr t1" "open_log_table api t1 = Inr t2"
    "log_range api lo hi t2 = Inr items" "decode_items (entry_from_slice c) items = Inr es"
    using assms(2) by (auto simp: pls_try_get_log_entries_def result_simps)
  have "tx_log v t2 = db_log v db"
    using redb_begin_read [OF laws *(1)] redb_open_log [OF laws *(2)] by simp
  with decode_items_ok [OF redb_log_range [OF laws *(3)] *(4)]
  have "es = map snd (bt_map (\<lambda>b. projr (entry_from_slice c b)) (bt_range lo hi (db_log v db)))"
    by (simp add: bt_map_def case_prod_unfold)
  then have "es = map snd (bt_range lo hi (decoded_log c v db))"
    by (simp add: bt_map_range decoded_log_def)
  with st show ?thesis
    by (simp add: pls_view_def keyed_log_range stored_ok_def)
qed

lemma read_meta_decoded:
  assumes "redb_laws api v" "read_meta api fs key db = Inr r"
  shows "r = decoded_meta fs v key db"
proof -
  obtain t1 t2 where *: "begin_read api db = Inr t1" "open_meta_table api t1 = Inr t2"
    using assms(2) by (auto simp: read_meta_def result_simps)
  have tm: "tx_meta v t2 = db_meta v db"
    using redb_begin_read [OF assms(1) *(1)] redb_open_meta [OF assms(1) *(2)] by simp
  obtain m where m: "meta_get api key t2 = Inr m"
    using assms(2) * by (auto simp: read_meta_def split: sum.splits)
  then have "m = db_meta v db key" using redb_meta_get [OF assms(1) m] tm by simp
  with assms(2) * m show ?thesis
    by (auto simp: read_meta_def decoded_meta_def result_simps split: option.splits)
qed

lemma pls_state_view:
  assumes "pls_inv api c v db" "pls_get_log_state api c db = Inr st"
  shows "last_purged_log_id st = al_purged (pls_view c v db) \<and> al_last (pls_view c v db) (last_log_id st)"
proof -
  have laws: "redb_laws api v" and ok: "stored_ok c v db" using assms(1) by (simp_all add: pls_inv_def)
  obtain p t1 t2 where *: "read_meta api (log_id_from_slice c) META_LAST_PURGED db = Inr p"
    "begin_read api db = Inr t1" "open_log_table api t1 = Inr t2"
    using assms(2) by (auto simp: pls_get_log_state_def result_simps)
  have tl: "tx_log v t2 = db_log v db"
    using redb_begin_read [OF laws *(2)] redb_open_log [OF laws *(3)] by simp
  obtain r where r: "log_last api t2 = Inr r"
    using assms(2) * by (auto simp: pls_get_log_state_def split: sum.splits)
  have rl: "r = bt_last (db_log v db)" using redb_log_last [OF laws r] tl by simp
  have "last_purged_log_id st = p" and
    "last_log_id st = map_option (\<lambda>(_, b). e_log_id (projr (entry_from_slice c b))) r"
    using assms(2) * r by (auto simp: pls_get_log_state_def result_simps split: option.splits)
  moreover have "map_option (\<lambda>(_, b). e_log_id (projr (entry_from_slice c b))) r =
      map_option (\<lambda>(_, e). e_log_id e) (bt_last (decoded_log c v db))"
    by (simp add: rl decoded_log_def bt_map_last option.map_comp o_def case_prod_unfold)
  ultimately show ?thesis
    using read_meta_decoded [OF laws *(1)] ok
    by (simp add: pls_view_def keyed_log_last stored_ok_def)
qed

interpretation pls: log_storage "pls_exec api c" "pls_try_get_log_entries api c"
  "pls_get_log_state api c" "pls_read_vote api c" "pls_view c v" "pls_inv api c v" for api c v
proof unfold_locales
  fix s s' op r
  assume inv: "pls_inv api c v s" and ex: "pls_exec api c op s = (r, s')"
  show "pls_inv api c v s'"
  proof (cases r)
    case (Inl f)
    with ex inv pls_exec_err show ?thesis by metis
  next
    case (Inr u)
    with pls_exec_ok [OF inv] ex inv show ?thesis by (simp add: pls_inv_def)
  qed
next
  fix s s' op u
  assume "pls_inv api c v s" and "pls_exec api c op s = (Inr u, s')"
  then show "pls_view c v s' = al_exec op (pls_view c v s)" using pls_exec_ok [of api c v s op u s'] by simp
next
  fix s s' op f
  assume "pls_exec api c op s = (Inl f, s')"
  then show "pls_view c v s' = pls_view c v s" using pls_exec_err by metis
next
  fix s lo hi es
  assume "pls_inv api c v s" and "pls_try_get_log_entries api c lo hi s = Inr es"
  then show "al_range (pls_view c v s) lo hi es" by (rule pls_entries_range)
next
  fix s st
  assume "pls_inv api c v s" and "pls_get_log_state api c s = Inr st"
  then show "last_purged_log_id st = al_purged (pls_view c v s) \<and> al_last (pls_view c v s) (last_log_id st)"
    by (rule pls_state_view)
next
  fix s vt
  assume "pls_inv api c v s" and "pls_read_vote api c s = Inr vt"
  then show "vt = al_vote (pls_view c v s)"
    using read_meta_decoded by (auto simp: pls_inv_def pls_read_vote_def pls_view_def)
qed

interpretation pls_mem: log_storage_pair
  "pls_exec api c" "pls_try_get_log_entries api c" "pls_get_log_state api c" "pls_read_vote api c"
  "pls_view c v" "pls_inv api c v"
  ls_exec ls_try_get_log_entries ls_get_log_state ls_read_vote ls_view ls_inv for api c v
  by unfold_locales

end
