(* ===== verification/Log_Store_Files.thy ===== *)
theory Log_Store_Files
  imports Persistent_Log_Store
begin

text \<open>
  Opening the persistent log store, \<open>PersistentLogStore::new\<close>: the part of the file system it
  touches, the migration of the legacy file into the directory of shard 0, and the properties of
  both log stores.
\<close>

section \<open>The file system\<close>

text \<open>
  A path is the list of its components. A node of the tree is a directory or a database file;
  the two calls the store makes can also fail for reasons of the operating system, which
  \<open>fs_io\<close> supplies.
\<close>

datatype 'db node = Dir | File 'db

type_synonym path = "string list"
type_synonym 'db fs = "path \<rightharpoonup> 'db node"

record fs_io =
  mkdir_error :: "path \<Rightarrow> string option"
  rename_error :: "path \<Rightarrow> path \<Rightarrow> string option"

definition path_exists :: "'db fs \<Rightarrow> path \<Rightarrow> bool" where
  "path_exists fs p \<longleftrightarrow> fs p \<noteq> None"

fun is_file :: "'db node option \<Rightarrow> bool" where
  "is_file (Some (File d)) = True"
| "is_file _ = False"

definition ancestors :: "path \<Rightarrow> path list" where
  "ancestors p = map (\<lambda>n. take n p) [0 ..< Suc (length p)]"

definition create_dir_all :: "fs_io \<Rightarrow> path \<Rightarrow> 'db fs \<Rightarrow> string + 'db fs" where
  "create_dir_all io d fs =
     (case mkdir_error io d of
        Some e \<Rightarrow> Inl e
      | None \<Rightarrow>
          if list_ex (\<lambda>p. is_file (fs p)) (ancestors d) then Inl ''Not a directory''
          else Inr (\<lambda>p. if p \<in> set (ancestors d) then Some Dir else fs p))"

text \<open>\<open>std::fs::rename\<close> moves a node with everything below it.\<close>

definition below :: "path \<Rightarrow> path \<Rightarrow> bool" where
  "below r p \<longleftrightarrow> take (length r) p = r"

definition fs_rename :: "fs_io \<Rightarrow> path \<Rightarrow> path \<Rightarrow> 'db fs \<Rightarrow> string + 'db fs" where
  "fs_rename io old new fs =
     (case rename_error io old new of
        Some e \<Rightarrow> Inl e
      | None \<Rightarrow>
          if fs old = None then Inl ''No such file or directory''
          else Inr (\<lambda>p. if below new p then fs (old @ drop (length new) p)
                        else if below old p then None
                        else fs p))"

section \<open>Opening a store\<close>

definition LOG_FILE :: string where
  "LOG_FILE = ''raft-log.redb''"

definition shard_dir :: "path \<Rightarrow> u64 \<Rightarrow> path" where
  "shard_dir data_dir sid = data_dir @ [''shard-'' @ to_string sid]"

definition db_path :: "path \<Rightarrow> u64 \<Rightarrow> path" where
  "db_path data_dir sid = shard_dir data_dir sid @ [LOG_FILE]"

text \<open>An error carries the file system as the failed step left it.\<close>

abbreviation at_fs :: "'db fs \<Rightarrow> string + 'a \<Rightarrow> (fault \<times> 'db fs) + 'a" where
  "at_fs fs r \<equiv> map_err (\<lambda>e. (logs_write_error e, fs)) r"

definition migrate_legacy :: "fs_io \<Rightarrow> path \<Rightarrow> u64 \<Rightarrow> 'db fs \<Rightarrow> (fault \<times> 'db fs) + 'db fs" where
  "migrate_legacy io data_dir sid fs =
     (let old_path = data_dir @ [LOG_FILE] in
      if sid = 0 \<and> path_exists fs old_path \<and> \<not> path_exists fs (db_path data_dir sid) then
        and_then (at_fs fs (create_dir_all io (shard_dir data_dir sid) fs)) (\<lambda>fs1.
        at_fs fs1 (fs_rename io old_path (db_path data_dir sid) fs1))
      else Inr fs)"

definition open_database :: "('db, 'tx) redb \<Rightarrow> 'db node option \<Rightarrow> string + 'db" where
  "open_database api content =
     (case content of
        Some Dir \<Rightarrow> Inl ''Is a directory''
      | Some (File d) \<Rightarrow> db_create api (Some d)
      | None \<Rightarrow> db_create api None)"

definition pls_new ::
    "('db, 'tx) redb \<Rightarrow> fs_io \<Rightarrow> path \<Rightarrow> u64 \<Rightarrow> 'db fs \<Rightarrow> (fault \<times> 'db fs) + ('db \<times> 'db fs)" where
  "pls_new api io data_dir sid fs =
     and_then (migrate_legacy io data_dir sid fs) (\<lambda>fs1.
     and_then (at_fs fs1 (create_dir_all io (shard_dir data_dir sid) fs1)) (\<lambda>fs2.
     and_then (at_fs fs2 (open_database api (fs2 (db_path data_dir sid)))) (\<lambda>db.
     let fs3 = fs2(db_path data_dir sid \<mapsto> File db) in
     and_then (at_fs fs3 (begin_write api db)) (\<lambda>write_txn.
     let write_txn = (case open_log_table api write_txn of Inl e \<Rightarrow> write_txn | Inr t \<Rightarrow> t);
         write_txn = (case open_meta_table api write_txn of Inl e \<Rightarrow> write_txn | Inr t \<Rightarrow> t) in
     and_then (at_fs fs3 (commit api write_txn)) (\<lambda>db.
     Inr (db, fs3(db_path data_dir sid \<mapsto> File db)))))))"

section \<open>Lemmas on paths\<close>

lemma ancestors_iff: "p \<in> set (ancestors q) \<longleftrightarrow> (\<exists>n \<le> length q. p = take n q)"
  by (auto simp: ancestors_def less_Suc_eq_le simp del: upt_Suc)

lemma not_ancestor_longer: "length q < length p \<Longrightarrow> p \<notin> set (ancestors q)"
  by (auto simp: ancestors_iff)

lemma db_path_not_in_shard_dir [simp]: "db_path dd sid \<notin> set (ancestors (shard_dir dd sid))"
  by (rule not_ancestor_longer) (simp add: db_path_def)

lemma LOG_FILE_not_shard: "LOG_FILE \<noteq> ''shard-'' @ x"
  by (simp add: LOG_FILE_def)

lemma legacy_not_in_shard_dir [simp]: "dd @ [LOG_FILE] \<notin> set (ancestors (shard_dir dd sid))"
proof
  assume "dd @ [LOG_FILE] \<in> set (ancestors (shard_dir dd sid))"
  then obtain n where n: "n \<le> Suc (length dd)" "dd @ [LOG_FILE] = take n (dd @ [''shard-'' @ to_string sid])"
    by (auto simp: ancestors_iff shard_dir_def)
  have "length (dd @ [LOG_FILE]) = length (take n (dd @ [''shard-'' @ to_string sid]))"
    by (simp only: n(2))
  then have "n = Suc (length dd)" using n(1) by (simp del: take_append)
  with n(2) have "LOG_FILE = ''shard-'' @ to_string sid" by simp
  with LOG_FILE_not_shard show False by blast
qed

lemma not_below_legacy [simp]: "\<not> below (db_path dd sid) (dd @ [LOG_FILE])"
  by (simp add: below_def db_path_def shard_dir_def)

lemma shard_dir_inject [simp]: "shard_dir dd a = shard_dir dd b \<longleftrightarrow> a = b"
  by (simp add: shard_dir_def)

lemma db_path_inject [simp]: "db_path dd a = db_path dd b \<longleftrightarrow> a = b"
  by (simp add: db_path_def)

lemma create_dir_all_other:
  "create_dir_all io d fs = Inr fs' \<Longrightarrow> p \<notin> set (ancestors d) \<Longrightarrow> fs' p = fs p"
  by (auto simp: create_dir_all_def split: option.splits if_splits)

lemma pls_new_tables:
  assumes "redb_laws api v" "pls_new api io dd sid fs = Inr (db, fs')"
  obtains fs1 where "migrate_legacy io dd sid fs = Inr fs1"
    and "fs' (db_path dd sid) = Some (File db)"
    and "db_log v db = (case fs1 (db_path dd sid) of Some (File d) \<Rightarrow> db_log v d | _ \<Rightarrow> [])"
    and "db_meta v db = (case fs1 (db_path dd sid) of Some (File d) \<Rightarrow> db_meta v d | _ \<Rightarrow> Map.empty)"
    and "\<And>p. p \<noteq> db_path dd sid \<Longrightarrow> p \<notin> set (ancestors (shard_dir dd sid)) \<Longrightarrow> fs' p = fs1 p"
proof -
  obtain fs1 fs2 db1 t1 t2 t3 where *: "migrate_legacy io dd sid fs = Inr fs1"
    "create_dir_all io (shard_dir dd sid) fs1 = Inr fs2"
    "open_database api (fs2 (db_path dd sid)) = Inr db1"
    "begin_write api db1 = Inr t1"
    "t2 = (case open_log_table api t1 of Inl e \<Rightarrow> t1 | Inr t \<Rightarrow> t)"
    "t3 = (case open_meta_table api t2 of Inl e \<Rightarrow> t2 | Inr t \<Rightarrow> t)"
    "commit api t3 = Inr db" and fs': "fs' = fs2(db_path dd sid \<mapsto> File db)"
    using assms(2) by (auto simp: pls_new_def result_simps Let_def)
  have eq: "fs2 (db_path dd sid) = fs1 (db_path dd sid)"
    by (rule create_dir_all_other [OF *(2)]) simp
  have "tx_log v t3 = db_log v db1 \<and> tx_meta v t3 = db_meta v db1"
    using redb_begin_write [OF assms(1) *(4)] redb_open_log [OF assms(1), of t1]
      redb_open_meta [OF assms(1), of t2] *(5,6) by (auto split: sum.splits)
  moreover have "db_log v db1 = (case fs1 (db_path dd sid) of Some (File d) \<Rightarrow> db_log v d | _ \<Rightarrow> [])"
    "db_meta v db1 = (case fs1 (db_path dd sid) of Some (File d) \<Rightarrow> db_meta v d | _ \<Rightarrow> Map.empty)"
    using *(3) redb_create [OF assms(1)] unfolding open_database_def eq
    by (auto split: option.splits node.splits)
  ultimately show ?thesis
    using *(1) fs' redb_commit [OF assms(1) *(7)] create_dir_all_other [OF *(2)]
    by (intro that) auto
qed

lemma migrate_legacy_noop:
  "sid \<noteq> 0 \<or> \<not> path_exists fs (dd @ [LOG_FILE]) \<or> path_exists fs (db_path dd sid) \<Longrightarrow>
   migrate_legacy io dd sid fs = Inr fs"
  by (auto simp: migrate_legacy_def Let_def)

lemma migrate_legacy_moves:
  assumes "migrate_legacy io dd 0 fs = Inr fs1"
    and "path_exists fs (dd @ [LOG_FILE])" "\<not> path_exists fs (db_path dd 0)"
  shows "fs1 (db_path dd 0) = fs (dd @ [LOG_FILE]) \<and> fs1 (dd @ [LOG_FILE]) = None"
proof -
  obtain fs0 where *: "create_dir_all io (shard_dir dd 0) fs = Inr fs0"
    "fs_rename io (dd @ [LOG_FILE]) (db_path dd 0) fs0 = Inr fs1"
    using assms by (auto simp: migrate_legacy_def Let_def result_simps)
  have "fs0 (dd @ [LOG_FILE]) = fs (dd @ [LOG_FILE])"
    by (rule create_dir_all_other [OF *(1)]) simp
  with *(2) show ?thesis
    by (auto simp: fs_rename_def below_def split: option.splits if_splits)
      (simp add: db_path_def shard_dir_def)
qed

section \<open>A concrete database and serialiser\<close>

text \<open>
  An instance of the parameters, used to show that the hypotheses of the theorems can hold
  together: tables in memory, every call successful, and an encoding of three sample entries.
\<close>

type_synonym demo_db = "(u64, bytes) btree_map \<times> (string \<rightharpoonup> bytes)"

definition demo_redb :: "(demo_db, demo_db) redb" where
  "demo_redb =
     \<lparr>db_create = (\<lambda>content. case content of None \<Rightarrow> Inr ([], Map.empty) | Some d \<Rightarrow> Inr d),
      begin_read = Inr, begin_write = Inr, open_log_table = Inr, open_meta_table = Inr,
      log_insert = (\<lambda>k b (l, m). Inr (bt_insert k b l, m)),
      log_remove = (\<lambda>k (l, m). Inr (bt_remove k l, m)),
      log_range = (\<lambda>lo hi (l, m). Inr (map Inr (bt_range lo hi l))),
      log_last = (\<lambda>(l, m). Inr (bt_last l)),
      meta_get = (\<lambda>k (l, m). Inr (m k)),
      meta_insert = (\<lambda>k b (l, m). Inr (l, m(k \<mapsto> b))),
      commit = Inr\<rparr>"

definition demo_view :: "(demo_db, demo_db) redb_view" where
  "demo_view = \<lparr>db_log = fst, db_meta = snd, tx_log = fst, tx_meta = snd\<rparr>"

lemma demo_redb_laws: "redb_laws demo_redb demo_view"
  by (auto simp: redb_laws_def demo_redb_def demo_view_def list_all2_map1 item_ok_def list_all2_same
      split: option.splits)

lemma demo_no_lost_removes: "redb_no_lost_removes demo_redb"
  by (auto simp: redb_no_lost_removes_def demo_redb_def)

definition demo_log_id :: "u64 \<Rightarrow> log_id" where
  "demo_log_id n = \<lparr>lg_leader_id = \<lparr>lid_term = 1, lid_node_id = 0\<rparr>, lg_index = n\<rparr>"

definition demo_entry :: "u64 \<Rightarrow> entry" where
  "demo_entry n = \<lparr>e_log_id = demo_log_id n, e_payload = Blank\<rparr>"

definition demo_vote :: vote where
  "demo_vote = \<lparr>v_leader_id = \<lparr>lid_term = 1, lid_node_id = 0\<rparr>, v_committed = False\<rparr>"

definition demo_serde :: serde where
  "demo_serde =
     \<lparr>entry_to_vec = (\<lambda>e. if e = demo_entry 1 then Inr [1] else if e = demo_entry 2 then Inr [2]
                          else if e = demo_entry 3 then Inr [3] else Inl ''unsupported''),
      entry_from_slice = (\<lambda>b. if b = [1] then Inr (demo_entry 1) else if b = [2] then Inr (demo_entry 2)
                          else if b = [3] then Inr (demo_entry 3) else Inl ''bad json''),
      vote_to_vec = (\<lambda>x. if x = demo_vote then Inr [9] else Inl ''unsupported''),
      vote_from_slice = (\<lambda>b. if b = [9] then Inr demo_vote else Inl ''bad json''),
      log_id_to_vec = (\<lambda>i. if i = demo_log_id 2 then Inr [2] else if i = demo_log_id 3 then Inr [3]
                          else Inl ''unsupported''),
      log_id_from_slice = (\<lambda>b. if b = [2] then Inr (demo_log_id 2) else if b = [3] then Inr (demo_log_id 3)
                          else Inl ''bad json'')\<rparr>"

lemma demo_serde_laws: "serde_laws demo_serde"
  by (simp add: serde_laws_def serde_roundtrip_def demo_serde_def)

definition demo_db0 :: demo_db where
  "demo_db0 = ([], Map.empty)"

lemma demo_stored_ok: "stored_ok demo_serde demo_view demo_db0"
  by (simp add: stored_ok_def demo_db0_def demo_view_def decoded_log_def bt_map_def keyed_log_def)

lemma demo_inv: "pls_inv demo_redb demo_serde demo_view demo_db0"
  by (simp add: pls_inv_def demo_redb_laws demo_no_lost_removes demo_serde_laws demo_stored_ok)

lemma demo_view0: "pls_view demo_serde demo_view demo_db0 = al_empty"
  by (simp add: pls_view_def demo_db0_def demo_view_def decoded_log_def bt_map_def al_empty_def
      decoded_meta_def)

lemma demo_entry_index [simp]: "e_index (demo_entry n) = n"
  by (simp add: demo_entry_def demo_log_id_def)

lemma demo_entry_eq [simp]: "demo_entry m = demo_entry n \<longleftrightarrow> m = n"
  by (metis demo_entry_index)

lemma demo_log_id_eq [simp]: "demo_log_id m = demo_log_id n \<longleftrightarrow> m = n"
  by (metis demo_entry_def demo_entry_eq)

lemma demo_log_id_index [simp]: "lg_index (demo_log_id n) = n"
  by (simp add: demo_log_id_def)

lemmas demo_eval = demo_redb_def demo_serde_def demo_db0_def demo_view_def settle_def bt_range_def
  bt_remove_def bt_last_def ok_keys_def map_filter_def Let_def META_VOTE_def META_LAST_PURGED_def

text \<open>The two databases the witnesses reach.\<close>

definition demo_db3 :: demo_db where
  "demo_db3 = ([(1, [1]), (2, [2]), (3, [3])], Map.empty)"

lemma demo_append3:
  "pls_append demo_redb demo_serde [demo_entry 1, demo_entry 2, demo_entry 3] demo_db0 =
     (Inr Flushed, demo_db3)"
  by (simp add: pls_append_def demo_eval demo_db3_def)

lemma demo_inv3: "pls_inv demo_redb demo_serde demo_view demo_db3"
proof -
  have "pls_exec demo_redb demo_serde (Append [demo_entry 1, demo_entry 2, demo_entry 3]) demo_db0 =
      (Inr (), demo_db3)"
    by (simp add: demo_append3)
  from pls.exec_invar [OF demo_inv this] show ?thesis .
qed

lemma demo_truncate: "pls_truncate demo_redb (demo_log_id 2) demo_db3 = (Inr (), ([(1, [1])], Map.empty))"
  by (simp add: pls_truncate_def demo_eval demo_db3_def)

lemma demo_purge:
  "pls_purge demo_redb demo_serde (demo_log_id 3) demo_db3 = (Inr (), ([], [META_LAST_PURGED \<mapsto> [3]]))"
  by (simp add: pls_purge_def demo_eval demo_db3_def)

section \<open>Properties of the log stores\<close>



lemma ls_exec_total: "\<exists>s'. ls_exec op s = (Inr (), s')"
  by (cases op) (simp_all add: ls_op_defs)

lemma ls_run_total: "\<exists>s'. run_ops ls_exec ops s = Inr s'"
proof (induction ops arbitrary: s)
  case (Cons op ops)
  obtain t where "ls_exec op s = (Inr (), t)" using ls_exec_total by blast
  with Cons.IH [of t] show ?case by simp
qed simp







text \<open>
  The persistent store reports no last log id once a purge has emptied the log, although the
  purge mark is set: the last log id does not fall back to the last purged one.
\<close>

lemma log_state_after_full_purge:
  assumes "pls_inv api c v db" "pls_purge api c i db = (Inr (), db')"
    and "\<forall>k \<in> dom (al_entries (pls_view c v db)). k \<le> lg_index i"
    and "pls_get_log_state api c db' = Inr st"
  shows "st = \<lparr>last_purged_log_id = Some i, last_log_id = None\<rparr>"
proof -
  have ex: "pls_exec api c (Purge i) db = (Inr (), db')" using assms(2) by simp
  have "pls_view c v db' = al_purge i (pls_view c v db)"
    using pls.exec_ok [OF assms(1) ex] by simp
  moreover have "al_entries (al_purge i (pls_view c v db)) = Map.empty"
  proof
    fix x
    have "x \<notin> dom (al_entries (pls_view c v db))" if "lg_index i < x"
      using assms(3) that by (meson leD)
    then show "al_entries (al_purge i (pls_view c v db)) x = None"
      by (auto simp: al_purge_def restrict_map_def domIff)
  qed
  moreover have "al_purged (al_purge i (pls_view c v db)) = Some i"
    by (simp add: al_purge_def)
  ultimately show ?thesis
    using pls.state_ok [OF pls.exec_invar [OF assms(1) ex] assms(4)]
    by (cases st) (auto simp: al_last_def split: option.splits)
qed

lemma log_state_after_full_purge_instance:
  "pls_get_log_state demo_redb demo_serde ([], [META_LAST_PURGED \<mapsto> [3]]) =
     Inr \<lparr>last_purged_log_id = Some (demo_log_id 3), last_log_id = None\<rparr>"
proof -
  have read: "pls_get_log_state demo_redb demo_serde ([], [META_LAST_PURGED \<mapsto> [3]]) =
      Inr \<lparr>last_purged_log_id = Some (demo_log_id 3), last_log_id = None\<rparr>"
    by (simp add: pls_get_log_state_def read_meta_def demo_eval)
  have "\<forall>k \<in> dom (al_entries (pls_view demo_serde demo_view demo_db3)). k \<le> lg_index (demo_log_id 3)"
    by (auto simp: pls_view_def decoded_log_def demo_view_def demo_db3_def bt_map_def word_le_nat_alt)
  from log_state_after_full_purge [OF demo_inv3 demo_purge this read] read show ?thesis by simp
qed

definition demo_redb_failing :: "(demo_db, demo_db) redb" where
  "demo_redb_failing = demo_redb\<lparr>log_remove := (\<lambda>k t. Inl ''storage error'')\<rparr>"

text \<open>
  Truncation ignores the failure of a removal: there is a database that meets its
  specification, in which every removal fails, where truncating from index 2 returns Ok and the
  entries from index 2 on are still there. A caller that asked for the entries of an old leader
  to be dropped is told it worked.
\<close>

lemma truncate_ok_though_entries_remain:
  "redb_laws demo_redb_failing demo_view \<and>
   pls_truncate demo_redb_failing (demo_log_id 2) demo_db3 = (Inr (), demo_db3) \<and>
   al_entries (pls_view demo_serde demo_view demo_db3) 2 = Some (demo_entry 2)"
proof (intro conjI)
  show "redb_laws demo_redb_failing demo_view"
    using demo_redb_laws by (simp add: redb_laws_def demo_redb_failing_def)
  show "pls_truncate demo_redb_failing (demo_log_id 2) demo_db3 = (Inr (), demo_db3)"
    by (simp add: pls_truncate_def demo_redb_failing_def demo_eval demo_db3_def)
  show "al_entries (pls_view demo_serde demo_view demo_db3) 2 = Some (demo_entry 2)"
    by (simp add: pls_view_def decoded_log_def demo_view_def demo_db3_def bt_map_def demo_serde_def)
qed

text \<open>
  C30. Opening a store. Opening shard 0 over a legacy file and no shard file moves the file: the
  store holds exactly the legacy file's log and metadata, and the legacy path is gone. In every
  other case the legacy path is left as it was and the store holds what its own file held, or
  nothing when there was none; in all cases the store's file is the path of its shard.
\<close>

theorem pls_new_opens_or_migrates:
  assumes laws: "redb_laws api v" and new: "pls_new api io dd sid fs = Inr (db, fs')"
  shows "fs' (db_path dd sid) = Some (File db) \<and>
    (let legacy = dd @ [LOG_FILE];
         migrates = (sid = 0 \<and> path_exists fs legacy \<and> \<not> path_exists fs (db_path dd 0));
         content = (if migrates then fs legacy else fs (db_path dd sid))
     in db_log v db = (case content of Some (File d) \<Rightarrow> db_log v d | _ \<Rightarrow> []) \<and>
        db_meta v db = (case content of Some (File d) \<Rightarrow> db_meta v d | _ \<Rightarrow> Map.empty) \<and>
        fs' legacy = (if migrates then None else fs legacy))"
proof -
  obtain fs1 where m: "migrate_legacy io dd sid fs = Inr fs1"
    and filed: "fs' (db_path dd sid) = Some (File db)"
    and tables: "db_log v db = (case fs1 (db_path dd sid) of Some (File d) \<Rightarrow> db_log v d | _ \<Rightarrow> [])"
      "db_meta v db = (case fs1 (db_path dd sid) of Some (File d) \<Rightarrow> db_meta v d | _ \<Rightarrow> Map.empty)"
    and rest: "\<And>p. p \<noteq> db_path dd sid \<Longrightarrow> p \<notin> set (ancestors (shard_dir dd sid)) \<Longrightarrow> fs' p = fs1 p"
    by (rule pls_new_tables [OF laws new]) (rule that; assumption?; simp)
  have "dd @ [LOG_FILE] \<noteq> db_path dd sid" by (simp add: db_path_def shard_dir_def)
  then have legacy: "fs' (dd @ [LOG_FILE]) = fs1 (dd @ [LOG_FILE])" by (rule rest) simp
  show ?thesis
  proof (cases "sid = 0 \<and> path_exists fs (dd @ [LOG_FILE]) \<and> \<not> path_exists fs (db_path dd 0)")
    case True
    with m migrate_legacy_moves [of io dd fs fs1] filed tables legacy show ?thesis
      by (simp add: Let_def)
  next
    case False
    then have "fs1 = fs" using m migrate_legacy_noop [of sid fs dd io] by auto
    with False filed tables legacy show ?thesis by (simp only: Let_def if_False)
  qed
qed

definition demo_io :: fs_io where
  "demo_io = \<lparr>mkdir_error = (\<lambda>p. None), rename_error = (\<lambda>p q. None)\<rparr>"

theorem pls_new_opens_or_migrates_witness:
  "\<exists>fs'. pls_new demo_redb demo_io [''data''] 0 [[''data'', LOG_FILE] \<mapsto> File demo_db3] =
       Inr (demo_db3, fs') \<and>
     fs' [''data'', LOG_FILE] = None \<and> fs' (db_path [''data''] 0) = Some (File demo_db3)"
proof -
  let ?fs = "[[''data'', LOG_FILE] \<mapsto> File demo_db3]"
  obtain fs' where new: "pls_new demo_redb demo_io [''data''] 0 ?fs = Inr (demo_db3, fs')"
    by (simp add: pls_new_def migrate_legacy_def create_dir_all_def fs_rename_def demo_io_def
        path_exists_def below_def ancestors_def db_path_def shard_dir_def LOG_FILE_def
        open_database_def demo_redb_def Let_def eval_nat_numeral)
  from pls_new_opens_or_migrates [OF demo_redb_laws new] new show ?thesis
    by (simp add: Let_def path_exists_def db_path_def shard_dir_def)
qed

end
