(* ===== verification/Raft_Pool.thy ===== *)
theory Raft_Pool
  imports State_Machine Forwarder Network Config Log_Store_Files "HOL-Library.AList"
begin

text \<open>
  The pool of Raft groups, \<open>raft/mod.rs\<close>: one group per shard, the router, and the operations
  the connections and the management API call. A group's consensus core is a value of type
  \<open>'r\<close>, driven through the calls of \<open>raft_api\<close>.
\<close>

section \<open>The consensus library\<close>

record raft_config =
  cluster_name :: string
  heartbeat_interval :: u64
  election_timeout_min :: u64
  election_timeout_max :: u64

record raft_metrics =
  rm_state :: string
  rm_current_leader :: "u64 option"
  rm_vote :: vote
  rm_last_applied :: "log_id option"
  rm_membership_config :: stored_membership

datatype raft_error =
    Forward_To_Leader "u64 option" "basic_node option"
  | Change_Membership_Error string
  | Fatal string

record 'r raft_api =
  raft_validate :: "raft_config \<Rightarrow> string + raft_config"
  client_write :: "reducer_call_request \<Rightarrow> 'r \<Rightarrow> (raft_error + unit) \<times> 'r"
  ensure_linearizable :: "'r \<Rightarrow> (string + unit) \<times> 'r"
  raft_initialize :: "(u64, basic_node) btree_map \<Rightarrow> 'r \<Rightarrow> (string + unit) \<times> 'r"
  add_learner :: "u64 \<Rightarrow> basic_node \<Rightarrow> bool \<Rightarrow> 'r \<Rightarrow> (string + unit) \<times> 'r"
  change_membership :: "u64 set \<Rightarrow> bool \<Rightarrow> 'r \<Rightarrow> (string + unit) \<times> 'r"
  raft_metrics_of :: "'r \<Rightarrow> raft_metrics"

text \<open>Everything a pool calls that is not its own code.\<close>

record ('r, 'db, 'tx, 'cl, 'cert) libs =
  lib_raft :: "'r raft_api"
  lib_raft_new :: "u64 \<Rightarrow> raft_config \<Rightarrow> 'cl network_factory \<Rightarrow> 'db \<Rightarrow> string + 'r"
  lib_redb :: "('db, 'tx) redb"
  lib_io :: fs_io
  lib_read_file :: "string \<Rightarrow> string + bytes"
  lib_http :: "('cl, 'cert) http_client_lib"

text \<open>\<open>membership().voter_ids()\<close>: the voters of every configuration, collected into a set.\<close>

definition voter_ids :: "raft_metrics \<Rightarrow> u64 set" where
  "voter_ids m = \<Union> (set (configs (sm_membership (rm_membership_config m))))"

section \<open>Peers\<close>

definition parse_peer :: "string \<Rightarrow> (u64 \<times> basic_node) option" where
  "parse_peer peer =
     (case split_once (CHR ''='') peer of
        Some (id_str, a) \<Rightarrow>
          (case parse_u64 id_str of Inr i \<Rightarrow> Some (i, \<lparr>addr = a\<rparr>) | Inl e \<Rightarrow> None)
      | None \<Rightarrow> None)"

fun parse_peers_from :: "(u64, basic_node) btree_map \<Rightarrow> string list \<Rightarrow> (u64, basic_node) btree_map" where
  "parse_peers_from m [] = m"
| "parse_peers_from m (peer # ps) =
     parse_peers_from (case parse_peer peer of Some (i, n) \<Rightarrow> bt_insert i n m | None \<Rightarrow> m) ps"

definition parse_peers :: "string list \<Rightarrow> (u64, basic_node) btree_map" where
  "parse_peers ps = parse_peers_from [] ps"

section \<open>The pool\<close>

text \<open>
  The forwarder task belongs to the shard it was spawned for. The hash map of shards is an
  association list.
\<close>

record 'r shard_state =
  raft :: 'r
  state_machine :: state_machine_store
  db_path_tx :: "string watch"
  fwd_task :: "forwarder_task option"

record 'r raft_pool =
  pool_config :: node_config
  pool_peers :: "(u64, basic_node) btree_map"
  shards :: "(shard_id \<times> 'r shard_state) list"
  router :: shard_router

definition raft_config_of :: raft_config where
  "raft_config_of =
     \<lparr>cluster_name = ''rafttimedb'', heartbeat_interval = 200, election_timeout_min = 1000,
      election_timeout_max = 2000\<rparr>"

text \<open>\<open>Path::new\<close> on a configured directory: the components of the path.\<close>

definition path_of :: "string \<Rightarrow> path" where
  "path_of s =
     (let parts = filter (\<lambda>p. p \<noteq> [] \<and> p \<noteq> ''.'') (splitn (Suc (length s)) (CHR ''/'') s)
      in if s \<noteq> [] \<and> hd s = CHR ''/'' then ''/'' # parts else parts)"

datatype create_error = Config_Invalid string | Ca_Unreadable string | Store_Failed fault | Raft_Failed string

definition create_shard_state ::
    "('r, 'db, 'tx, 'cl, 'cert) libs \<Rightarrow> node_config \<Rightarrow> shard_id \<Rightarrow> 'db fs \<Rightarrow>
     (create_error + 'r shard_state) \<times> 'db fs" where
  "create_shard_state l config sid fs =
     (case raft_validate (lib_raft l) raft_config_of of
        Inl e \<Rightarrow> (Inl (Config_Invalid e), fs)
      | Inr rc \<Rightarrow>
     (case (case tls_ca_cert config of
              None \<Rightarrow> Inr None
            | Some ca_path \<Rightarrow> map_sum id Some (lib_read_file l ca_path)) of
        Inl e \<Rightarrow> (Inl (Ca_Unreadable e), fs)
      | Inr ca_cert_pem \<Rightarrow>
     let nf = network_factory_new (lib_http l) (tls_enabled config) ca_cert_pem sid in
     (case pls_new (lib_redb l) (lib_io l) (path_of (data_dir config)) sid fs of
        Inl (e, fs') \<Rightarrow> (Inl (Store_Failed e), fs')
      | Inr (db, fs') \<Rightarrow>
     (case lib_raft_new l (node_id config) rc nf db of
        Inl e \<Rightarrow> (Inl (Raft_Failed e), fs')
      | Inr r \<Rightarrow>
          (Inr \<lparr>raft = r, state_machine = sm_new, db_path_tx = watch_new [], fwd_task = None\<rparr>, fs')))))"

text \<open>Setting up the forwarder of a new shard: its channel, and the task subscribed to the path.\<close>

definition setup_forwarder :: "node_config \<Rightarrow> 'r shard_state \<Rightarrow> 'r shard_state" where
  "setup_forwarder config st =
     (let st = st\<lparr>state_machine := set_forwarder channel_new (state_machine st)\<rparr>;
          (seen, tx) = watch_subscribe (db_path_tx st)
      in st\<lparr>db_path_tx := tx, fwd_task := Some (spawn_forwarder (node_id config) (stdb_url config) seen)\<rparr>)"

definition pool_new ::
    "('r, 'db, 'tx, 'cl, 'cert) libs \<Rightarrow> node_config \<Rightarrow> 'db fs \<Rightarrow> (create_error + 'r raft_pool) \<times> 'db fs" where
  "pool_new l config fs =
     (case create_shard_state l config 0 fs of
        (Inl e, fs') \<Rightarrow> (Inl e, fs')
      | (Inr st, fs') \<Rightarrow>
          let st = st\<lparr>state_machine := set_shard_config_tx channel_new (state_machine st)\<rparr>;
              st = setup_forwarder config st
          in (Inr \<lparr>pool_config = config, pool_peers = parse_peers (peers config),
                   shards = [(0, st)], router = router_new\<rparr>, fs'))"

definition get_raft :: "shard_id \<Rightarrow> 'r raft_pool \<Rightarrow> 'r option" where
  "get_raft sid p = map_option raft (map_of (shards p) sid)"

definition get_state_machine :: "shard_id \<Rightarrow> 'r raft_pool \<Rightarrow> state_machine_store option" where
  "get_state_machine sid p = map_option state_machine (map_of (shards p) sid)"

text \<open>A call on a shared handle changes the group it belongs to.\<close>

definition set_raft :: "shard_id \<Rightarrow> 'r \<Rightarrow> 'r raft_pool \<Rightarrow> 'r raft_pool" where
  "set_raft sid r p = p\<lparr>shards := AList.map_entry sid (\<lambda>st. st\<lparr>raft := r\<rparr>) (shards p)\<rparr>"

definition get_current_members :: "'r raft_api \<Rightarrow> shard_id \<Rightarrow> 'r raft_pool \<Rightarrow> (u64, basic_node) btree_map" where
  "get_current_members api sid p =
     (case map_of (shards p) sid of
        Some st \<Rightarrow>
          fold (\<lambda>i m. if i = node_id (pool_config p) then bt_insert i \<lparr>addr = raft_addr (pool_config p)\<rparr> m
                      else case bt_get i (pool_peers p) of Some n \<Rightarrow> bt_insert i n m | None \<Rightarrow> m)
            (sorted_list_of_set (voter_ids (raft_metrics_of api (raft st)))) []
      | None \<Rightarrow> [])"

definition handle_shard_config ::
    "('r, 'db, 'tx, 'cl, 'cert) libs \<Rightarrow> shard_config_command \<Rightarrow> 'r raft_pool \<times> 'db fs \<Rightarrow> 'r raft_pool \<times> 'db fs" where
  "handle_shard_config l cmd pf =
     (let (p, fs) = pf; api = lib_raft l in
      case cmd of
        CreateShard sid \<Rightarrow>
          if map_of (shards p) sid \<noteq> None then (p, fs)
          else
            (case create_shard_state l (pool_config p) sid fs of
               (Inl e, fs') \<Rightarrow> (p, fs')
             | (Inr st, fs') \<Rightarrow>
                 let st = setup_forwarder (pool_config p) st;
                     p = p\<lparr>shards := AList.update sid st (shards p)\<rparr>
                 in (case get_raft 0 p of
                       None \<Rightarrow> (p, fs')
                     | Some raft0 \<Rightarrow>
                         (case ensure_linearizable api raft0 of
                            (Inl e, raft0') \<Rightarrow> (set_raft 0 raft0' p, fs')
                          | (Inr _, raft0') \<Rightarrow>
                              let p = set_raft 0 raft0' p;
                                  members = get_current_members api 0 p
                              in (case get_raft sid p of
                                    None \<Rightarrow> (p, fs')
                                  | Some new_raft \<Rightarrow>
                                      (set_raft sid (snd (raft_initialize api members new_raft)) p, fs')))))
      | AddRoute module_name sid \<Rightarrow> (p\<lparr>router := add_route module_name sid (router p)\<rparr>, fs)
      | RemoveRoute module_name \<Rightarrow> (p\<lparr>router := snd (remove_route module_name (router p))\<rparr>, fs))"

section \<open>Public operations\<close>

definition route_module :: "string \<Rightarrow> 'r raft_pool \<Rightarrow> shard_id" where
  "route_module module_name p = route (router p) module_name"

definition send_db_path :: "shard_id \<Rightarrow> string \<Rightarrow> 'r raft_pool \<Rightarrow> 'r raft_pool" where
  "send_db_path sid path p =
     p\<lparr>shards := AList.map_entry sid (\<lambda>st. st\<lparr>db_path_tx := snd (watch_send path (db_path_tx st))\<rparr>) (shards p)\<rparr>"

text \<open>
  Proposing a write. \<open>post\<close> is the HTTP request to another node and returns the status of its
  response; the requests made are part of the result. The latency timer observes once on every
  path, because dropping it records an observation.
\<close>

type_synonym http_status = "16 word"
type_synonym http_post = "string \<Rightarrow> reducer_call_request \<Rightarrow> string + http_status"

definition is_success :: "http_status \<Rightarrow> bool" where
  "is_success st \<longleftrightarrow> 200 \<le> st \<and> st < 300"

datatype propose_error =
    Shard_Not_Found shard_id
  | Leader_Forward_Failed string
  | Leader_Forward_Returned http_status
  | Raft_Error raft_error

definition write_url :: "node_config \<Rightarrow> basic_node \<Rightarrow> shard_id \<Rightarrow> string" where
  "write_url config leader sid =
     http_scheme config @ ''://'' @ addr leader @ ''/cluster/'' @ to_string sid @ ''/write''"

definition propose_write ::
    "'r raft_api \<Rightarrow> http_post \<Rightarrow> shard_id \<Rightarrow> bytes \<Rightarrow> 'r raft_pool \<times> metrics \<Rightarrow>
     (propose_error + unit) \<times> (string \<times> reducer_call_request) list \<times> 'r raft_pool \<times> metrics" where
  "propose_write api post sid data pm =
     (let (p, m) = pm; m = inc_writes m in
      case get_raft sid p of
        None \<Rightarrow> (Inl (Shard_Not_Found sid), [], p, observe_latency m)
      | Some r \<Rightarrow>
          let request = \<lparr>raw_message = data, origin_node_id = node_id (pool_config p)\<rparr> in
          (case client_write api request r of
             (Inr _, r') \<Rightarrow> (Inr (), [], set_raft sid r' p, observe_latency m)
           | (Inl err, r') \<Rightarrow>
               let p = set_raft sid r' p in
               (case err of
                  Forward_To_Leader leader_id (Some leader_node) \<Rightarrow>
                    let url = write_url (pool_config p) leader_node sid;
                        forward_request = \<lparr>raw_message = data, origin_node_id = node_id (pool_config p)\<rparr>
                    in ((case post url forward_request of
                           Inl e \<Rightarrow> Inl (Leader_Forward_Failed e)
                         | Inr status \<Rightarrow>
                             if is_success status then Inr () else Inl (Leader_Forward_Returned status)),
                        [(url, forward_request)], p, observe_latency m)
                | _ \<Rightarrow> (Inl (Raft_Error err), [], p, observe_latency m))))"

definition is_leader :: "'r raft_api \<Rightarrow> shard_id \<Rightarrow> 'r raft_pool \<Rightarrow> bool \<times> 'r raft_pool" where
  "is_leader api sid p =
     (case get_raft sid p of
        Some r \<Rightarrow> (case ensure_linearizable api r of (res, r') \<Rightarrow> (is_ok res, set_raft sid r' p))
      | None \<Rightarrow> (False, p))"

definition current_leader :: "'r raft_api \<Rightarrow> shard_id \<Rightarrow> 'r raft_pool \<Rightarrow> (u64 \<times> string) option" where
  "current_leader api sid p =
     (case map_of (shards p) sid of
        None \<Rightarrow> None
      | Some st \<Rightarrow>
          (case rm_current_leader (raft_metrics_of api (raft st)) of
             None \<Rightarrow> None
           | Some leader_id \<Rightarrow>
               if leader_id = node_id (pool_config p) then Some (leader_id, raft_addr (pool_config p))
               else map_option (\<lambda>n. (leader_id, addr n)) (bt_get leader_id (pool_peers p))))"

definition update_metrics :: "'r raft_api \<Rightarrow> 'r raft_pool \<Rightarrow> metrics \<Rightarrow> metrics" where
  "update_metrics api p m =
     (case map_of (shards p) 0 of
        Some st \<Rightarrow>
          let rm = raft_metrics_of api (raft st);
              leads = (rm_current_leader rm = Some (node_id (pool_config p)))
          in m\<lparr>RAFT_TERM := lid_term (v_leader_id (rm_vote rm)), RAFT_IS_LEADER := (if leads then 1 else 0)\<rparr>
      | None \<Rightarrow> m)"

definition list_shards :: "'r raft_pool \<Rightarrow> shard_id list" where
  "list_shards p = sort (map fst (shards p))"

definition get_routes :: "'r raft_pool \<Rightarrow> string \<rightharpoonup> shard_id" where
  "get_routes p = routes (router p)"

fun add_node_loop ::
    "'r raft_api \<Rightarrow> u64 \<Rightarrow> string \<Rightarrow> shard_id list \<Rightarrow> 'r raft_pool \<Rightarrow> (string + unit) \<times> 'r raft_pool" where
  "add_node_loop api nid a [] p = (Inr (), p)"
| "add_node_loop api nid a (sid # sids) p =
     (case get_raft sid p of
        None \<Rightarrow> (Inl (''shard '' @ to_string sid @ '' not found''), p)
      | Some r \<Rightarrow>
     (case add_learner api nid \<lparr>addr = a\<rparr> True r of
        (Inl e, r1) \<Rightarrow> (Inl (''add_learner on shard '' @ to_string sid @ '': '' @ e), set_raft sid r1 p)
      | (Inr _, r1) \<Rightarrow>
          let voters = insert nid (voter_ids (raft_metrics_of api r1)) in
          (case change_membership api voters False r1 of
             (Inl e, r2) \<Rightarrow>
               (Inl (''change_membership on shard '' @ to_string sid @ '': '' @ e), set_raft sid r2 p)
           | (Inr _, r2) \<Rightarrow> add_node_loop api nid a sids (set_raft sid r2 p))))"

definition add_node_all_shards ::
    "'r raft_api \<Rightarrow> u64 \<Rightarrow> string \<Rightarrow> 'r raft_pool \<Rightarrow> (string + unit) \<times> 'r raft_pool" where
  "add_node_all_shards api nid a p = add_node_loop api nid a (list_shards p) p"

fun remove_node_loop ::
    "'r raft_api \<Rightarrow> u64 \<Rightarrow> shard_id list \<Rightarrow> 'r raft_pool \<Rightarrow> (string + unit) \<times> 'r raft_pool" where
  "remove_node_loop api nid [] p = (Inr (), p)"
| "remove_node_loop api nid (sid # sids) p =
     (case get_raft sid p of
        None \<Rightarrow> (Inl (''shard '' @ to_string sid @ '' not found''), p)
      | Some r \<Rightarrow>
          let voters = Set.filter (\<lambda>i. i \<noteq> nid) (voter_ids (raft_metrics_of api r)) in
          (case change_membership api voters False r of
             (Inl e, r') \<Rightarrow>
               (Inl (''change_membership on shard '' @ to_string sid @ '': '' @ e), set_raft sid r' p)
           | (Inr _, r') \<Rightarrow> remove_node_loop api nid sids (set_raft sid r' p)))"

definition remove_node_all_shards ::
    "'r raft_api \<Rightarrow> u64 \<Rightarrow> 'r raft_pool \<Rightarrow> (string + unit) \<times> 'r raft_pool" where
  "remove_node_all_shards api nid p = remove_node_loop api nid (list_shards p) p"

section \<open>Background tasks\<close>

text \<open>
  The configuration listener spawned by \<open>new\<close> takes the next command from the channel of shard
  0's state machine and handles it. \<open>commit_entries\<close> is the consensus core of a shard applying
  committed entries to the state machine it shares with the pool.
\<close>

definition listener_step ::
    "('r, 'db, 'tx, 'cl, 'cert) libs \<Rightarrow> 'r raft_pool \<times> 'db fs \<Rightarrow> ('r raft_pool \<times> 'db fs) option" where
  "listener_step l pf =
     (case map_of (shards (fst pf)) 0 of
        None \<Rightarrow> None
      | Some st \<Rightarrow>
          (case shard_config_tx (state_machine st) of
             None \<Rightarrow> None
           | Some ch \<Rightarrow>
               (case ch_recv ch of
                  None \<Rightarrow> None
                | Some (cmd, ch') \<Rightarrow>
                    let st = st\<lparr>state_machine := (state_machine st)\<lparr>shard_config_tx := Some ch'\<rparr>\<rparr>;
                        p = (fst pf)\<lparr>shards := AList.update 0 st (shards (fst pf))\<rparr>
                    in Some (handle_shard_config l cmd (p, snd pf)))))"

definition commit_entries ::
    "shard_config_command from_slice \<Rightarrow> shard_id \<Rightarrow> entry list \<Rightarrow> 'r raft_pool \<times> metrics \<Rightarrow> 'r raft_pool \<times> metrics" where
  "commit_entries fs sid es pm =
     (case map_of (shards (fst pm)) sid of
        None \<Rightarrow> pm
      | Some st \<Rightarrow>
          let (r, sm', m') = sm_apply fs es (state_machine st, snd pm)
          in ((fst pm)\<lparr>shards := AList.update sid (st\<lparr>state_machine := sm'\<rparr>) (shards (fst pm))\<rparr>, m'))"

section \<open>What the consensus calls leave alone\<close>

text \<open>
  The frame of a pool is everything but the consensus cores: a call on a Raft handle keeps it.
\<close>

definition shard_frame :: "'r shard_state \<Rightarrow> state_machine_store \<times> string watch \<times> forwarder_task option" where
  "shard_frame st = (state_machine st, db_path_tx st, fwd_task st)"

definition pool_frame ::
    "'r raft_pool \<Rightarrow> node_config \<times> (u64, basic_node) btree_map \<times> shard_router \<times>
     (shard_id \<times> state_machine_store \<times> string watch \<times> forwarder_task option) list" where
  "pool_frame p = (pool_config p, pool_peers p, router p, map (map_prod id shard_frame) (shards p))"

lemma map_fst_map_entry [simp]: "map fst (AList.map_entry k f xs) = map fst xs"
  by (induction xs) auto

lemma map_entry_frame:
  "(\<And>st. shard_frame (f st) = shard_frame st) \<Longrightarrow>
   map (map_prod id shard_frame) (AList.map_entry k f xs) = map (map_prod id shard_frame) xs"
  by (induction xs) (auto simp: map_prod_def split: prod.splits)

lemma pool_frame_set_raft [simp]: "pool_frame (set_raft sid r p) = pool_frame p"
  by (simp add: pool_frame_def set_raft_def map_entry_frame shard_frame_def)

lemma map_of_set_raft:
  "map_of (shards (set_raft sid r p)) k =
     (if k = sid then map_option (\<lambda>st. st\<lparr>raft := r\<rparr>) (map_of (shards p) k) else map_of (shards p) k)"
  by (simp add: set_raft_def map_of_map_entry split: option.splits)

lemma get_raft_set_raft:
  "get_raft k (set_raft sid r p) =
     (if k = sid then map_option (\<lambda>_. r) (get_raft k p) else get_raft k p)"
  by (simp add: get_raft_def map_of_set_raft option.map_comp comp_def)

lemma set_raft_parts [simp]:
  "router (set_raft sid r p) = router p" "pool_config (set_raft sid r p) = pool_config p"
  "pool_peers (set_raft sid r p) = pool_peers p" "map fst (shards (set_raft sid r p)) = map fst (shards p)"
  by (simp_all add: set_raft_def)

lemma pool_frame_router: "pool_frame p = pool_frame q \<Longrightarrow> router p = router q"
  by (simp add: pool_frame_def)

lemma pool_frame_keys: "pool_frame p = pool_frame q \<Longrightarrow> map fst (shards p) = map fst (shards q)"
proof -
  assume "pool_frame p = pool_frame q"
  then have "map fst (map (map_prod id shard_frame) (shards p)) = map fst (map (map_prod id shard_frame) (shards q))"
    by (simp add: pool_frame_def)
  then show ?thesis by (simp add: comp_def)
qed

lemma map_of_shard_frame:
  "map_option shard_frame (map_of xs k) = map_of (map (map_prod id shard_frame) xs) k"
  by (induction xs) auto

lemma pool_frame_map_of:
  assumes "pool_frame p = pool_frame q"
  shows "map_option shard_frame (map_of (shards p) k) = map_option shard_frame (map_of (shards q) k)"
  using assms unfolding map_of_shard_frame pool_frame_def prod.inject by metis

lemma propose_write_frame:
  "propose_write api post sid data (p, m) = (res, out, p', m') \<Longrightarrow> pool_frame p' = pool_frame p"
  by (auto simp: propose_write_def Let_def split: option.splits prod.splits sum.splits raft_error.splits)

lemma is_leader_frame: "pool_frame (snd (is_leader api sid p)) = pool_frame p"
  by (simp add: is_leader_def split: option.splits prod.splits)

lemma add_node_frame: "pool_frame (snd (add_node_loop api nid a sids p)) = pool_frame p"
  by (induction sids arbitrary: p) (simp_all add: Let_def split: option.splits prod.splits sum.splits)

lemma remove_node_frame: "pool_frame (snd (remove_node_loop api nid sids p)) = pool_frame p"
  by (induction sids arbitrary: p) (simp_all add: Let_def split: option.splits prod.splits sum.splits)

section \<open>The routing table of the pool\<close>

lemma handle_create_router:
  "router (fst (handle_shard_config l (CreateShard sid) pf)) = router (fst pf)"
  by (auto simp: handle_shard_config_def Let_def split: prod.splits option.splits sum.splits)

interpretation pool_table: route_log "handle_shard_config l" "\<lambda>pf. routes (router (fst pf))"
  for l :: "('r, 'db, 'tx, 'cl, 'cert) libs"
  by unfold_locales
    (simp_all add: handle_create_router, simp_all add: handle_shard_config_def Let_def router_defs
      split: prod.splits)

end
