(* ===== verification/Pool_Demo.thy ===== *)
theory Pool_Demo
  imports Raft_Pool
begin

text \<open>
  A concrete consensus library and file system for the pool, with which the hypotheses of the
  theorems about pools are shown to hold together: a group that accepts every write while it
  leads and names node 2 as the leader otherwise.
\<close>

record demo_raft =
  dr_leads :: bool
  dr_log :: "reducer_call_request list"
  dr_voters :: "u64 set"

definition demo_leader2 :: basic_node where
  "demo_leader2 = \<lparr>addr = ''n2:4001''\<rparr>"

definition demo_api :: "demo_raft raft_api" where
  "demo_api =
     \<lparr>raft_validate = Inr,
      client_write = (\<lambda>q r. if dr_leads r then (Inr (), r\<lparr>dr_log := dr_log r @ [q]\<rparr>)
                            else (Inl (Forward_To_Leader (Some 2) (Some demo_leader2)), r)),
      ensure_linearizable = (\<lambda>r. (if dr_leads r then Inr () else Inl ''not leader'', r)),
      raft_initialize = (\<lambda>ms r. (Inr (), r\<lparr>dr_voters := set (bt_keys ms)\<rparr>)),
      add_learner = (\<lambda>i n b r. (Inr (), r)),
      change_membership = (\<lambda>vs b r. (Inr (), r\<lparr>dr_voters := vs\<rparr>)),
      raft_metrics_of = (\<lambda>r. \<lparr>rm_state = ''Leader'',
         rm_current_leader = Some (if dr_leads r then 1 else 2),
         rm_vote = demo_vote, rm_last_applied = None,
         rm_membership_config = \<lparr>sm_log_id = None,
           sm_membership = \<lparr>configs = [dr_voters r], nodes = []\<rparr>\<rparr>\<rparr>)\<rparr>"

definition demo_http :: "(unit, unit) http_client_lib" where
  "demo_http = \<lparr>from_pem = (\<lambda>b. Inr ()), build_client = (\<lambda>c. Inr ()), client_new = ()\<rparr>"

definition demo_libs :: "(demo_raft, demo_db, demo_db, unit, unit) libs" where
  "demo_libs =
     \<lparr>lib_raft = demo_api,
      lib_raft_new = (\<lambda>i c nf db. Inr \<lparr>dr_leads = True, dr_log = [], dr_voters = {1, 2}\<rparr>),
      lib_redb = demo_redb, lib_io = demo_io, lib_read_file = (\<lambda>p. Inl ''no such file''),
      lib_http = demo_http\<rparr>"

definition demo_config :: node_config where
  "demo_config =
     \<lparr>node_id = 1, listen_addr = ''0.0.0.0:3001'', raft_addr = ''n1:4001'', stdb_url = ''ws://db'',
      peers = [''2=n2:4001''], data_dir = ''data'', tls_cert = None, tls_key = None,
      tls_ca_cert = None\<rparr>"

definition demo_shard :: "bool \<Rightarrow> demo_raft shard_state" where
  "demo_shard leads =
     \<lparr>raft = \<lparr>dr_leads = leads, dr_log = [], dr_voters = {1, 2}\<rparr>,
      state_machine = set_forwarder channel_new (set_shard_config_tx channel_new sm_new),
      db_path_tx = \<lparr>w_value = [], w_version = 0, w_receivers = 1\<rparr>,
      fwd_task = Some (spawn_forwarder 1 ''ws://db'' 0)\<rparr>"

definition demo_pool :: "bool \<Rightarrow> demo_raft raft_pool" where
  "demo_pool leads =
     \<lparr>pool_config = demo_config, pool_peers = [(2, demo_leader2)], shards = [(0, demo_shard leads)],
      router = router_new\<rparr>"

definition demo_fs0 :: "demo_db fs" where
  "demo_fs0 = Map.empty"

lemma demo_parse_peers: "parse_peers [''2=n2:4001''] = [(2, demo_leader2)]"
  by (simp add: parse_peers_def parse_peer_def split_once_def parse_u64_def to_digit_def demo_leader2_def Let_def)

lemma demo_path: "path_of ''data'' = [''data'']"
  by (simp add: path_of_def split_once_def)

lemma demo_pls_new: "\<exists>fs'. pls_new demo_redb demo_io dd sid demo_fs0 = Inr (demo_db0, fs')"
proof -
  have mig: "migrate_legacy demo_io dd sid demo_fs0 = Inr demo_fs0"
    by (rule migrate_legacy_noop) (simp add: path_exists_def demo_fs0_def)
  have dir: "create_dir_all demo_io (shard_dir dd sid) demo_fs0 =
      Inr (\<lambda>p. if p \<in> set (ancestors (shard_dir dd sid)) then Some Dir else None)"
    by (simp add: create_dir_all_def demo_io_def demo_fs0_def list_ex_iff)
  show ?thesis
    by (simp add: pls_new_def mig dir open_database_def demo_redb_def demo_db0_def Let_def)
qed

lemma demo_new: "\<exists>fs'. pool_new demo_libs demo_config demo_fs0 = (Inr (demo_pool True), fs')"
proof -
  obtain fs' where "pls_new demo_redb demo_io [''data''] 0 demo_fs0 = Inr (demo_db0, fs')"
    using demo_pls_new by blast
  then show ?thesis
    by (simp add: pool_new_def create_shard_state_def demo_libs_def demo_api_def demo_config_def demo_path
        Let_def setup_forwarder_def watch_subscribe_def watch_new_def demo_pool_def demo_shard_def
        demo_parse_peers)
qed

end
