(* ===== verification/Handler.thy ===== *)
theory Handler
  imports Pool_Demo "HOL-Library.Sublist"
begin

text \<open>
  A client connection, \<open>websocket/handler.rs\<close> and \<open>websocket/mod.rs\<close>: the classification of
  messages by their tag byte, opening a connection, the two relay tasks and the end of the
  connection.
\<close>

section \<open>Messages and their classification\<close>

definition SUBSCRIBE :: u8 where "SUBSCRIBE = 0"
definition UNSUBSCRIBE :: u8 where "UNSUBSCRIBE = 1"
definition ONE_OFF_QUERY :: u8 where "ONE_OFF_QUERY = 2"
definition CALL_REDUCER :: u8 where "CALL_REDUCER = 3"
definition CALL_PROCEDURE :: u8 where "CALL_PROCEDURE = 4"

lemmas tag_defs = SUBSCRIBE_def UNSUBSCRIBE_def ONE_OFF_QUERY_def CALL_REDUCER_def CALL_PROCEDURE_def

datatype close_code = Away | Other_Code "16 word"

record close_frame =
  code :: close_code
  reason :: string

datatype message =
    Text string
  | Binary bytes
  | Ping bytes
  | Pong bytes
  | Close "close_frame option"

datatype message_kind = Write_Kind | Read_Kind | PassThrough

definition is_write_tag :: "u8 \<Rightarrow> bool" where
  "is_write_tag tag \<longleftrightarrow> tag = CALL_REDUCER \<or> tag = CALL_PROCEDURE"

definition is_read_tag :: "u8 \<Rightarrow> bool" where
  "is_read_tag tag \<longleftrightarrow> tag = SUBSCRIBE \<or> tag = UNSUBSCRIBE \<or> tag = ONE_OFF_QUERY"

definition is_known_tag :: "u8 \<Rightarrow> bool" where
  "is_known_tag tag \<longleftrightarrow> tag \<le> CALL_PROCEDURE"

fun classify_message :: "message \<Rightarrow> message_kind" where
  "classify_message (Binary (tag # rest)) = (if is_write_tag tag then Write_Kind else Read_Kind)"
| "classify_message _ = PassThrough"

section \<open>The close frame\<close>

definition leader_close_frame :: "'r raft_api \<Rightarrow> shard_id \<Rightarrow> 'r raft_pool \<Rightarrow> close_frame option" where
  "leader_close_frame api sid p =
     map_option (\<lambda>(leader_id, leader_addr).
         \<lparr>code = Away, reason = ''leader='' @ to_string leader_id @ '':'' @ leader_addr\<rparr>)
       (current_leader api sid p)"

section \<open>Opening a connection\<close>

text \<open>
  The two WebSocket connections of a client are values of types \<open>'c\<close> and \<open>'u\<close>; \<open>ws_lib\<close> has what
  the handshake yields (the path and query of the request URI, when it has one), the connection
  to SpacetimeDB, and sending on either side.
\<close>

record ('s, 'c, 'u) ws_lib =
  ws_accept :: "'s \<Rightarrow> string + (string option \<times> 'c)"
  ws_connect :: "string \<Rightarrow> string + 'u"
  up_send :: "message \<Rightarrow> 'u \<Rightarrow> (string + unit) \<times> 'u"
  cl_send :: "message \<Rightarrow> 'c \<Rightarrow> (string + unit) \<times> 'c"

text \<open>
  A connection is relayed by two spawned tasks; \<open>se_open\<close> says whether the handler itself is
  still waiting for one of them to end or for the shutdown signal.
\<close>

record ('c, 'u) session =
  se_shard :: shard_id
  se_client :: 'c
  se_upstream :: 'u
  se_inbound :: bool
  se_outbound :: bool
  se_open :: bool

definition choose_shard :: "string \<Rightarrow> 'r raft_pool \<Rightarrow> shard_id" where
  "choose_shard request_path p =
     (case extract_module_name request_path of
        Some name \<Rightarrow> route_module name p
      | None \<Rightarrow> 0)"

definition handle_client_open ::
    "('s, 'c, 'u) ws_lib \<Rightarrow> string \<Rightarrow> 's \<Rightarrow> 'r raft_pool \<Rightarrow> (string + ('c, 'u) session) \<times> 'r raft_pool" where
  "handle_client_open ws url stream p =
     (case ws_accept ws stream of
        Inl e \<Rightarrow> (Inl e, p)
      | Inr (uri_path, client_ws) \<Rightarrow>
          let request_path = (case uri_path of Some pq \<Rightarrow> pq | None \<Rightarrow> ''/'');
              upstream_url = url @ request_path;
              sid = choose_shard request_path p;
              p = send_db_path sid request_path p
          in (case ws_connect ws upstream_url of
                Inl e \<Rightarrow> (Inl e, p)
              | Inr upstream_ws \<Rightarrow>
                  (Inr \<lparr>se_shard = sid, se_client = client_ws, se_upstream = upstream_ws,
                        se_inbound = True, se_outbound = True, se_open = True\<rparr>, p)))"

section \<open>Relaying\<close>

text \<open>
  One turn of the inbound loop, on the next item of the client's stream: whether the loop goes
  on, the requests sent to other nodes, and whether the message was handed to SpacetimeDB.
\<close>

definition forward_upstream :: "('s, 'c, 'u) ws_lib \<Rightarrow> message \<Rightarrow> 'u \<Rightarrow> bool \<times> 'u" where
  "forward_upstream ws msg u = (case up_send ws msg u of (res, u') \<Rightarrow> (is_ok res, u'))"

definition inbound_step ::
    "'r raft_api \<Rightarrow> http_post \<Rightarrow> ('s, 'c, 'u) ws_lib \<Rightarrow> shard_id \<Rightarrow> (string + message) \<Rightarrow>
     'r raft_pool \<times> metrics \<times> 'u \<Rightarrow>
     bool \<times> (string \<times> reducer_call_request) list \<times> message list \<times> 'r raft_pool \<times> metrics \<times> 'u" where
  "inbound_step api post ws sid item st =
     (let (p, m, u) = st in
      case item of
        Inl e \<Rightarrow> (False, [], [], p, m, u)
      | Inr msg \<Rightarrow>
          (case classify_message msg of
             Write_Kind \<Rightarrow>
               (case msg of
                  Binary data \<Rightarrow>
                    (case propose_write api post sid data (p, m) of
                       (Inl e, out, p, m) \<Rightarrow> (True, out, [], p, m, u)
                     | (Inr _, out, p, m) \<Rightarrow>
                         let (go, u) = forward_upstream ws msg u in (go, out, [msg], p, m, u))
                | _ \<Rightarrow> let (go, u) = forward_upstream ws msg u in (go, [], [msg], p, m, u))
           | Read_Kind \<Rightarrow>
               let m = inc_reads m; (go, u) = forward_upstream ws msg u in (go, [], [msg], p, m, u)
           | PassThrough \<Rightarrow>
               let (go, u) = forward_upstream ws msg u in (go, [], [msg], p, m, u)))"

fun inbound ::
    "'r raft_api \<Rightarrow> http_post \<Rightarrow> ('s, 'c, 'u) ws_lib \<Rightarrow> shard_id \<Rightarrow> (string + message) list \<Rightarrow>
     'r raft_pool \<times> metrics \<times> 'u \<Rightarrow>
     (string \<times> reducer_call_request) list \<times> message list \<times> 'r raft_pool \<times> metrics \<times> 'u" where
  "inbound api post ws sid [] st = ([], [], st)"
| "inbound api post ws sid (item # items) st =
     (case inbound_step api post ws sid item st of
        (go, out, fwd, st) \<Rightarrow>
          if go then (case inbound api post ws sid items st of (out', fwd', st) \<Rightarrow> (out @ out', fwd @ fwd', st))
          else (out, fwd, st))"

definition outbound_step :: "('s, 'c, 'u) ws_lib \<Rightarrow> (string + message) \<Rightarrow> 'c \<Rightarrow> bool \<times> 'c" where
  "outbound_step ws item c =
     (case item of
        Inl e \<Rightarrow> (False, c)
      | Inr msg \<Rightarrow> (case cl_send ws msg c of (res, c') \<Rightarrow> (is_ok res, c')))"

section \<open>The life of a connection\<close>

text \<open>
  The handler waits for the first of three: the inbound task ends, the outbound task ends, the
  shutdown signal fires. Then it returns, and the connection gauge goes down. The tasks it
  spawned are not aborted, so the one that did not end keeps relaying.
\<close>

datatype ses_event = From_Client "string + message" | Client_Closed | From_Upstream "string + message" | Upstream_Closed | Shutdown

definition handler_returns :: "('c, 'u) session \<Rightarrow> metrics \<Rightarrow> ('c, 'u) session \<times> metrics" where
  "handler_returns s m = (if se_open s then (s\<lparr>se_open := False\<rparr>, dec_connections m) else (s, m))"

fun ses_step ::
    "'r raft_api \<Rightarrow> http_post \<Rightarrow> ('s, 'c, 'u) ws_lib \<Rightarrow> ses_event \<Rightarrow>
     ('c, 'u) session \<times> 'r raft_pool \<times> metrics \<Rightarrow> (('c, 'u) session \<times> 'r raft_pool \<times> metrics) option" where
  "ses_step api post ws (From_Client item) (s, p, m) =
     (if se_inbound s then
        (case inbound_step api post ws (se_shard s) item (p, m, se_upstream s) of
           (go, out, fwd, p, m, u) \<Rightarrow>
             let s = s\<lparr>se_upstream := u\<rparr> in
             if go then Some (s, p, m)
             else (case handler_returns (s\<lparr>se_inbound := False\<rparr>) m of (s, m) \<Rightarrow> Some (s, p, m)))
      else None)"
| "ses_step api post ws Client_Closed (s, p, m) =
     (if se_inbound s then
        (case handler_returns (s\<lparr>se_inbound := False\<rparr>) m of (s, m) \<Rightarrow> Some (s, p, m))
      else None)"
| "ses_step api post ws (From_Upstream item) (s, p, m) =
     (if se_outbound s then
        (case outbound_step ws item (se_client s) of
           (go, c) \<Rightarrow>
             let s = s\<lparr>se_client := c\<rparr> in
             if go then Some (s, p, m)
             else (case handler_returns (s\<lparr>se_outbound := False\<rparr>) m of (s, m) \<Rightarrow> Some (s, p, m)))
      else None)"
| "ses_step api post ws Upstream_Closed (s, p, m) =
     (if se_outbound s then
        (case handler_returns (s\<lparr>se_outbound := False\<rparr>) m of (s, m) \<Rightarrow> Some (s, p, m))
      else None)"
| "ses_step api post ws Shutdown (s, p, m) =
     (if se_open s then
        let s = (case leader_close_frame api (se_shard s) p of
                   Some close_frame \<Rightarrow> s\<lparr>se_client := snd (cl_send ws (Close (Some close_frame)) (se_client s))\<rparr>
                 | None \<Rightarrow> s)
        in (case handler_returns s m of (s, m) \<Rightarrow> Some (s, p, m))
      else None)"

definition handle_client ::
    "('s, 'c, 'u) ws_lib \<Rightarrow> string \<Rightarrow> 's \<Rightarrow> 'r raft_pool \<times> metrics \<Rightarrow>
     (string + ('c, 'u) session) \<times> 'r raft_pool \<times> metrics" where
  "handle_client ws url stream pm =
     (let (p, m) = pm; m = inc_connections m in
      case handle_client_open ws url stream p of
        (Inl e, p) \<Rightarrow> (Inl e, p, dec_connections m)
      | (Inr s, p) \<Rightarrow> (Inr s, p, m))"

text \<open>
  The proxy keeps the configuration, the shared pool and a receiver of the shutdown flag, which is
  the version it has seen.
\<close>

record 'r proxy =
  px_config :: node_config
  px_pool :: "'r raft_pool"
  px_shutdown_rx :: nat

definition proxy_new :: "node_config \<Rightarrow> 'r raft_pool \<Rightarrow> nat \<Rightarrow> 'r proxy" where
  "proxy_new config pool shutdown_rx =
     \<lparr>px_config = config, px_pool = pool, px_shutdown_rx = shutdown_rx\<rparr>"

text \<open>
  \<open>Proxy::run\<close>: binding the listener may fail; then a failed accept ends the proxy with its error,
  the shutdown signal ends it normally, and an accepted stream is handed to a task of its own
  with the address of SpacetimeDB and a receiver of the shutdown flag.
\<close>

datatype 's accept_event = Accepted 's | Accept_Failed string | Proxy_Shutdown

fun proxy_loop :: "'r proxy \<Rightarrow> 's accept_event list \<Rightarrow> ('s \<times> string \<times> nat) list \<times> (string + unit) option" where
  "proxy_loop px [] = ([], None)"
| "proxy_loop px (Accepted stream # evs) =
     (let conn_shutdown = px_shutdown_rx px; url = stdb_url (px_config px)
      in case proxy_loop px evs of (ts, res) \<Rightarrow> ((stream, url, conn_shutdown) # ts, res))"
| "proxy_loop px (Accept_Failed e # evs) = ([], Some (Inl e))"
| "proxy_loop px (Proxy_Shutdown # evs) = ([], Some (Inr ()))"

definition proxy_run ::
    "(string \<Rightarrow> string + unit) \<Rightarrow> 'r proxy \<Rightarrow> 's accept_event list \<Rightarrow>
     ('s \<times> string \<times> nat) list \<times> (string + unit) option" where
  "proxy_run bind px evs =
     (case bind (listen_addr (px_config px)) of
        Inl e \<Rightarrow> ([], Some (Inl e))
      | Inr _ \<Rightarrow> proxy_loop px evs)"

text \<open>
  As long as nothing ends the proxy, every accepted stream gets a task, once and in order, and
  after its end no stream is accepted any more.
\<close>

lemma proxy_loop_accepts:
  "proxy_loop px (map Accepted ss @ evs) =
     (map (\<lambda>s. (s, stdb_url (px_config px), px_shutdown_rx px)) ss @ fst (proxy_loop px evs), snd (proxy_loop px evs))"
  by (induction ss) (simp_all add: Let_def split: prod.splits)

lemma proxy_ends:
  assumes "bind (listen_addr (px_config px)) = Inr ()" "ending = Accept_Failed e \<or> ending = Proxy_Shutdown"
  shows "proxy_run bind px (map Accepted ss @ ending # evs) =
    (map (\<lambda>s. (s, stdb_url (px_config px), px_shutdown_rx px)) ss,
     Some (if ending = Proxy_Shutdown then Inr () else Inl e))"
  using assms by (auto simp: proxy_run_def proxy_loop_accepts)

section \<open>Properties\<close>

text \<open>
  The tag byte alone decides. A message is a write exactly when it is binary with first byte
  3 or 4; it is passed through exactly when it is not binary or is empty; every other binary
  message is a read, whether or not its tag is a known one.
\<close>

lemma classify_message_exact:
  "(classify_message msg = Write_Kind \<longleftrightarrow> (\<exists>rest. msg = Binary (3 # rest) \<or> msg = Binary (4 # rest))) \<and>
   (classify_message msg = PassThrough \<longleftrightarrow> (\<nexists>tag rest. msg = Binary (tag # rest))) \<and>
   (classify_message msg = Read_Kind \<longleftrightarrow> (\<exists>tag rest. msg = Binary (tag # rest) \<and> tag \<noteq> 3 \<and> tag \<noteq> 4)) \<and>
   (is_known_tag tag \<longleftrightarrow> is_read_tag tag \<or> is_write_tag tag) \<and> \<not> (is_read_tag tag \<and> is_write_tag tag)"
proof -
  have tags: "tag \<le> 4 \<longleftrightarrow> tag = 0 \<or> tag = 1 \<or> tag = 2 \<or> tag = 3 \<or> tag = 4" for tag :: u8
  proof -
    have "tag \<le> 4 \<longleftrightarrow> unat tag \<in> {0, 1, 2, 3, 4}" by (auto simp: word_le_nat_alt)
    then show ?thesis by (auto simp: word_unat_eq_iff)
  qed
  have "classify_message msg = Write_Kind \<longleftrightarrow> (\<exists>rest. msg = Binary (3 # rest) \<or> msg = Binary (4 # rest))"
    "classify_message msg = PassThrough \<longleftrightarrow> (\<nexists>tag rest. msg = Binary (tag # rest))"
    "classify_message msg = Read_Kind \<longleftrightarrow> (\<exists>tag rest. msg = Binary (tag # rest) \<and> tag \<noteq> 3 \<and> tag \<noteq> 4)"
    by (cases msg rule: classify_message.cases; auto simp: is_write_tag_def tag_defs)+
  moreover have "is_known_tag tag \<longleftrightarrow> is_read_tag tag \<or> is_write_tag tag"
    "\<not> (is_read_tag tag \<and> is_write_tag tag)"
    by (auto simp: is_known_tag_def is_read_tag_def is_write_tag_def tag_defs tags)
  ultimately show ?thesis by blast
qed

text \<open>A consensus library that would refuse any request which is not a call.\<close>

definition calls_only :: "'r raft_api \<Rightarrow> 'r raft_api" where
  "calls_only api = api\<lparr>client_write := (\<lambda>q r.
     if first_byte (raw_message q) = Some 3 \<or> first_byte (raw_message q) = Some 4
     then client_write api q r else (Inl (Fatal ''not a call''), r))\<rparr>"

lemma propose_calls_only:
  "first_byte data = Some 3 \<or> first_byte data = Some 4 \<Longrightarrow>
   propose_write (calls_only api) post sid data pm = propose_write api post sid data pm"
  by (auto simp: propose_write_def calls_only_def Let_def split: option.splits prod.splits)

lemma inbound_step_calls_only:
  "inbound_step (calls_only api) post ws sid item st = inbound_step api post ws sid item st"
proof -
  have "propose_write (calls_only api) post sid data (p, m) = propose_write api post sid data (p, m)"
    if "classify_message (Binary data) = Write_Kind" for data p m
    using that by (intro propose_calls_only)
      (auto simp: is_write_tag_def tag_defs first_byte_def elim!: classify_message.elims split: if_splits)
  then show ?thesis
    by (simp add: inbound_step_def split: prod.splits sum.splits message_kind.splits message.splits)
qed

text \<open>
  C20. A client can put only calls into the replicated log. The inbound task of a connection
  behaves exactly as it would over a consensus library that refuses every request whose first
  byte is not 3 or 4; in particular no client message can be taken for a shard configuration
  command, whose first byte is 255.
\<close>

theorem clients_propose_only_calls:
  "inbound (calls_only api) post ws sid items st = inbound api post ws sid items st"
  by (induction items arbitrary: st) (simp_all add: inbound_step_calls_only split: prod.splits)


definition demo_ws :: "(unit, message list, message list) ws_lib" where
  "demo_ws =
     \<lparr>ws_accept = (\<lambda>s. Inr (Some ''/database/subscribe/game'', [])), ws_connect = (\<lambda>url. Inr []),
      up_send = (\<lambda>msg u. (Inr (), u @ [msg])), cl_send = (\<lambda>msg c. (Inr (), c @ [msg]))\<rparr>"


section \<open>Order of a client's messages\<close>

definition received :: "(string + message) list \<Rightarrow> message list" where
  "received items = List.map_filter (\<lambda>i. case i of Inl e \<Rightarrow> None | Inr msg \<Rightarrow> Some msg) items"

lemma received_simps [simp]:
  "received [] = []" "received (Inl e # items) = received items"
  "received (Inr msg # items) = msg # received items"
  by (simp_all add: received_def List.map_filter_def)

lemma inbound_step_fwd:
  assumes "inbound_step api post ws sid item st = (go, out, fwd, st')"
  shows "subseq fwd (received [item])"
    and "\<not> is_ok item \<Longrightarrow> \<not> go"
    and "is_ok item \<Longrightarrow> classify_message (projr item) \<noteq> Write_Kind \<Longrightarrow> fwd = received [item]"
  using assms
  by (auto simp: inbound_step_def split: prod.splits sum.splits message_kind.splits message.splits)

lemma inbound_step_goes_on:
  assumes "inbound_step api post ws sid (Inr msg) st = (go, out, fwd, st')"
    and "\<And>msg u. is_ok (fst (up_send ws msg u))"
  shows go
  using assms
  by (auto simp: inbound_step_def forward_upstream_def
      split: prod.splits sum.splits message_kind.splits message.splits)
    (metis fst_conv)+



section \<open>Connections\<close>

fun ses_run ::
    "'r raft_api \<Rightarrow> http_post \<Rightarrow> ('s, 'c, 'u) ws_lib \<Rightarrow> ses_event list \<Rightarrow>
     ('c, 'u) session \<times> 'r raft_pool \<times> metrics \<Rightarrow> (('c, 'u) session \<times> 'r raft_pool \<times> metrics) option" where
  "ses_run api post ws [] st = Some st"
| "ses_run api post ws (ev # evs) st =
     (case ses_step api post ws ev st of None \<Rightarrow> None | Some st' \<Rightarrow> ses_run api post ws evs st')"

text \<open>
  A connection keeps the shard it was opened with: a route added or removed later does not move
  the connections that are open.
\<close>

lemma ses_step_shard: "ses_step api post ws ev (s, p, m) = Some (s', p', m') \<Longrightarrow> se_shard s' = se_shard s"
  by (cases ev)
    (auto simp: handler_returns_def Let_def split: if_splits prod.splits option.splits)

lemma session_keeps_shard:
  "ses_run api post ws evs (s, p, m) = Some (s', p', m') \<Longrightarrow> se_shard s' = se_shard s"
proof (induction evs arbitrary: s p m)
  case (Cons ev evs)
  then obtain s1 p1 m1 where "ses_step api post ws ev (s, p, m) = Some (s1, p1, m1)"
    "ses_run api post ws evs (s1, p1, m1) = Some (s', p', m')"
    by (auto split: option.splits)
  with ses_step_shard Cons.IH show ?case by metis
qed simp

lemma propose_write_connections:
  "propose_write api post sid data (p, m) = (res, out, p', m') \<Longrightarrow> CONNECTIONS_ACTIVE m' = CONNECTIONS_ACTIVE m"
  by (auto simp: propose_write_def Let_def split: option.splits prod.splits sum.splits raft_error.splits)

lemma inbound_step_connections:
  "inbound_step api post ws sid item (p, m, u) = (go, out, fwd, p', m', u') \<Longrightarrow>
   CONNECTIONS_ACTIVE m' = CONNECTIONS_ACTIVE m"
  by (auto simp: inbound_step_def dest: propose_write_connections
      split: prod.splits sum.splits message_kind.splits message.splits)

lemma handler_returns_balance:
  "handler_returns s m = (s', m') \<Longrightarrow>
   CONNECTIONS_ACTIVE m' - (if se_open s' then 1 else 0) = CONNECTIONS_ACTIVE m - (if se_open s then 1 else 0)"
  by (auto simp: handler_returns_def split: if_splits)

lemma ses_step_balance:
  assumes "ses_step api post ws ev (s, p, m) = Some (s', p', m')"
  shows "CONNECTIONS_ACTIVE m' - (if se_open s' then 1 else 0) = CONNECTIONS_ACTIVE m - (if se_open s then 1 else 0)"
  using assms
proof (cases ev)
  case (From_Client item)
  obtain go out fwd p1 m1 u1 where step:
    "inbound_step api post ws (se_shard s) item (p, m, se_upstream s) = (go, out, fwd, p1, m1, u1)"
    by (metis surj_pair)
  with inbound_step_connections [OF step] From_Client assms show ?thesis
    by (auto simp: Let_def split: if_splits prod.splits dest!: handler_returns_balance)
qed (auto simp: Let_def split: if_splits prod.splits option.splits dest!: handler_returns_balance)

lemma ses_run_balance:
  "ses_run api post ws evs (s, p, m) = Some (s', p', m') \<Longrightarrow>
   CONNECTIONS_ACTIVE m' - (if se_open s' then 1 else 0) = CONNECTIONS_ACTIVE m - (if se_open s then 1 else 0)"
proof (induction evs arbitrary: s p m)
  case (Cons ev evs)
  then obtain s1 p1 m1 where "ses_step api post ws ev (s, p, m) = Some (s1, p1, m1)"
    "ses_run api post ws evs (s1, p1, m1) = Some (s', p', m')"
    by (auto split: option.splits)
  with ses_step_balance Cons.IH show ?case by metis
qed simp

text \<open>
  C32. The gauge of active connections is balanced. A connection that could not be opened leaves
  it as it was; an open one counts once from the start of its handler until the handler returns,
  whatever ended it, and never again, although the tasks it spawned may go on relaying.
\<close>

theorem connection_gauge_balanced:
  assumes "handle_client ws url stream (p, m) = (res, p1, m1)"
  shows "(\<forall>e. res = Inl e \<longrightarrow> CONNECTIONS_ACTIVE m1 = CONNECTIONS_ACTIVE m) \<and>
    (\<forall>s evs s' p' m'. res = Inr s \<longrightarrow> ses_run api post ws evs (s, p1, m1) = Some (s', p', m') \<longrightarrow>
      CONNECTIONS_ACTIVE m' = CONNECTIONS_ACTIVE m + (if se_open s' then 1 else 0))"
proof -
  have "CONNECTIONS_ACTIVE m1 = CONNECTIONS_ACTIVE m + 1 \<and> se_open s" if "res = Inr s" for s
    using assms that
    by (auto simp: handle_client_def handle_client_open_def Let_def split: prod.splits sum.splits)
  moreover have "CONNECTIONS_ACTIVE m1 = CONNECTIONS_ACTIVE m" if "res = Inl e" for e
    using assms that by (auto simp: handle_client_def Let_def split: prod.splits sum.splits)
  ultimately show ?thesis
    by (auto dest!: ses_run_balance simp: algebra_simps)
qed

theorem connection_gauge_balanced_witness:
  "\<exists>s p1 m1 s' p' m'. handle_client demo_ws ''ws://db'' () (demo_pool True, metrics_new) = (Inr s, p1, m1) \<and>
     ses_run demo_api (\<lambda>url q. Inr 200) demo_ws [Shutdown, From_Client (Inr (Binary [0]))] (s, p1, m1) = Some (s', p', m') \<and>
     CONNECTIONS_ACTIVE m' = CONNECTIONS_ACTIVE metrics_new"
proof -
  obtain s p1 m1 where h: "handle_client demo_ws ''ws://db'' () (demo_pool True, metrics_new) = (Inr s, p1, m1)"
    and s: "se_open s" "se_inbound s"
    by (simp add: handle_client_def handle_client_open_def demo_ws_def Let_def)
  obtain s2 p2 m2 where step1: "ses_step demo_api (\<lambda>url q. Inr 200) demo_ws Shutdown (s, p1, m1) = Some (s2, p2, m2)"
    and s2: "\<not> se_open s2" "se_inbound s2"
    using s by (cases "leader_close_frame demo_api (se_shard s) p1") (simp_all add: handler_returns_def)
  obtain s3 p3 m3 where step2: "ses_step demo_api (\<lambda>url q. Inr 200) demo_ws (From_Client (Inr (Binary [0]))) (s2, p2, m2) =
      Some (s3, p3, m3)" and s3: "\<not> se_open s3"
    using s2 by (simp add: inbound_step_def is_write_tag_def tag_defs forward_upstream_def demo_ws_def)
  have run: "ses_run demo_api (\<lambda>url q. Inr 200) demo_ws [Shutdown, From_Client (Inr (Binary [0]))] (s, p1, m1) = Some (s3, p3, m3)"
    using step1 step2 by simp
  have "CONNECTIONS_ACTIVE m3 = CONNECTIONS_ACTIVE metrics_new + (if se_open s3 then 1 else 0)"
    using connection_gauge_balanced [OF h, of demo_api "\<lambda>url q. Inr 200"] run by blast
  then have "CONNECTIONS_ACTIVE m3 = CONNECTIONS_ACTIVE metrics_new" using s3 by simp
  with h run show ?thesis by blast
qed

end
