(* ===== verification/Cluster.thy ===== *)
theory Cluster
  imports State_Machine Forwarder Handler "HOL-Library.Multiset" "HOL-Library.Option_ord"
begin

text \<open>
  One Raft group over all its nodes: the committed log, which the consensus library keeps the
  same everywhere, and on every node the state machine, the forwarder, the client connections
  and what SpacetimeDB has received. There is one module, so one database on each node. The steps
  are the operations of the other theories, in any interleaving. \<open>Cluster_State\<close> has what is
  true of the state machines in every run, \<open>Cluster_Databases\<close> what the databases receive.
\<close>

section \<open>Replicas and the committed log\<close>

text \<open>
  \<open>rp_applied\<close> is how far the library has applied the log here, \<open>rp_waiting\<close> the writes of this
  node's clients that are committed and whose \<open>propose_write\<close> has not returned yet, \<open>rp_sent\<close> those
  the connections handed to SpacetimeDB, and \<open>rp_db\<close> everything SpacetimeDB received, in order.
  The channel between the state machine and the forwarder is the one in the state machine.
\<close>

record replica =
  rp_sm :: state_machine_store
  rp_metrics :: metrics
  rp_fwd :: fwd_world
  rp_applied :: nat
  rp_waiting :: "bytes list"
  rp_sent :: "bytes list"
  rp_db :: "bytes list"

text \<open>
  \<open>cl_snapshots\<close> are the snapshots nodes have built; any of them may be on its way to another
  node. Serialisation, the order of hash maps and the text of leaders are parameters.
\<close>

record cluster =
  cl_log :: "entry list"
  cl_replicas :: "u64 \<Rightarrow> replica"
  cl_snapshots :: "snapshot list"

record cluster_lib =
  cl_config_from_slice :: "shard_config_command from_slice"
  cl_snap_to_vec :: "snapshot_data to_vec"
  cl_snap_from_slice :: "snapshot_data from_slice"
  cl_routes_order :: "(string \<rightharpoonup> shard_id) \<Rightarrow> (string \<times> shard_id) list"
  cl_show_leader :: "leader_id \<Rightarrow> string"

definition replica_new :: "u64 \<Rightarrow> string \<Rightarrow> replica" where
  "replica_new nid url =
     (let (seen, paths) = watch_subscribe (watch_new [])
      in \<lparr>rp_sm = set_forwarder channel_new sm_new, rp_metrics = metrics_new,
          rp_fwd = \<lparr>fw_task = spawn_forwarder nid url seen, fw_paths = paths,
                    fw_rx = channel_new, fw_delivered = []\<rparr>,
          rp_applied = 0, rp_waiting = [], rp_sent = [], rp_db = []\<rparr>)"

text \<open>\<open>urls\<close> has the address of SpacetimeDB in every node's configuration.\<close>

definition cluster_new :: "(u64 \<Rightarrow> string) \<Rightarrow> cluster" where
  "cluster_new urls = \<lparr>cl_log = [], cl_replicas = (\<lambda>i. replica_new i (urls i)), cl_snapshots = []\<rparr>"

section \<open>Steps of a replica\<close>

text \<open>The library hands the next \<open>n\<close> committed entries to the state machine.\<close>

definition rp_apply :: "shard_config_command from_slice \<Rightarrow> entry list \<Rightarrow> nat \<Rightarrow> replica \<Rightarrow> replica" where
  "rp_apply dec log n r =
     (case sm_apply dec (take n (drop (rp_applied r) log)) (rp_sm r, rp_metrics r) of
        (res, s, m) \<Rightarrow>
          r\<lparr>rp_sm := s, rp_metrics := m, rp_applied := min (length log) (rp_applied r + n)\<rparr>)"

text \<open>
  A step of the forwarder on the channel of the state machine. What it delivers goes to
  SpacetimeDB; when the task returns, its receiver and the messages in it are dropped.
\<close>

definition rp_forward :: "fwd_event \<Rightarrow> replica \<Rightarrow> replica option" where
  "rp_forward ev r =
     (case forwarder (rp_sm r) of
        None \<Rightarrow> None
      | Some ch \<Rightarrow>
          (case fwd_step ev ((rp_fwd r)\<lparr>fw_rx := ch\<rparr>) of
             None \<Rightarrow> None
           | Some w \<Rightarrow>
               let ch' = (if fw_phase (fw_task w) = Stopped then \<lparr>ch_queue = [], ch_rx_alive = False\<rparr> else fw_rx w)
               in Some (r\<lparr>rp_fwd := w, rp_sm := (rp_sm r)\<lparr>forwarder := Some ch'\<rparr>,
                          rp_db := rp_db r @ drop (length (fw_delivered (rp_fwd r))) (fw_delivered w)\<rparr>)))"

text \<open>
  The proposal of the \<open>k\<close>-th waiting write returns, and the connection acts as \<open>inbound_step\<close> does:
  it hands the write to SpacetimeDB when the answer is a success. The answer can be an error
  although the write is committed, when the leader's reply is lost or the leader changes.
\<close>

definition rp_answer :: "nat \<Rightarrow> bool \<Rightarrow> bool \<Rightarrow> replica \<Rightarrow> replica option" where
  "rp_answer k acknowledged sent_ok r =
     (if k < length (rp_waiting r) then
        let data = rp_waiting r ! k;
            r = r\<lparr>rp_waiting := take k (rp_waiting r) @ drop (Suc k) (rp_waiting r)\<rparr>
        in Some (if acknowledged \<and> sent_ok
                 then r\<lparr>rp_sent := rp_sent r @ [data], rp_db := rp_db r @ [data]\<rparr> else r)
      else None)"

text \<open>
  A restarted process has a new state machine and a new forwarder, and no connection; what
  SpacetimeDB has received stays. The library applies the log again from where \<open>applied_state\<close>
  of the new state machine says, which is its beginning.
\<close>

definition rp_restart :: "u64 \<Rightarrow> replica \<Rightarrow> replica" where
  "rp_restart nid r = (replica_new nid (fw_stdb_url (fw_task (rp_fwd r))))\<lparr>rp_db := rp_db r\<rparr>"

text \<open>
  The library asks a node for a snapshot with \<open>build_snapshot\<close>. A node that receives one installs it
  when it is newer than what the node has applied, and goes on with the entries after the one it
  is labelled with.
\<close>

definition rp_build :: "cluster_lib \<Rightarrow> replica \<Rightarrow> (fault + snapshot) \<times> replica" where
  "rp_build lib r =
     (case build_snapshot (cl_snap_to_vec lib) (cl_show_leader lib) (rp_sm r) of
        (res, s) \<Rightarrow> (res, r\<lparr>rp_sm := s\<rparr>))"

definition covered :: "log_id option \<Rightarrow> entry list \<Rightarrow> nat" where
  "covered label log = length (takeWhile (\<lambda>e. Some (e_log_id e) \<le> label) log)"

definition rp_install :: "cluster_lib \<Rightarrow> entry list \<Rightarrow> snapshot \<Rightarrow> replica \<Rightarrow> replica" where
  "rp_install lib log snap r =
     (if last_applied (inner (rp_sm r)) < sn_last_log_id (sn_meta snap) then
        (case install_snapshot (cl_snap_to_vec lib) (cl_snap_from_slice lib) (cl_routes_order lib)
                (sn_meta snap) (sn_bytes snap) (rp_sm r) of
           (Inl e, s) \<Rightarrow> r\<lparr>rp_sm := s\<rparr>
         | (Inr _, s) \<Rightarrow> r\<lparr>rp_sm := s, rp_applied := covered (sn_last_log_id (sn_meta snap)) log\<rparr>)
      else r)"

section \<open>Runs of the cluster\<close>

text \<open>
  A client's write enters the log as the request \<open>propose_write\<close> builds for it. Other entries are
  those no connection waits for: blank and membership entries, configuration commands, and the
  writes somebody posts to the API, with whatever origin they name. The library numbers the
  entries in increasing order.
\<close>

definition continues :: "entry list \<Rightarrow> log_id \<Rightarrow> bool" where
  "continues log lid \<longleftrightarrow> log = [] \<or> e_log_id (last log) < lid"

datatype cl_event =
    Client_Commit u64 bytes log_id
  | Other_Commit entry
  | Replica_Apply u64 nat
  | Replica_Forward u64 fwd_event
  | Replica_Publish u64 string
  | Replica_Answer u64 nat bool bool
  | Replica_Restart u64
  | Replica_Build u64
  | Replica_Install u64 nat

abbreviation own_entry :: "u64 \<Rightarrow> bytes \<Rightarrow> log_id \<Rightarrow> entry" where
  "own_entry i data lid \<equiv>
     \<lparr>e_log_id = lid, e_payload = Normal \<lparr>raw_message = data, origin_node_id = i\<rparr>\<rparr>"

abbreviation set_replica :: "u64 \<Rightarrow> replica \<Rightarrow> cluster \<Rightarrow> cluster" where
  "set_replica i r c \<equiv> c\<lparr>cl_replicas := (cl_replicas c)(i := r)\<rparr>"

fun cl_exec :: "cluster_lib \<Rightarrow> cl_event \<Rightarrow> cluster \<Rightarrow> cluster option" where
  "cl_exec lib (Client_Commit i data lid) c =
     (if classify_message (Binary data) = Write_Kind \<and> continues (cl_log c) lid then
        let r = cl_replicas c i
        in Some ((set_replica i (r\<lparr>rp_waiting := rp_waiting r @ [data]\<rparr>) c)
             \<lparr>cl_log := cl_log c @ [own_entry i data lid]\<rparr>)
      else None)"
| "cl_exec lib (Other_Commit e) c =
     (if continues (cl_log c) (e_log_id e) then Some (c\<lparr>cl_log := cl_log c @ [e]\<rparr>) else None)"
| "cl_exec lib (Replica_Apply i n) c =
     Some (set_replica i (rp_apply (cl_config_from_slice lib) (cl_log c) n (cl_replicas c i)) c)"
| "cl_exec lib (Replica_Forward i ev) c =
     map_option (\<lambda>r. set_replica i r c) (rp_forward ev (cl_replicas c i))"
| "cl_exec lib (Replica_Publish i path) c =
     (let r = cl_replicas c i; w = rp_fwd r
      in Some (set_replica i (r\<lparr>rp_fwd := w\<lparr>fw_paths := snd (watch_send path (fw_paths w))\<rparr>\<rparr>) c))"
| "cl_exec lib (Replica_Answer i k acknowledged sent_ok) c =
     map_option (\<lambda>r. set_replica i r c) (rp_answer k acknowledged sent_ok (cl_replicas c i))"
| "cl_exec lib (Replica_Restart i) c = Some (set_replica i (rp_restart i (cl_replicas c i)) c)"
| "cl_exec lib (Replica_Build i) c =
     (case rp_build lib (cl_replicas c i) of
        (Inl e, r) \<Rightarrow> Some (set_replica i r c)
      | (Inr snap, r) \<Rightarrow> Some ((set_replica i r c)\<lparr>cl_snapshots := cl_snapshots c @ [snap]\<rparr>))"
| "cl_exec lib (Replica_Install i k) c =
     (if k < length (cl_snapshots c)
      then Some (set_replica i (rp_install lib (cl_log c) (cl_snapshots c ! k) (cl_replicas c i)) c)
      else None)"

inductive cl_reach ::
    "cluster_lib \<Rightarrow> (u64 \<Rightarrow> string) \<Rightarrow> cl_event list \<Rightarrow> cluster \<Rightarrow> bool"
  for lib :: cluster_lib and urls :: "u64 \<Rightarrow> string" where
  cl_start: "cl_reach lib urls [] (cluster_new urls)"
| cl_step: "cl_reach lib urls evs c \<Longrightarrow> cl_exec lib ev c = Some c' \<Longrightarrow> cl_reach lib urls (evs @ [ev]) c'"

fun cl_execs :: "cluster_lib \<Rightarrow> cl_event list \<Rightarrow> cluster \<Rightarrow> cluster option" where
  "cl_execs lib [] c = Some c"
| "cl_execs lib (ev # evs) c = (case cl_exec lib ev c of None \<Rightarrow> None | Some c1 \<Rightarrow> cl_execs lib evs c1)"

lemma cl_execs_append:
  "cl_execs lib (as @ bs) c = (case cl_execs lib as c of None \<Rightarrow> None | Some c1 \<Rightarrow> cl_execs lib bs c1)"
  by (induction as arbitrary: c) (simp_all split: option.splits)

lemma cl_reach_execs: "cl_execs lib evs (cluster_new urls) = Some c \<Longrightarrow> cl_reach lib urls evs c"
proof (induction evs arbitrary: c rule: rev_induct)
  case Nil
  then show ?case using cl_start by auto
next
  case (snoc ev evs)
  then show ?case by (auto simp: cl_execs_append split: option.splits intro: cl_step)
qed

section \<open>A step, seen from one replica\<close>

text \<open>
  What a step does to the log, to the snapshots and to one replica. The invariants of runs are
  proved by these cases, one lemma on the operation in each.
\<close>

fun committed_entry :: "cl_event \<Rightarrow> entry option" where
  "committed_entry (Client_Commit i data lid) = Some (own_entry i data lid)"
| "committed_entry (Other_Commit e) = Some e"
| "committed_entry _ = None"

lemma cl_exec_log:
  assumes "cl_exec lib ev c = Some c'"
  shows "cl_log c' = cl_log c @ (case committed_entry ev of None \<Rightarrow> [] | Some e \<Rightarrow> [e])"
    and "committed_entry ev = Some e \<Longrightarrow> continues (cl_log c) (e_log_id e)"
  using assms by (cases ev; auto simp: Let_def split: if_splits prod.splits sum.splits)+

lemma cl_exec_snapshots:
  assumes "cl_exec lib ev c = Some c'" "snap \<in> set (cl_snapshots c')"
  shows "snap \<in> set (cl_snapshots c) \<or> (\<exists>i r'. rp_build lib (cl_replicas c i) = (Inr snap, r'))"
  using assms by (cases ev) (auto simp: Let_def split: if_splits prod.splits sum.splits)

lemma cl_exec_at [consumes 1, case_names idle client_commit batch forward publish answer restart build install]:
  assumes "cl_exec lib ev c = Some c'"
  obtains
    "cl_replicas c' i = cl_replicas c i" "\<forall>data lid. ev \<noteq> Client_Commit i data lid"
  | data lid where "ev = Client_Commit i data lid" "classify_message (Binary data) = Write_Kind"
      "cl_replicas c' i = (cl_replicas c i)\<lparr>rp_waiting := rp_waiting (cl_replicas c i) @ [data]\<rparr>"
  | n where "ev = Replica_Apply i n"
      "cl_replicas c' i = rp_apply (cl_config_from_slice lib) (cl_log c) n (cl_replicas c i)"
  | e where "ev = Replica_Forward i e" "rp_forward e (cl_replicas c i) = Some (cl_replicas c' i)"
  | ps where "committed_entry ev = None"
      "cl_replicas c' i = (cl_replicas c i)\<lparr>rp_fwd := (rp_fwd (cl_replicas c i))\<lparr>fw_paths := ps\<rparr>\<rparr>"
  | k a b where "ev = Replica_Answer i k a b" "rp_answer k a b (cl_replicas c i) = Some (cl_replicas c' i)"
  | "ev = Replica_Restart i" "cl_replicas c' i = rp_restart i (cl_replicas c i)"
  | res where "committed_entry ev = None" "rp_build lib (cl_replicas c i) = (res, cl_replicas c' i)"
  | k where "ev = Replica_Install i k" "k < length (cl_snapshots c)"
      "cl_replicas c' i = rp_install lib (cl_log c) (cl_snapshots c ! k) (cl_replicas c i)"
proof (cases ev)
  case (Client_Commit j data lid)
  with assms that(1,2) show ?thesis by (cases "j = i") (auto simp: Let_def split: if_splits)
next
  case (Other_Commit e)
  with assms that(1) show ?thesis by (auto split: if_splits)
next
  case (Replica_Apply j n)
  with assms that(1,3) show ?thesis by (cases "j = i") auto
next
  case (Replica_Forward j e)
  with assms that(1,4) show ?thesis by (cases "j = i") auto
next
  case (Replica_Publish j path)
  with assms that(1,5) show ?thesis by (cases "j = i") (auto simp: Let_def)
next
  case (Replica_Answer j k a b)
  with assms that(1,6) show ?thesis by (cases "j = i") auto
next
  case (Replica_Restart j)
  with assms that(1,7) show ?thesis by (cases "j = i") auto
next
  case (Replica_Build j)
  with assms that(1,8) show ?thesis by (cases "j = i") (auto split: prod.splits sum.splits)
next
  case (Replica_Install j k)
  with assms that(1,9) show ?thesis by (cases "j = i") (auto split: if_splits)
qed

section \<open>Concrete runs\<close>

definition demo_lid :: "u64 \<Rightarrow> log_id" where
  "demo_lid n = \<lparr>lg_leader_id = \<lparr>lid_term = 1, lid_node_id = 1\<rparr>, lg_index = n\<rparr>"

definition demo_urls :: "u64 \<Rightarrow> string" where
  "demo_urls i = ''ws://db''"

text \<open>A database path arrives at the forwarder of a node, which connects.\<close>

definition demo_connect :: "u64 \<Rightarrow> cl_event list" where
  "demo_connect i = [Replica_Publish i ''/m'', Replica_Forward i Path_Changed, Replica_Forward i (Connect_Result True)]"

text \<open>A write of a client of node 1 and one of a client of node 2 are committed in this order.\<close>

definition demo_two_writes :: "cl_event list" where
  "demo_two_writes = [Client_Commit 1 [3, 10] (demo_lid 1), Client_Commit 2 [3, 20] (demo_lid 2)]"

text \<open>A serialiser that knows the snapshot of one state.\<close>

definition demo_lib :: "state_machine_inner \<Rightarrow> cluster_lib" where
  "demo_lib i =
     \<lparr>cl_config_from_slice = demo_from_slice,
      cl_snap_to_vec = (\<lambda>d. if d = snapshot_data_of i then Inr [77] else Inl ''unsupported''),
      cl_snap_from_slice = (\<lambda>b. if b = [77] then Inr (snapshot_data_of i) else Inl ''bad json''),
      cl_routes_order = (\<lambda>t. []), cl_show_leader = (\<lambda>l. ''1'')\<rparr>"

lemma demo_lib_roundtrip: "serde_roundtrip (cl_snap_to_vec (demo_lib i)) (cl_snap_from_slice (demo_lib i))"
  by (simp add: serde_roundtrip_def demo_lib_def)

lemmas run_simps = Let_def continues_def demo_lid_def log_id_less leader_id_less is_write_tag_def tag_defs rp_apply_def rp_forward_def rp_answer_def rp_restart_def
  replica_new_def cluster_new_def watch_subscribe_def watch_new_def watch_send_def watch_changed_def
  set_forwarder_def sm_new_def spawn_forwarder_def channel_new_def sm_apply_def apply_entry_def
  apply_request_def first_byte_def SHARD_CONFIG_TAG_def send_opt_def ch_send_def ch_recv_def fwd_step.simps

end
