(* ===== verification/Cluster_State.thy ===== *)
theory Cluster_State
  imports Cluster
begin

text \<open>
  The state machines of a group in every run, with snapshots and restarts: the state of a node is
  always that of the part of the log it has applied.
\<close>

section \<open>Positions in the log and their labels\<close>

definition log_sorted :: "entry list \<Rightarrow> bool" where
  "log_sorted log \<longleftrightarrow> sorted_wrt (<) (map e_log_id log)"

lemma log_sorted_Nil [simp]: "log_sorted []"
  by (simp add: log_sorted_def)

lemma log_sorted_append:
  "log_sorted (xs @ ys) \<longleftrightarrow>
     log_sorted xs \<and> log_sorted ys \<and> (\<forall>x\<in>set xs. \<forall>y\<in>set ys. e_log_id x < e_log_id y)"
  by (simp add: log_sorted_def sorted_wrt_append)

lemma log_sorted_continues:
  assumes "log_sorted log" "continues log (e_log_id e)"
  shows "log_sorted (log @ [e])"
proof (cases log rule: rev_cases)
  case (snoc es x)
  then have "e_log_id y < e_log_id e" if "y \<in> set log" for y
    using that assms by (auto simp: log_sorted_append continues_def intro: less_trans)
  with assms(1) show ?thesis unfolding log_sorted_append by (auto simp: log_sorted_def)
qed (simp add: log_sorted_def)

lemma log_sorted_last: "log_sorted xs \<Longrightarrow> e \<in> set xs \<Longrightarrow> e_log_id e \<le> e_log_id (last xs)"
  by (cases xs rule: rev_cases) (auto simp: log_sorted_append)

lemma log_sorted_take: "log_sorted xs \<Longrightarrow> log_sorted (take n xs)"
  by (metis append_take_drop_id log_sorted_append)

text \<open>The state of the first \<open>n\<close> entries of the log, and the label of a snapshot of it.\<close>

definition state_at :: "cluster_lib \<Rightarrow> entry list \<Rightarrow> nat \<Rightarrow> state_machine_inner" where
  "state_at lib log n = fold (apply_inner (cl_config_from_slice lib)) (take n log) inner_new"

lemma state_at_0 [simp]: "state_at lib log 0 = inner_new"
  by (simp add: state_at_def)

lemma state_at_label:
  "last_applied (state_at lib log n) =
     (if take n log = [] then None else Some (e_log_id (last (take n log))))"
  by (simp add: state_at_def fold_apply_inner_parts inner_new_def)

lemma state_at_append [simp]: "n \<le> length log \<Longrightarrow> state_at lib (log @ ext) n = state_at lib log n"
  by (simp add: state_at_def)

text \<open>The label says how much of the log a snapshot covers, because the log is ordered.\<close>

lemma covered_state_at:
  assumes "log_sorted log" "n \<le> length log"
  shows "covered (last_applied (state_at lib log n)) log = n"
proof (cases "take n log = []")
  case True
  then show ?thesis using assms(2) by (cases log) (auto simp: covered_def state_at_label inner_new_def)
next
  case False
  let ?P = "\<lambda>e. Some (e_log_id e) \<le> Some (e_log_id (last (take n log)))"
  have app: "log_sorted (take n log @ drop n log)" using assms(1) by simp
  have "?P e" if "e \<in> set (take n log)" for e
    using log_sorted_last [OF log_sorted_take [OF assms(1)] that] by simp
  moreover have "\<not> ?P e" if "e \<in> set (drop n log)" for e
    using app that last_in_set [OF False] unfolding log_sorted_append by (auto simp: not_le)
  ultimately have "takeWhile ?P (take n log @ drop n log) = take n log"
    by (subst takeWhile_append2) (auto simp: takeWhile_eq_Nil_iff)
  then have "length (takeWhile ?P log) = n"
    using assms(2) by (simp only: append_take_drop_id) simp
  with False show ?thesis by (simp add: covered_def state_at_label)
qed

lemma state_at_label_less:
  assumes "log_sorted log" "m \<le> length log"
    and "last_applied (state_at lib log n) < last_applied (state_at lib log m)"
  shows "n < m"
proof (rule ccontr)
  assume "\<not> n < m"
  then have nm: "set (take m log) \<subseteq> set (take n log)" by (simp add: set_take_subset_set_take)
  have m: "take m log \<noteq> []" using assms(3) by (auto simp: state_at_label split: if_splits)
  then have "last (take m log) \<in> set (take n log)" using nm last_in_set by blast
  then have "e_log_id (last (take m log)) \<le> e_log_id (last (take n log))"
    using log_sorted_last [OF log_sorted_take [OF assms(1)]] by blast
  moreover have "take n log \<noteq> []" using \<open>last (take m log) \<in> set (take n log)\<close> by (metis empty_iff list.set(1))
  ultimately show False using assms(3) m by (simp add: state_at_label)
qed

section \<open>The invariant\<close>

text \<open>
  A snapshot is one of a beginning of the log; the one a node offers covers no more than the
  node has applied.
\<close>

definition snap_upto :: "cluster_lib \<Rightarrow> entry list \<Rightarrow> nat \<Rightarrow> snapshot \<Rightarrow> bool" where
  "snap_upto lib log m snap \<longleftrightarrow>
     (\<exists>n\<le>m. cl_snap_to_vec lib (snapshot_data_of (state_at lib log n)) = Inr (sn_bytes snap) \<and>
        sn_last_log_id (sn_meta snap) = last_applied (state_at lib log n))"

definition replays :: "cluster_lib \<Rightarrow> entry list \<Rightarrow> replica \<Rightarrow> bool" where
  "replays lib log r \<longleftrightarrow> rp_applied r \<le> length log \<and> inner (rp_sm r) = state_at lib log (rp_applied r) \<and>
     (\<forall>snap. cached_snapshot (rp_sm r) = Some snap \<longrightarrow> snap_upto lib log (rp_applied r) snap)"

definition cluster_inv :: "cluster_lib \<Rightarrow> cluster \<Rightarrow> bool" where
  "cluster_inv lib c \<longleftrightarrow>
     log_sorted (cl_log c) \<and> (\<forall>snap\<in>set (cl_snapshots c). snap_upto lib (cl_log c) (length (cl_log c)) snap) \<and>
     (\<forall>i. replays lib (cl_log c) (cl_replicas c i))"

lemma snap_upto_mono: "snap_upto lib log m snap \<Longrightarrow> m \<le> m' \<Longrightarrow> snap_upto lib log m' snap"
  unfolding snap_upto_def by (meson order_trans)

lemma snap_upto_append: "snap_upto lib log m snap \<Longrightarrow> m \<le> length log \<Longrightarrow> snap_upto lib (log @ ext) m snap"
  unfolding snap_upto_def by (metis state_at_append order_trans)

lemma snap_upto_grow:
  "snap_upto lib log (length log) snap \<Longrightarrow> snap_upto lib (log @ [e]) (length (log @ [e])) snap"
  using snap_upto_append [of lib log "length log" snap "[e]"] snap_upto_mono by fastforce

lemma replays_append: "replays lib log r \<Longrightarrow> replays lib (log @ ext) r"
  by (simp add: replays_def snap_upto_append)

lemma replays_new: "replays lib log (replica_new i url)" "replays lib log (rp_restart i r)"
  by (simp_all add: replays_def replica_new_def rp_restart_def Let_def watch_subscribe_def set_forwarder_def sm_new_def)

text \<open>The part of a replica the replicated state is in.\<close>

definition rp_core :: "replica \<Rightarrow> nat \<times> state_machine_inner \<times> snapshot option" where
  "rp_core r = (rp_applied r, inner (rp_sm r), cached_snapshot (rp_sm r))"

lemma replays_same: "replays lib log r \<Longrightarrow> rp_core r' = rp_core r \<Longrightarrow> replays lib log r'"
  by (simp add: replays_def rp_core_def)

lemma rp_apply_parts:
  "rp_fwd (rp_apply dec log n r) = rp_fwd r" "rp_sent (rp_apply dec log n r) = rp_sent r"
  "rp_waiting (rp_apply dec log n r) = rp_waiting r" "rp_db (rp_apply dec log n r) = rp_db r"
  "rp_applied (rp_apply dec log n r) = min (length log) (rp_applied r + n)"
  "forwarder (rp_sm (rp_apply dec log n r)) =
     send_all (app_writes (take n (drop (rp_applied r) log))) (forwarder (rp_sm r))"
  "inner (rp_sm (rp_apply dec log n r)) =
     fold (apply_inner dec) (take n (drop (rp_applied r) log)) (inner (rp_sm r))"
  "cached_snapshot (rp_sm (rp_apply dec log n r)) = cached_snapshot (rp_sm r)"
  using fold_apply_parts [of dec "take n (drop (rp_applied r) log)" "(rp_sm r, rp_metrics r)"]
  by (simp_all add: rp_apply_def sm_apply_eq case_prod_beta)

lemma take_min_add: "take (min (length xs) (k + n)) xs = take k xs @ take n (drop k xs)"
  by (simp add: take_add [symmetric] min_def)

lemma replays_apply: "replays lib log r \<Longrightarrow> replays lib log (rp_apply (cl_config_from_slice lib) log n r)"
  using snap_upto_mono [of lib log "rp_applied r" _ "min (length log) (rp_applied r + n)"]
  by (auto simp: replays_def rp_apply_parts state_at_def take_min_add)

lemma rp_forward_core: "rp_forward ev r = Some r' \<Longrightarrow> rp_core r' = rp_core r"
  by (auto simp: rp_core_def rp_forward_def Let_def split: option.splits)

lemma rp_answer_core: "rp_answer k a b r = Some r' \<Longrightarrow> rp_core r' = rp_core r"
  by (auto simp: rp_core_def rp_answer_def Let_def split: if_splits)

lemma rp_build_parts:
  assumes "rp_build lib r = (res, r')"
  shows "rp_applied r' = rp_applied r" "inner (rp_sm r') = inner (rp_sm r)"
    "forwarder (rp_sm r') = forwarder (rp_sm r)" "rp_fwd r' = rp_fwd r" "rp_waiting r' = rp_waiting r"
    "rp_sent r' = rp_sent r" "rp_db r' = rp_db r"
    "cached_snapshot (rp_sm r') = (case res of Inl e \<Rightarrow> cached_snapshot (rp_sm r) | Inr snap \<Rightarrow> Some snap)"
  using assms by (auto simp: rp_build_def build_snapshot_def Let_def split: sum.splits prod.splits)

lemma snap_upto_build:
  assumes "replays lib log r" "rp_build lib r = (Inr snap, r')"
  shows "snap_upto lib log (rp_applied r) snap"
proof -
  obtain s where b: "build_snapshot (cl_snap_to_vec lib) (cl_show_leader lib) (rp_sm r) = (Inr snap, s)"
    using assms(2) by (auto simp: rp_build_def split: prod.splits)
  have "inner (rp_sm r) = state_at lib log (rp_applied r)" using assms(1) by (simp add: replays_def)
  with build_snapshot_Inr(1,4) [OF b] show ?thesis
    unfolding snap_upto_def by (intro exI [of _ "rp_applied r"]) simp
qed

lemma replays_build:
  assumes "replays lib log r" "rp_build lib r = (res, r')"
  shows "replays lib log r'"
proof -
  have "snap_upto lib log (rp_applied r) snap" if "cached_snapshot (rp_sm r') = Some snap" for snap
    using that assms snap_upto_build [OF assms(1)] unfolding rp_build_parts(8) [OF assms(2)]
    by (cases res) (simp_all add: replays_def)
  with assms(1) show ?thesis
    unfolding replays_def rp_build_parts(1,2) [OF assms(2)] by blast
qed

text \<open>Installing a snapshot of a beginning of the log moves the node forward to it.\<close>

lemma rp_install_cases [consumes 4, case_names ignored installed]:
  assumes "serde_roundtrip (cl_snap_to_vec lib) (cl_snap_from_slice lib)"
    and "log_sorted log" "snap_upto lib log (length log) snap" "replays lib log r"
  obtains (ignored) "rp_install lib log snap r = r"
  | (installed) n s where "rp_applied r < n" "n \<le> length log" "inner s = state_at lib log n"
      "\<forall>snap. cached_snapshot s = Some snap \<longrightarrow> snap_upto lib log n snap"
      "forwarder s = forwarder (rp_sm r)" "rp_install lib log snap r = r\<lparr>rp_sm := s, rp_applied := n\<rparr>"
proof (cases "last_applied (inner (rp_sm r)) < sn_last_log_id (sn_meta snap)")
  case True
  obtain n where n: "n \<le> length log" "cl_snap_to_vec lib (snapshot_data_of (state_at lib log n)) = Inr (sn_bytes snap)"
    "sn_last_log_id (sn_meta snap) = last_applied (state_at lib log n)"
    using assms(3) by (auto simp: snap_upto_def)
  have "cl_snap_from_slice lib (sn_bytes snap) = Inr (snapshot_data_of (state_at lib log n))"
    by (rule serde_roundtripD [OF assms(1) n(2)])
  then obtain s where s: "install_snapshot (cl_snap_to_vec lib) (cl_snap_from_slice lib) (cl_routes_order lib)
      (sn_meta snap) (sn_bytes snap) (rp_sm r) = (Inr (), s)"
    "inner s = state_at lib log n" "forwarder s = forwarder (rp_sm r)"
    "cached_snapshot s = Some \<lparr>sn_meta = sn_meta snap, sn_bytes = sn_bytes snap\<rparr>"
    using n(2) by (simp add: install_snapshot_def Let_def snapshot_data_of_inverse)
  have cached: "snap_upto lib log n \<lparr>sn_meta = sn_meta snap, sn_bytes = sn_bytes snap\<rparr>"
    using n(2,3) unfolding snap_upto_def by auto
  have "rp_applied r < n"
    using state_at_label_less [OF assms(2) n(1)] True assms(4) n(3) by (simp add: replays_def)
  moreover have "rp_install lib log snap r = r\<lparr>rp_sm := s, rp_applied := n\<rparr>"
    using True s(1) covered_state_at [OF assms(2) n(1)] by (simp add: rp_install_def n(3))
  ultimately show ?thesis using installed n(1) s(2-4) cached by simp
qed (use ignored in \<open>simp add: rp_install_def\<close>)

lemma cluster_inv_step:
  assumes "cl_exec lib ev c = Some c'" and rt: "serde_roundtrip (cl_snap_to_vec lib) (cl_snap_from_slice lib)"
    and "log_sorted (cl_log c)" and snaps: "\<And>snap. snap \<in> set (cl_snapshots c) \<Longrightarrow> snap_upto lib (cl_log c) (length (cl_log c)) snap"
    and r: "replays lib (cl_log c) (cl_replicas c i)"
  shows "replays lib (cl_log c) (cl_replicas c' i)"
  using assms(1)
proof (cases rule: cl_exec_at [where i = i])
  case (install k)
  have "snap_upto lib (cl_log c) (length (cl_log c)) (cl_snapshots c ! k)" by (rule snaps) (simp add: install(2))
  from rt assms(3) this r show ?thesis
    by (cases rule: rp_install_cases) (use install(3) r in \<open>auto simp: replays_def\<close>)
qed (use r replays_apply [OF r] replays_same [OF r] replays_new(2) replays_build [OF r] rp_forward_core rp_answer_core
    in \<open>auto simp: rp_core_def\<close>)

lemma cluster_inv_exec:
  assumes rt: "serde_roundtrip (cl_snap_to_vec lib) (cl_snap_from_slice lib)"
    and inv: "cluster_inv lib c" and ex: "cl_exec lib ev c = Some c'"
  shows "cluster_inv lib c'"
proof -
  let ?ext = "case committed_entry ev of None \<Rightarrow> [] | Some e \<Rightarrow> [e]"
  have old: "log_sorted (cl_log c)" "replays lib (cl_log c) (cl_replicas c i)" for i
    using inv by (simp_all add: cluster_inv_def)
  have len: "rp_applied (cl_replicas c i) \<le> length (cl_log c)" for i
    using old(2) by (simp add: replays_def)
  have snap: "snap_upto lib (cl_log c) (length (cl_log c)) snap" if "snap \<in> set (cl_snapshots c')" for snap
    using cl_exec_snapshots [OF ex that] inv snap_upto_mono [OF snap_upto_build [OF old(2)] len]
    by (auto simp: cluster_inv_def)
  then have "snap_upto lib (cl_log c @ ?ext) (length (cl_log c @ ?ext)) snap" if "snap \<in> set (cl_snapshots c')" for snap
    using snap_upto_mono [OF snap_upto_append] that by (metis le_refl length_append le_add1)
  moreover have "replays lib (cl_log c @ ?ext) (cl_replicas c' i)" for i
    using cluster_inv_step [OF ex rt old(1) _ old(2)] inv replays_append unfolding cluster_inv_def by metis
  moreover have "log_sorted (cl_log c @ ?ext)"
    using log_sorted_continues [OF old(1)] cl_exec_log(2) [OF ex] old(1) by (simp split: option.splits)
  ultimately show ?thesis by (simp add: cluster_inv_def cl_exec_log(1) [OF ex])
qed

lemma cl_reach_cluster_inv:
  assumes "serde_roundtrip (cl_snap_to_vec lib) (cl_snap_from_slice lib)" "cl_reach lib urls evs c"
  shows "cluster_inv lib c"
  using assms(2)
proof (induction rule: cl_reach.induct)
  case cl_start
  show ?case by (simp add: cluster_inv_def cluster_new_def replays_new)
next
  case (cl_step evs c ev c')
  then show ?case by (rule_tac cluster_inv_exec [OF assms(1)])
qed

section \<open>Properties\<close>

lemma state_at_sm_apply:
  "state_at lib log n =
     inner (fst (snd (sm_apply (cl_config_from_slice lib) (take n log) (sm_new, metrics_new))))"
  by (simp add: state_at_def sm_apply_eq fold_apply_parts sm_new_def)

text \<open>
  C4. State machine safety. In every run of the cluster, with snapshots built and installed at any
  moment, failing sends, lost answers and restarts, the replicated state of every node is what
  applying the first entries of the committed log, as many as this node has applied, in one
  batch to a new state machine gives; so it depends neither on how the log was cut into batches
  nor on whether entries or a snapshot brought the node there nor on the node, and two nodes
  that have applied equally much agree.
\<close>

theorem replicas_replay_the_log:
  assumes "serde_roundtrip (cl_snap_to_vec lib) (cl_snap_from_slice lib)" "cl_reach lib urls evs c"
  shows "rp_applied (cl_replicas c i) \<le> length (cl_log c) \<and>
    inner (rp_sm (cl_replicas c i)) =
      inner (fst (snd (sm_apply (cl_config_from_slice lib) (take (rp_applied (cl_replicas c i)) (cl_log c))
        (sm_new, metrics_new)))) \<and>
    (rp_applied (cl_replicas c j) = rp_applied (cl_replicas c i) \<longrightarrow>
       inner (rp_sm (cl_replicas c j)) = inner (rp_sm (cl_replicas c i)))"
  using cl_reach_cluster_inv [OF assms]
  by (simp add: cluster_inv_def replays_def state_at_sm_apply [symmetric])

text \<open>
  C13. Snapshots are sound. Whatever snapshot a node offers in a run, whether it built it or
  received it, another node can install it, and then has exactly the state of a beginning of
  the log that the offering node has applied, labelled with the last entry of that beginning;
  the label alone tells how many entries these are.
\<close>

theorem offered_snapshot_is_sound:
  assumes "serde_roundtrip (cl_snap_to_vec lib) (cl_snap_from_slice lib)" "cl_reach lib urls evs c"
    and "get_current_snapshot (rp_sm (cl_replicas c i)) = Inr (Some snap)"
  shows "\<exists>n s'. n \<le> rp_applied (cl_replicas c i) \<and>
    install_snapshot (cl_snap_to_vec lib) (cl_snap_from_slice lib) (cl_routes_order lib)
      (sn_meta snap) (sn_bytes snap) s = (Inr (), s') \<and>
    inner s' = inner (fst (snd (sm_apply (cl_config_from_slice lib) (take n (cl_log c)) (sm_new, metrics_new)))) \<and>
    sn_last_log_id (sn_meta snap) = last_applied (inner s') \<and>
    covered (sn_last_log_id (sn_meta snap)) (cl_log c) = n"
proof -
  have inv: "log_sorted (cl_log c)" "replays lib (cl_log c) (cl_replicas c i)"
    using cl_reach_cluster_inv [OF assms(1,2)] by (simp_all add: cluster_inv_def)
  have "cached_snapshot (rp_sm (cl_replicas c i)) = Some snap"
    using assms(3) by (auto simp: get_current_snapshot_def split: option.splits)
  then obtain n where n: "n \<le> rp_applied (cl_replicas c i)"
    "cl_snap_to_vec lib (snapshot_data_of (state_at lib (cl_log c) n)) = Inr (sn_bytes snap)"
    "sn_last_log_id (sn_meta snap) = last_applied (state_at lib (cl_log c) n)"
    using inv(2) by (auto simp: replays_def snap_upto_def)
  have "n \<le> length (cl_log c)" using n(1) inv(2) by (simp add: replays_def)
  then show ?thesis
    using n serde_roundtripD [OF assms(1) n(2)] covered_state_at [OF inv(1)]
    unfolding state_at_sm_apply [symmetric]
    by (intro exI [of _ n]) (simp add: install_snapshot_def Let_def snapshot_data_of_inverse)
qed

section \<open>A run with a snapshot\<close>

text \<open>
  Node 2 applies a configuration command and builds a snapshot, which node 1 installs; then both
  apply a write.
\<close>

definition demo_catch_up :: "cl_event list" where
  "demo_catch_up =
     [Other_Commit demo_create7, Replica_Apply 2 1, Replica_Build 2, Replica_Install 1 0,
      Client_Commit 2 [3, 20] (demo_lid 5), Replica_Apply 1 1, Replica_Apply 2 1]"

lemmas snapshot_run_simps = rp_build_def build_snapshot_def rp_install_def install_snapshot_def covered_def
  demo_lib_def snapshot_data_of_def decode_shard_config_def demo_from_slice_def apply_config_def inner_new_def

lemma demo_catch_up_run:
  "\<exists>c snap. cl_reach (demo_lib demo_inner7) demo_urls demo_catch_up c \<and>
     get_current_snapshot (rp_sm (cl_replicas c 1)) = Inr (Some snap) \<and>
     sn_last_log_id (sn_meta snap) = Some (e_log_id demo_create7) \<and> rp_applied (cl_replicas c 1) = 2 \<and>
     rp_applied (cl_replicas c 2) = 2 \<and> active_shards (inner (rp_sm (cl_replicas c 1))) = [7]"
proof -
  have "\<exists>c snap. cl_execs (demo_lib demo_inner7) demo_catch_up (cluster_new demo_urls) = Some c \<and>
     get_current_snapshot (rp_sm (cl_replicas c 1)) = Inr (Some snap) \<and>
     sn_last_log_id (sn_meta snap) = Some (e_log_id demo_create7) \<and> rp_applied (cl_replicas c 1) = 2 \<and>
     rp_applied (cl_replicas c 2) = 2 \<and> active_shards (inner (rp_sm (cl_replicas c 1))) = [7]"
    by (simp add: demo_catch_up_def demo_urls_def run_simps snapshot_run_simps demo_create7_def demo_inner7_def
        get_current_snapshot_def)
  then show ?thesis using cl_reach_execs by blast
qed

theorem replicas_replay_the_log_witness:
  "\<exists>c. cl_reach (demo_lib demo_inner7) demo_urls demo_catch_up c \<and>
     inner (rp_sm (cl_replicas c 2)) = inner (rp_sm (cl_replicas c 1)) \<and>
     active_shards (inner (rp_sm (cl_replicas c 2))) = [7]"
proof -
  obtain c where c: "cl_reach (demo_lib demo_inner7) demo_urls demo_catch_up c"
    "rp_applied (cl_replicas c 1) = 2" "rp_applied (cl_replicas c 2) = 2"
    "active_shards (inner (rp_sm (cl_replicas c 1))) = [7]"
    using demo_catch_up_run by blast
  from replicas_replay_the_log [OF demo_lib_roundtrip c(1), of 1 2] c show ?thesis by auto
qed

theorem offered_snapshot_is_sound_witness:
  "\<exists>c (snap :: snapshot) s'. cl_reach (demo_lib demo_inner7) demo_urls demo_catch_up c \<and>
     covered (sn_last_log_id (sn_meta snap)) (cl_log c) \<le> 2 \<and>
     install_snapshot (cl_snap_to_vec (demo_lib demo_inner7)) (cl_snap_from_slice (demo_lib demo_inner7))
       (cl_routes_order (demo_lib demo_inner7)) (sn_meta snap) (sn_bytes snap) sm_new = (Inr (), s') \<and>
     last_applied (inner s') = Some (e_log_id demo_create7)"
proof -
  obtain c snap where c: "cl_reach (demo_lib demo_inner7) demo_urls demo_catch_up c"
    "get_current_snapshot (rp_sm (cl_replicas c 1)) = Inr (Some snap)"
    "sn_last_log_id (sn_meta snap) = Some (e_log_id demo_create7)" "rp_applied (cl_replicas c 1) = 2"
    using demo_catch_up_run by blast
  from offered_snapshot_is_sound [OF demo_lib_roundtrip c(1,2), of sm_new] obtain n s' where
    "install_snapshot (cl_snap_to_vec (demo_lib demo_inner7)) (cl_snap_from_slice (demo_lib demo_inner7))
       (cl_routes_order (demo_lib demo_inner7)) (sn_meta snap) (sn_bytes snap) sm_new = (Inr (), s')"
    "n \<le> rp_applied (cl_replicas c 1)" "covered (sn_last_log_id (sn_meta snap)) (cl_log c) = n"
    "sn_last_log_id (sn_meta snap) = last_applied (inner s')"
    by (elim exE conjE) (rule that)
  then show ?thesis using c by (intro exI [of _ c], intro exI [of _ snap], intro exI [of _ s']) simp
qed

end
