(* ===== verification/Cluster_Databases.thy ===== *)
theory Cluster_Databases
  imports Cluster_State
begin

text \<open>
  What the databases of a group receive in a run: nothing but the log, all of it where nothing is
  lost, and runs in which they differ.
\<close>

section \<open>What a replica has received\<close>

definition own :: "u64 \<Rightarrow> (u64 \<times> bytes) list \<Rightarrow> bytes list" where
  "own i ms = map snd (filter (\<lambda>m. fst m = i) ms)"

lemma own_simps [simp]:
  "own i [] = []" "own i ((j, d) # ms) = (if j = i then d # own i ms else own i ms)"
  "own i (xs @ ys) = own i xs @ own i ys"
  by (simp_all add: own_def)

lemma mset_foreign_own: "mset (map snd ms) = mset (foreign i ms) + mset (own i ms)"
  by (induction ms) auto

lemma subseq_foreign: "subseq xs ys \<Longrightarrow> subseq (foreign i xs) (foreign i ys)"
  by (simp add: foreign_def subseq_filter subseq_map)

lemma subseq_mset: "subseq xs ys \<Longrightarrow> mset xs \<subseteq># mset ys"
proof (induction rule: list_emb.induct)
  case (list_emb_Cons xs ys y)
  have "mset ys \<subseteq># mset (y # ys)" by simp
  with list_emb_Cons.IH show ?case by (rule subset_mset.order_trans)
qed simp_all

text \<open>
  The books of replica \<open>i\<close>: of the writes in the applied part of the log, those a snapshot covered
  aside, the forwarder has taken a beginning, and the rest is in its channel as long as it runs;
  what it delivered comes in order from what it took; what connections sent or wait for are writes of this node. With
  \<open>full\<close> nothing was lost on the way.
\<close>

definition replica_inv :: "bool \<Rightarrow> u64 \<Rightarrow> entry list \<Rightarrow> replica \<Rightarrow> bool" where
  "replica_inv full i log r \<longleftrightarrow>
     rp_applied r \<le> length log \<and> fw_node_id (fw_task (rp_fwd r)) = i \<and>
     mset (rp_db r) = mset (fw_delivered (rp_fwd r)) + mset (rp_sent r) \<and>
     mset (rp_sent r) + mset (rp_waiting r) \<subseteq># mset (own i (app_writes log)) \<and>
     (\<exists>ch taken rest.
        forwarder (rp_sm r) = Some ch \<and> subseq (taken @ rest) (app_writes (take (rp_applied r) log)) \<and>
        (if fw_phase (fw_task (rp_fwd r)) = Stopped then \<not> ch_rx_alive ch \<and> ch_queue ch = []
         else ch_rx_alive ch \<and> ch_queue ch = rest) \<and>
        subseq (fw_delivered (rp_fwd r)) (foreign i taken) \<and>
        (full \<longrightarrow> app_writes (take (rp_applied r) log) = taken @ rest \<and>
           fw_phase (fw_task (rp_fwd r)) \<noteq> Stopped \<and> fw_delivered (rp_fwd r) = foreign i taken \<and>
           mset (rp_sent r) + mset (rp_waiting r) = mset (own i (app_writes log))))"

lemma replica_inv_new: "replica_inv full i [] (replica_new i url)"
  by (auto simp: replica_inv_def replica_new_def Let_def watch_subscribe_def spawn_forwarder_def
      set_forwarder_def channel_new_def intro: exI [of _ "[]"])

lemma replica_inv_weaken: "replica_inv full i log r \<Longrightarrow> (full' \<longrightarrow> full) \<Longrightarrow> replica_inv full' i log r"
  unfolding replica_inv_def by blast

text \<open>The log grows by an entry no connection of this node waits for.\<close>

lemma replica_inv_log:
  assumes "replica_inv full i log r"
  shows "replica_inv (full \<and> own i (app_writes [e]) = []) i (log @ [e]) r"
proof -
  have t: "take (rp_applied r) (log @ [e]) = take (rp_applied r) log"
    using assms by (simp add: replica_inv_def)
  have eq: "own i (app_writes (log @ [e])) = own i (app_writes log) @ own i (app_writes [e])" by simp
  have "mset (own i (app_writes log)) \<subseteq># mset (own i (app_writes (log @ [e])))"
    unfolding eq by simp
  then have sub: "mset (rp_sent r) + mset (rp_waiting r) \<subseteq># mset (own i (app_writes (log @ [e])))"
    using assms subset_mset.order_trans unfolding replica_inv_def by blast
  have len: "rp_applied r \<le> length (log @ [e])" using assms by (simp add: replica_inv_def)
  show ?thesis
    using assms sub len unfolding replica_inv_def t by (metis (no_types, lifting) append_Nil2 eq)
qed

lemma replica_inv_commit:
  assumes "replica_inv full i log r" "app_write e = Some (i, data)"
  shows "replica_inv full i (log @ [e]) (r\<lparr>rp_waiting := rp_waiting r @ [data]\<rparr>)"
proof -
  have "take (rp_applied r) (log @ [e]) = take (rp_applied r) log"
    "own i (app_writes (log @ [e])) = own i (app_writes log) @ [data]"
    using assms by (simp_all add: replica_inv_def)
  with assms(1) show ?thesis by (simp add: replica_inv_def)
qed

lemma replica_inv_publish:
  "replica_inv full i log (r\<lparr>rp_fwd := (rp_fwd r)\<lparr>fw_paths := ps\<rparr>\<rparr>) = replica_inv full i log r"
  by (simp add: replica_inv_def)

lemma replica_inv_apply:
  assumes "replica_inv full i log r"
  shows "replica_inv full i log (rp_apply dec log n r)"
proof -
  let ?new = "app_writes (take n (drop (rp_applied r) log))"
  obtain ch taken rest where ch: "forwarder (rp_sm r) = Some ch"
    "subseq (taken @ rest) (app_writes (take (rp_applied r) log))"
    "if fw_phase (fw_task (rp_fwd r)) = Stopped then \<not> ch_rx_alive ch \<and> ch_queue ch = [] else ch_rx_alive ch \<and> ch_queue ch = rest"
    "subseq (fw_delivered (rp_fwd r)) (foreign i taken)"
    "full \<longrightarrow> app_writes (take (rp_applied r) log) = taken @ rest \<and>
           fw_phase (fw_task (rp_fwd r)) \<noteq> Stopped \<and> fw_delivered (rp_fwd r) = foreign i taken \<and>
           mset (rp_sent r) + mset (rp_waiting r) = mset (own i (app_writes log))"
    using assms by (auto simp: replica_inv_def)
  have "app_writes (take (rp_applied (rp_apply dec log n r)) log) = app_writes (take (rp_applied r) log) @ ?new"
    by (simp add: rp_apply_parts take_min_add)
  moreover from this have "subseq (taken @ rest @ ?new) (app_writes (take (rp_applied (rp_apply dec log n r)) log))"
    using list_emb_append_mono [OF ch(2) subseq_order.order_refl [of ?new]] by simp
  ultimately show ?thesis using ch assms
    unfolding replica_inv_def rp_apply_parts
    by (intro conjI exI [of _ "if ch_rx_alive ch then ch\<lparr>ch_queue := ch_queue ch @ ?new\<rparr> else ch"]
        exI [of _ taken] exI [of _ "rest @ ?new"])
      (auto simp: send_all_Some replica_inv_def split: if_splits)
qed

lemma fwd_step_alive: "fwd_step ev w = Some w' \<Longrightarrow> ch_rx_alive (fw_rx w') = ch_rx_alive (fw_rx w)"
  by (auto simp: fwd_step.simps ch_recv_def Let_def
      split: fwd_phase.splits fwd_event.splits if_splits bool.splits option.splits list.splits)

lemma fwd_step_running: "fwd_step ev w = Some w' \<Longrightarrow> fw_phase (fw_task w) \<noteq> Stopped"
  by (auto simp: fwd_step.simps)

definition keeps_all :: "fwd_event \<Rightarrow> bool" where
  "keeps_all ev \<longleftrightarrow> (case ev of Path_Changed \<Rightarrow> True | Connect_Result b \<Rightarrow> True | Received b \<Rightarrow> b | _ \<Rightarrow> False)"

lemma fwd_step_keeps_running:
  "fwd_step ev w = Some w' \<Longrightarrow> keeps_all ev \<Longrightarrow> fw_phase (fw_task w') \<noteq> Stopped"
  by (auto simp: fwd_step.simps keeps_all_def Let_def
      split: fwd_phase.splits fwd_event.splits if_splits bool.splits option.splits)

lemma replica_inv_forward:
  assumes "replica_inv full i log r" "rp_forward ev r = Some r'"
  shows "replica_inv (full \<and> keeps_all ev) i log r'"
proof -
  obtain ch taken rest where ch: "forwarder (rp_sm r) = Some ch"
    "subseq (taken @ rest) (app_writes (take (rp_applied r) log))"
    "if fw_phase (fw_task (rp_fwd r)) = Stopped then \<not> ch_rx_alive ch \<and> ch_queue ch = [] else ch_rx_alive ch \<and> ch_queue ch = rest"
    "subseq (fw_delivered (rp_fwd r)) (foreign i taken)"
    "full \<longrightarrow> app_writes (take (rp_applied r) log) = taken @ rest \<and>
           fw_phase (fw_task (rp_fwd r)) \<noteq> Stopped \<and> fw_delivered (rp_fwd r) = foreign i taken \<and>
           mset (rp_sent r) + mset (rp_waiting r) = mset (own i (app_writes log))"
    using assms(1) by (auto simp: replica_inv_def)
  let ?w = "(rp_fwd r)\<lparr>fw_rx := ch\<rparr>"
  obtain w where step: "fwd_step ev ?w = Some w" and
    r': "r' = r\<lparr>rp_fwd := w, rp_sm := (rp_sm r)\<lparr>forwarder := Some (if fw_phase (fw_task w) = Stopped
        then \<lparr>ch_queue = [], ch_rx_alive = False\<rparr> else fw_rx w)\<rparr>,
      rp_db := rp_db r @ drop (length (fw_delivered (rp_fwd r))) (fw_delivered w)\<rparr>"
    using assms(2) ch(1) by (auto simp: rp_forward_def Let_def split: option.splits)
  have alive: "ch_rx_alive (fw_rx w)" "ch_queue ch = rest"
    using fwd_step_running [OF step] fwd_step_alive [OF step] ch(3) by auto
  have nid: "fw_node_id (fw_task ?w) = i" using assms(1) by (simp add: replica_inv_def)
  obtain t out where t: "rest = t @ ch_queue (fw_rx w)" "fw_delivered w = fw_delivered (rp_fwd r) @ out"
    "subseq out (foreign i t)" "ev \<noteq> Received False \<longrightarrow> out = foreign i t" "fw_node_id (fw_task w) = i"
    using fwd_step_takes [OF step] alive(2) nid by auto
  have sub: "subseq (fw_delivered w) (foreign i (taken @ t))"
    unfolding t(2) using list_emb_append_mono [OF ch(4) t(3)] by simp
  have all: "fw_phase (fw_task w) \<noteq> Stopped \<and> fw_delivered w = foreign i (taken @ t)"
    if "full" "keeps_all ev"
    using fwd_step_keeps_running [OF step that(2)] that ch(5) t(2,4) by (auto simp: keeps_all_def)
  show ?thesis
    unfolding replica_inv_def r'
    using assms(1) ch(2,5) t(1,2,5) sub all alive(1)
    by (intro conjI exI [of _ "if fw_phase (fw_task w) = Stopped then \<lparr>ch_queue = [], ch_rx_alive = False\<rparr> else fw_rx w"]
        exI [of _ "taken @ t"] exI [of _ "ch_queue (fw_rx w)"]) (auto simp: replica_inv_def)
qed

lemma mset_remove_nth:
  "k < length xs \<Longrightarrow> mset (take k xs @ drop (Suc k) xs) + {#xs ! k#} = mset xs"
  by (subst (4) id_take_nth_drop [of k xs]) simp_all

text \<open>Steps that move writes between the connections and SpacetimeDB only.\<close>

lemma replica_inv_books:
  assumes "replica_inv full i log r"
    and "rp_sm r' = rp_sm r" "rp_fwd r' = rp_fwd r" "rp_applied r' = rp_applied r"
    and "mset (rp_db r') + mset (rp_sent r) = mset (rp_db r) + mset (rp_sent r')"
    and sub: "mset (rp_sent r') + mset (rp_waiting r') \<subseteq># mset (rp_sent r) + mset (rp_waiting r)"
    and eq: "full' \<Longrightarrow> full \<and> mset (rp_sent r') + mset (rp_waiting r') = mset (rp_sent r) + mset (rp_waiting r)"
  shows "replica_inv full' i log r'"
proof -
  have "mset (rp_sent r') + mset (rp_waiting r') \<subseteq># mset (own i (app_writes log))"
    using assms(1) sub subset_mset.order_trans unfolding replica_inv_def by blast
  moreover have "mset (rp_db r') = mset (fw_delivered (rp_fwd r)) + mset (rp_sent r')"
    using assms(1,5) by (simp add: replica_inv_def add_ac)
  moreover have "mset (rp_sent r') + mset (rp_waiting r') = mset (own i (app_writes log))" if full'
    using eq [OF that] assms(1) unfolding replica_inv_def by auto
  ultimately show ?thesis
    using assms(1) eq unfolding replica_inv_def assms(2-4) by blast
qed

lemma replica_inv_answer:
  assumes "replica_inv full i log r" "rp_answer k acknowledged sent_ok r = Some r'"
  shows "replica_inv (full \<and> acknowledged \<and> sent_ok) i log r'"
proof -
  have k: "k < length (rp_waiting r)" using assms(2) by (simp add: rp_answer_def split: if_splits)
  let ?ws = "take k (rp_waiting r) @ drop (Suc k) (rp_waiting r)"
  let ?d = "rp_waiting r ! k"
  have r': "r' = (if acknowledged \<and> sent_ok
      then r\<lparr>rp_waiting := ?ws, rp_sent := rp_sent r @ [?d], rp_db := rp_db r @ [?d]\<rparr> else r\<lparr>rp_waiting := ?ws\<rparr>)"
    using assms(2) k by (auto simp: rp_answer_def Let_def)
  have split: "mset (rp_waiting r) = add_mset ?d (mset ?ws)"
    using mset_remove_nth [OF k] by simp
  show ?thesis
    by (rule replica_inv_books [OF assms(1)]) (auto simp: r' split)
qed

text \<open>A snapshot moves the node forward without a write for the forwarder.\<close>

lemma replica_inv_build:
  "replica_inv full i log r \<Longrightarrow> rp_build lib r = (res, r') \<Longrightarrow> replica_inv full i log r'"
  using rp_build_parts [of lib r res r'] unfolding replica_inv_def by simp

lemma replica_inv_skip:
  assumes "replica_inv full i log r" "rp_applied r \<le> n" "n \<le> length log" "forwarder s = forwarder (rp_sm r)"
  shows "replica_inv False i log (r\<lparr>rp_sm := s, rp_applied := n\<rparr>)"
proof -
  have "take n log = take (rp_applied r) log @ drop (rp_applied r) (take n log)"
    using assms(2) by (metis append_take_drop_id min.absorb1 take_take)
  then have "app_writes (take n log) = app_writes (take (rp_applied r) log) @ app_writes (drop (rp_applied r) (take n log))"
    using app_writes_append by metis
  then have "subseq xs (app_writes (take n log))" if "subseq xs (app_writes (take (rp_applied r) log))" for xs
    using that by (simp add: list_emb_prefix)
  with assms show ?thesis unfolding replica_inv_def by fastforce
qed

text \<open>
  The connection's side of these steps is \<open>inbound_step\<close>: when the library accepts a client's
  write, the request it accepts is the one of \<open>own_entry\<close>, nothing is sent to another node, and
  the message goes to SpacetimeDB.
\<close>

lemma inbound_step_commits:
  assumes "classify_message (Binary data) = Write_Kind" "get_raft sid p = Some g"
    and "client_write api \<lparr>raw_message = data, origin_node_id = node_id (pool_config p)\<rparr> g = (Inr (), g')"
  shows "\<exists>m'. inbound_step api post ws sid (Inr (Binary data)) (p, m, u) =
    (fst (forward_upstream ws (Binary data) u), [], [Binary data], set_raft sid g' p, m',
     snd (forward_upstream ws (Binary data) u))"
  using assms by (simp add: inbound_step_def propose_write_def Let_def split: prod.splits)

section \<open>Invariants of runs\<close>

text \<open>An event after which replica \<open>i\<close> still has, or will get, every write it had to get.\<close>

definition lossless :: "u64 \<Rightarrow> cl_event \<Rightarrow> bool" where
  "lossless i ev \<longleftrightarrow>
     (case ev of
        Replica_Forward j e \<Rightarrow> j = i \<longrightarrow> keeps_all e
      | Replica_Answer j k acknowledged sent_ok \<Rightarrow> j = i \<longrightarrow> acknowledged \<and> sent_ok
      | Replica_Restart j \<Rightarrow> j \<noteq> i
      | Replica_Install j k \<Rightarrow> j \<noteq> i
      | Other_Commit e \<Rightarrow> own i (app_writes [e]) = []
      | _ \<Rightarrow> True)"

lemma write_kind_untagged:
  "classify_message (Binary data) = Write_Kind \<Longrightarrow> first_byte data \<noteq> Some SHARD_CONFIG_TAG"
  by (auto simp: is_write_tag_def tag_defs first_byte_def SHARD_CONFIG_TAG_def
      elim!: classify_message.elims split: if_splits)

lemma app_write_own:
  "classify_message (Binary data) = Write_Kind \<Longrightarrow> app_write (own_entry i data lid) = Some (i, data)"
  by (simp add: app_write_def write_kind_untagged)

text \<open>
  \<open>knows_positions\<close> is what the step needs of snapshots: that their labels say how far a node is.
\<close>

definition knows_positions :: "cluster_lib \<Rightarrow> u64 \<Rightarrow> cl_event list \<Rightarrow> bool" where
  "knows_positions lib i evs \<longleftrightarrow>
     serde_roundtrip (cl_snap_to_vec lib) (cl_snap_from_slice lib) \<or> (\<forall>k. Replica_Install i k \<notin> set evs)"

lemma replica_inv_install:
  assumes "serde_roundtrip (cl_snap_to_vec lib) (cl_snap_from_slice lib)" "log_sorted log"
    "snap_upto lib log (length log) snap" "replays lib log r" and inv: "replica_inv full i log r"
  shows "replica_inv False i log (rp_install lib log snap r)"
  using assms(1-4)
  by (cases rule: rp_install_cases) (use replica_inv_skip [OF inv] replica_inv_weaken [OF inv] in auto)

lemma cl_exec_inv:
  assumes ex: "cl_exec lib ev c = Some c'" and "ev \<noteq> Replica_Restart i"
    and pos: "knows_positions lib i [ev]" "cl_reach lib urls evs c"
    and inv: "replica_inv full i (cl_log c) (cl_replicas c i)"
  shows "replica_inv (full \<and> lossless i ev) i (cl_log c') (cl_replicas c' i)"
  using ex
proof (cases rule: cl_exec_at [where i = i])
  case idle
  have "own i (app_writes [e]) = []" if "committed_entry ev = Some e" "lossless i ev" for e
    using that idle(2) ex by (cases ev) (auto simp: lossless_def app_write_own split: if_splits)
  with idle(1) inv replica_inv_log [OF inv] show ?thesis
    unfolding cl_exec_log(1) [OF ex] by (auto split: option.splits intro: replica_inv_weaken)
next
  case (client_commit data lid)
  then show ?thesis
    unfolding cl_exec_log(1) [OF ex] using replica_inv_commit [OF inv app_write_own [OF client_commit(2)]]
    by (auto simp: lossless_def)
next
  case (build res)
  then show ?thesis
    using replica_inv_weaken [OF replica_inv_build [OF inv build(2)]] cl_exec_log(1) [OF ex] by simp
next
  case (install k)
  then have rt: "serde_roundtrip (cl_snap_to_vec lib) (cl_snap_from_slice lib)"
    using pos(1) by (simp add: knows_positions_def)
  show ?thesis
    using cl_reach_cluster_inv [OF rt pos(2)] install replica_inv_install [OF rt _ _ _ inv]
    unfolding cl_exec_log(1) [OF ex] by (simp add: lossless_def cluster_inv_def)
qed (use assms(2) replica_inv_apply [OF inv] replica_inv_forward [OF inv] replica_inv_publish inv
      replica_inv_answer [OF inv] cl_exec_log(1) [OF ex]
    in \<open>auto simp: lossless_def intro: replica_inv_weaken\<close>)

lemma cl_reach_inv:
  assumes "cl_reach lib urls evs c" "Replica_Restart i \<notin> set evs" "knows_positions lib i evs"
  shows "replica_inv (list_all (lossless i) evs) i (cl_log c) (cl_replicas c i)"
  using assms
proof (induction rule: cl_reach.induct)
  case cl_start
  then show ?case by (simp add: cluster_new_def replica_inv_new)
next
  case (cl_step evs c ev c')
  then show ?case
    using cl_exec_inv [OF cl_step.hyps(2) _ _ cl_step.hyps(1), of i] by (auto simp: knows_positions_def)
qed

section \<open>Properties\<close>

definition quiet :: "u64 \<Rightarrow> cluster \<Rightarrow> bool" where
  "quiet i c \<longleftrightarrow>
     rp_applied (cl_replicas c i) = length (cl_log c) \<and> rp_waiting (cl_replicas c i) = [] \<and>
     sent (forwarder (rp_sm (cl_replicas c i))) = []"

lemma lossless_reach:
  assumes "list_all (lossless i) evs"
  shows "Replica_Restart i \<notin> set evs" "knows_positions lib i evs"
  using assms by (auto simp: list_all_iff lossless_def knows_positions_def)

lemma quiet_database:
  assumes "cl_reach lib urls evs c" "list_all (lossless i) evs" "quiet i c"
  shows "mset (rp_db (cl_replicas c i)) = mset (map snd (app_writes (cl_log c)))"
proof -
  let ?r = "cl_replicas c i"
  have "replica_inv True i (cl_log c) ?r"
    using cl_reach_inv [OF assms(1) lossless_reach [OF assms(2)]] assms(2) by simp
  then obtain taken rest ch where "forwarder (rp_sm ?r) = Some ch" "ch_queue ch = rest"
    "app_writes (take (rp_applied ?r) (cl_log c)) = taken @ rest" "fw_delivered (rp_fwd ?r) = foreign i taken"
    "mset (rp_sent ?r) + mset (rp_waiting ?r) = mset (own i (app_writes (cl_log c)))"
    "mset (rp_db ?r) = mset (fw_delivered (rp_fwd ?r)) + mset (rp_sent ?r)"
    by (auto simp: replica_inv_def)
  then show ?thesis
    using assms(3) mset_foreign_own [of "app_writes (cl_log c)" i] by (simp add: quiet_def sent_def)
qed

text \<open>
  C3. The databases receive the same writes. When on two nodes nothing was lost (no send failed,
  every committed write of their clients was acknowledged, no write was posted in their name to
  the API, no restart, no snapshot installed) and nothing is under way any more, their
  databases have received the same writes, each as often as it is in the log: the own ones
  through the client connections, the others through the forwarder.
\<close>

theorem quiet_databases_agree:
  assumes "cl_reach lib urls evs c" "list_all (lossless i) evs" "list_all (lossless j) evs"
    and "quiet i c" "quiet j c"
  shows "mset (rp_db (cl_replicas c i)) = mset (map snd (app_writes (cl_log c))) \<and>
    mset (rp_db (cl_replicas c j)) = mset (rp_db (cl_replicas c i))"
  using quiet_database [OF assms(1,2,4)] quiet_database [OF assms(1,3,5)] by simp


section \<open>Writes a snapshot covers\<close>

abbreviation avoids :: "bytes \<Rightarrow> (u64 \<times> bytes) list \<Rightarrow> bool" where
  "avoids d \<equiv> list_all (\<lambda>w. snd w \<noteq> d)"

text \<open>The write \<open>d\<close> is neither in the database of node \<open>i\<close> nor on any way to it.\<close>

definition misses :: "bytes \<Rightarrow> u64 \<Rightarrow> cluster \<Rightarrow> bool" where
  "misses d i c \<longleftrightarrow>
     d \<notin> set (rp_db (cl_replicas c i)) \<and> d \<notin> set (rp_waiting (cl_replicas c i)) \<and>
     avoids d (sent (forwarder (rp_sm (cl_replicas c i)))) \<and>
     avoids d (app_writes (drop (rp_applied (cl_replicas c i)) (cl_log c)))"

definition commits :: "bytes \<Rightarrow> cl_event \<Rightarrow> bool" where
  "commits d ev \<longleftrightarrow> (case committed_entry ev of None \<Rightarrow> False | Some e \<Rightarrow> \<not> avoids d (app_writes [e]))"

lemma avoids_take_drop:
  assumes "avoids d (app_writes es)"
  shows "avoids d (app_writes (take n es))" "avoids d (app_writes (drop n es))"
  using assms app_writes_append [of "take n es" "drop n es"] by simp_all

lemma avoids_send_all: "avoids d (sent tx) \<Longrightarrow> avoids d ms \<Longrightarrow> avoids d (sent (send_all ms tx))"
  by (simp add: sent_send_all)

lemma avoids_subseq: "subseq xs ys \<Longrightarrow> avoids d ys \<Longrightarrow> avoids d xs"
  by (induction rule: list_emb.induct) auto

lemma avoids_drop_mono:
  assumes "avoids d (app_writes (drop m es))" "m \<le> n"
  shows "avoids d (app_writes (drop n es))"
  using avoids_take_drop(2) [OF assms(1), of "n - m"] assms(2) by simp

lemma misses_forward:
  assumes "rp_forward ev r = Some r'" "d \<notin> set (rp_db r)" "avoids d (sent (forwarder (rp_sm r)))"
  shows "d \<notin> set (rp_db r')" "avoids d (sent (forwarder (rp_sm r')))" "rp_waiting r' = rp_waiting r"
    "rp_applied r' = rp_applied r"
proof -
  obtain ch w where ch: "forwarder (rp_sm r) = Some ch" and step: "fwd_step ev ((rp_fwd r)\<lparr>fw_rx := ch\<rparr>) = Some w"
    and r': "r' = r\<lparr>rp_fwd := w, rp_sm := (rp_sm r)\<lparr>forwarder := Some (if fw_phase (fw_task w) = Stopped
        then \<lparr>ch_queue = [], ch_rx_alive = False\<rparr> else fw_rx w)\<rparr>,
      rp_db := rp_db r @ drop (length (fw_delivered (rp_fwd r))) (fw_delivered w)\<rparr>"
    using assms(1) by (auto simp: rp_forward_def Let_def split: option.splits)
  obtain t out i where t: "ch_queue ch = t @ ch_queue (fw_rx w)" "fw_delivered w = fw_delivered (rp_fwd r) @ out"
    "subseq out (foreign i t)"
    using fwd_step_takes [OF step] by auto
  have "set out \<subseteq> snd ` set t"
    using subseq_mset [OF t(3)] set_mset_mono by (force simp: foreign_def)
  with assms(2,3) ch t(1,2) show "d \<notin> set (rp_db r')" "avoids d (sent (forwarder (rp_sm r')))"
    "rp_waiting r' = rp_waiting r" "rp_applied r' = rp_applied r"
    by (auto simp: r' sent_def list_all_iff)
qed

lemma misses_batch:
  assumes "avoids d (sent (forwarder (rp_sm r)))" "avoids d (app_writes (drop (rp_applied r) log))"
  shows "avoids d (sent (forwarder (rp_sm (rp_apply dec log n r))))"
    "avoids d (app_writes (drop (rp_applied (rp_apply dec log n r)) log))"
  using assms avoids_drop_mono [OF assms(2), of "rp_applied r + n"]
  by (simp_all add: rp_apply_parts avoids_send_all avoids_take_drop(1) min_def)

lemma misses_answer:
  assumes "rp_answer k a b r = Some r'" "d \<notin> set (rp_db r)" "d \<notin> set (rp_waiting r)"
  shows "d \<notin> set (rp_db r')" "d \<notin> set (rp_waiting r')" "rp_sm r' = rp_sm r" "rp_applied r' = rp_applied r"
  using assms by (auto simp: rp_answer_def Let_def dest: in_set_takeD in_set_dropD split: if_splits)

lemma misses_install:
  assumes "serde_roundtrip (cl_snap_to_vec lib) (cl_snap_from_slice lib)" "log_sorted log"
    "snap_upto lib log (length log) snap" "replays lib log r" "avoids d (app_writes (drop (rp_applied r) log))"
  shows "avoids d (app_writes (drop (rp_applied (rp_install lib log snap r)) log))"
    "forwarder (rp_sm (rp_install lib log snap r)) = forwarder (rp_sm r)"
    "rp_db (rp_install lib log snap r) = rp_db r" "rp_waiting (rp_install lib log snap r) = rp_waiting r"
  by (cases rule: rp_install_cases [OF assms(1-4)]; use assms(5) avoids_drop_mono [OF assms(5)] in simp)+

text \<open>A step that does not commit the write again keeps it out of reach of the node.\<close>

lemma misses_exec:
  assumes rt: "serde_roundtrip (cl_snap_to_vec lib) (cl_snap_from_slice lib)" and ci: "cluster_inv lib c"
    and ex: "cl_exec lib ev c = Some c'" and "ev \<noteq> Replica_Restart i" "\<not> commits d ev"
    and m: "misses d i c"
  shows "misses d i c'"
proof -
  let ?r = "cl_replicas c i" and ?r' = "cl_replicas c' i"
  have ok: "log_sorted (cl_log c)" "replays lib (cl_log c) ?r" "rp_applied ?r \<le> length (cl_log c)"
    using ci by (simp_all add: cluster_inv_def replays_def)
  note old = m [unfolded misses_def]
  have "d \<notin> set (rp_db ?r') \<and> d \<notin> set (rp_waiting ?r') \<and> avoids d (sent (forwarder (rp_sm ?r'))) \<and>
      avoids d (app_writes (drop (rp_applied ?r') (cl_log c)))"
    using ex
  proof (cases rule: cl_exec_at [where i = i])
    case (client_commit data lid)
    with assms(5) old app_write_own [OF client_commit(2)] show ?thesis by (simp add: commits_def)
  next
    case (install k)
    have "snap_upto lib (cl_log c) (length (cl_log c)) (cl_snapshots c ! k)"
      using ci install(2) by (simp add: cluster_inv_def)
    from misses_install [OF rt ok(1) this ok(2)] old show ?thesis unfolding install(3) by metis
  next
    case (build res)
    then show ?thesis using rp_build_parts [OF build(2)] old by simp
  qed (use old assms(4) misses_batch misses_forward misses_answer in \<open>auto simp: rp_apply_parts\<close>)
  moreover have "avoids d (app_writes (case committed_entry ev of None \<Rightarrow> [] | Some e \<Rightarrow> [e]))"
    using assms(5) by (cases "committed_entry ev") (simp_all add: commits_def del: batch_simps(3))
  moreover have "rp_applied ?r' \<le> length (cl_log c)"
    using cluster_inv_step [OF ex rt ok(1) _ ok(2)] ci by (simp add: cluster_inv_def replays_def)
  ultimately show ?thesis
    by (simp add: misses_def cl_exec_log(1) [OF ex])
qed

lemma cl_reach_continue:
  "cl_reach lib urls evs c \<Longrightarrow> cl_execs lib evs' c = Some c' \<Longrightarrow> cl_reach lib urls (evs @ evs') c'"
proof (induction evs' arbitrary: evs c)
  case (Cons ev evs')
  then obtain c1 where "cl_exec lib ev c = Some c1" "cl_execs lib evs' c1 = Some c'"
    by (auto split: option.splits)
  with Cons.IH cl_step [OF Cons.prems(1)] show ?case by fastforce
qed simp

lemma misses_execs:
  assumes rt: "serde_roundtrip (cl_snap_to_vec lib) (cl_snap_from_slice lib)"
  shows "cl_execs lib evs c = Some c' \<Longrightarrow> cluster_inv lib c \<Longrightarrow> misses d i c \<Longrightarrow>
    list_all (\<lambda>ev. ev \<noteq> Replica_Restart i \<and> \<not> commits d ev) evs \<Longrightarrow> misses d i c'"
proof (induction evs arbitrary: c)
  case (Cons ev evs)
  then obtain c1 where c1: "cl_exec lib ev c = Some c1" "cl_execs lib evs c1 = Some c'"
    by (auto simp del: cl_exec.simps split: option.splits)
  moreover have "cluster_inv lib c1" by (rule cluster_inv_exec [OF rt Cons.prems(2) c1(1)])
  moreover have "misses d i c1"
    using misses_exec [OF rt Cons.prems(2) c1(1) _ _ Cons.prems(3)] Cons.prems(4) by simp
  ultimately show ?case using Cons.IH Cons.prems(4) by simp
qed simp

lemma cl_execs_log: "cl_execs lib evs c = Some c' \<Longrightarrow> \<exists>ext. cl_log c' = cl_log c @ ext"
proof (induction evs arbitrary: c)
  case (Cons ev evs)
  then obtain c1 where "cl_exec lib ev c = Some c1" "cl_execs lib evs c1 = Some c'"
    by (auto simp del: cl_exec.simps split: option.splits)
  then show ?case using Cons.IH cl_exec_log(1) by fastforce
qed simp

text \<open>What a node has before it has applied a write of another node that is in the log once.\<close>

lemma not_yet_received:
  assumes inv: "replica_inv full i log r" and n: "rp_applied r \<le> n" "n < length log"
    and w: "app_write (log ! n) = Some (j, d)" "j \<noteq> i" and once: "avoids d (app_writes (take n log @ drop (Suc n) log))"
  shows "d \<notin> set (rp_db r)" "d \<notin> set (rp_waiting r)" "avoids d (sent (forwarder (rp_sm r)))"
proof -
  obtain ch taken rest where ch: "forwarder (rp_sm r) = Some ch" "subseq (taken @ rest) (app_writes (take (rp_applied r) log))"
    "if fw_phase (fw_task (rp_fwd r)) = Stopped then \<not> ch_rx_alive ch \<and> ch_queue ch = [] else ch_rx_alive ch \<and> ch_queue ch = rest"
    "subseq (fw_delivered (rp_fwd r)) (foreign i taken)"
    and books: "mset (rp_db r) = mset (fw_delivered (rp_fwd r)) + mset (rp_sent r)"
    "mset (rp_sent r) + mset (rp_waiting r) \<subseteq># mset (own i (app_writes log))"
    using inv by (auto simp: replica_inv_def)
  have "take (rp_applied r) (take n log) = take (rp_applied r) log" using n(1) by (simp add: min_def)
  then have avoid: "avoids d taken" "avoids d rest"
    using avoids_take_drop(1) [of d "take n log" "rp_applied r"] once avoids_subseq [OF ch(2), of d] by simp_all
  have "app_writes log = app_writes (take n log) @ (j, d) # app_writes (drop (Suc n) log)"
    by (subst id_take_nth_drop [OF n(2)]) (simp add: w(1))
  then have "d \<notin> set (own i (app_writes log))"
    using once w(2) by (auto simp: own_def list_all_iff)
  then have mine: "d \<notin> set (rp_sent r)" "d \<notin> set (rp_waiting r)"
    using set_mset_mono [OF books(2)] by auto
  have "d \<notin> set (foreign i taken)" using avoid(1) by (auto simp: foreign_def list_all_iff)
  then have "d \<notin> set (fw_delivered (rp_fwd r))" using set_mset_mono [OF subseq_mset [OF ch(4)]] by auto
  then show "d \<notin> set (rp_db r)" using arg_cong [OF books(1), of set_mset] mine(1) by auto
  show "d \<notin> set (rp_waiting r)" by (rule mine(2))
  show "avoids d (sent (forwarder (rp_sm r)))"
    using ch(1,3) avoid(2) by (auto simp: sent_def split: if_splits)
qed

text \<open>
  C12. A snapshot hides writes from the database. When a node installs a snapshot that covers a
  write of another node which it has not applied yet, and which is in the log once, then as
  long as it does not restart its database never receives that write, whatever steps follow,
  although the write is in the committed log.
\<close>

theorem snapshot_hides_write:
  assumes "serde_roundtrip (cl_snap_to_vec lib) (cl_snap_from_slice lib)"
    and "cl_reach lib urls evs c" "Replica_Restart i \<notin> set evs"
    and "rp_applied (cl_replicas c i) \<le> n" "n < length (cl_log c)"
    and "app_write (cl_log c ! n) = Some (j, d)" "j \<noteq> i"
    and "list_all (\<lambda>w. snd w \<noteq> d) (app_writes (take n (cl_log c) @ drop (Suc n) (cl_log c)))"
    and "cl_exec lib (Replica_Install i k) c = Some c1" "n < rp_applied (cl_replicas c1 i)"
    and "cl_execs lib evs' c1 = Some c2"
    and "list_all (\<lambda>ev. ev \<noteq> Replica_Restart i \<and> \<not> commits d ev) evs'"
  shows "d \<notin> set (rp_db (cl_replicas c2 i)) \<and> (j, d) \<in> set (app_writes (cl_log c2))"
proof -
  have k: "k < length (cl_snapshots c)" and
    c1: "c1 = set_replica i (rp_install lib (cl_log c) (cl_snapshots c ! k) (cl_replicas c i)) c"
    using assms(9) by (auto split: if_splits)
  have ci: "cluster_inv lib c" by (rule cl_reach_cluster_inv [OF assms(1,2)])
  then have ok: "log_sorted (cl_log c)" "snap_upto lib (cl_log c) (length (cl_log c)) (cl_snapshots c ! k)"
    "replays lib (cl_log c) (cl_replicas c i)"
    using k by (simp_all add: cluster_inv_def)
  have inv: "replica_inv (list_all (lossless i) evs) i (cl_log c) (cl_replicas c i)"
    using cl_reach_inv [OF assms(2,3)] assms(1) by (simp add: knows_positions_def)
  note new = not_yet_received [OF inv assms(4-8)]
  have "misses d i c1"
  proof (cases rule: rp_install_cases [OF assms(1) ok, case_names ignored installed])
    case ignored
    with c1 assms(4,10) show ?thesis by simp
  next
    case (installed m s)
    have "Suc n \<le> m" using installed c1 assms(10) by simp
    then have "avoids d (app_writes (drop m (cl_log c)))"
      using avoids_drop_mono [of d "Suc n"] assms(8) by simp
    with installed new show ?thesis by (simp add: c1 misses_def)
  qed
  from misses_execs [OF assms(1,11) cluster_inv_exec [OF assms(1) ci assms(9)] this assms(12)]
  have "d \<notin> set (rp_db (cl_replicas c2 i))" by (simp add: misses_def)
  moreover obtain ext where "cl_log c2 = cl_log c @ ext"
    using cl_execs_log [OF assms(11)] c1 by auto
  moreover have "(j, d) \<in> set (app_writes (cl_log c))"
    by (subst id_take_nth_drop [OF assms(5)]) (simp add: assms(6))
  ultimately show ?thesis by simp
qed

section \<open>Coming to rest\<close>

text \<open>The part of the cluster that only replica \<open>i\<close> may change.\<close>

definition others_same :: "u64 \<Rightarrow> cluster \<Rightarrow> cluster \<Rightarrow> bool" where
  "others_same i c c' \<longleftrightarrow> cl_log c' = cl_log c \<and> (\<forall>j. j \<noteq> i \<longrightarrow> cl_replicas c' j = cl_replicas c j)"

lemma others_same_trans: "others_same i a b \<Longrightarrow> others_same i b c \<Longrightarrow> others_same i a c"
  by (simp add: others_same_def)

lemma settle_answers:
  "\<exists>evs c'. cl_execs lib evs c = Some c' \<and> list_all (lossless i) evs \<and> others_same i c c' \<and>
     rp_waiting (cl_replicas c' i) = [] \<and> rp_applied (cl_replicas c' i) = rp_applied (cl_replicas c i) \<and>
     rp_sm (cl_replicas c' i) = rp_sm (cl_replicas c i) \<and> rp_fwd (cl_replicas c' i) = rp_fwd (cl_replicas c i)"
proof (induction "rp_waiting (cl_replicas c i)" arbitrary: c)
  case Nil
  then show ?case by (intro exI [of _ "[]"] exI [of _ c]) (simp add: others_same_def)
next
  case (Cons d ds)
  obtain c1 where c1: "cl_exec lib (Replica_Answer i 0 True True) c = Some c1" "rp_waiting (cl_replicas c1 i) = ds"
    "others_same i c c1" "rp_applied (cl_replicas c1 i) = rp_applied (cl_replicas c i)"
    "rp_sm (cl_replicas c1 i) = rp_sm (cl_replicas c i)" "rp_fwd (cl_replicas c1 i) = rp_fwd (cl_replicas c i)"
    using Cons.hyps(2) [symmetric] by (simp add: rp_answer_def Let_def others_same_def)
  from Cons.hyps(1) [OF c1(2) [symmetric]] obtain evs c' where
    rest: "cl_execs lib evs c1 = Some c'" "list_all (lossless i) evs" "others_same i c1 c'"
    "rp_waiting (cl_replicas c' i) = []" "rp_applied (cl_replicas c' i) = rp_applied (cl_replicas c1 i)"
    "rp_sm (cl_replicas c' i) = rp_sm (cl_replicas c1 i)" "rp_fwd (cl_replicas c' i) = rp_fwd (cl_replicas c1 i)"
    by blast
  have "cl_execs lib (Replica_Answer i 0 True True # evs) c = Some c'"
    using c1(1) rest(1) by (simp del: cl_exec.simps)
  moreover have "list_all (lossless i) (Replica_Answer i 0 True True # evs)"
    using rest(2) by (simp add: lossless_def)
  ultimately show ?case
    using c1 rest others_same_trans [OF c1(3) rest(3)] by metis
qed

lemma rp_forward_receive:
  assumes "fw_phase (fw_task (rp_fwd r)) = Connected url" "forwarder (rp_sm r) = Some ch" "ch_queue ch = msg # ms"
  shows "\<exists>r1 ch1. rp_forward (Received True) r = Some r1 \<and> ch_queue ch1 = ms \<and>
    forwarder (rp_sm r1) = Some ch1 \<and> fw_phase (fw_task (rp_fwd r1)) = Connected url \<and>
    rp_applied r1 = rp_applied r \<and> rp_waiting r1 = rp_waiting r"
  using assms by (cases msg) (simp add: rp_forward_def fwd_step.simps ch_recv_def Let_def)

lemma settle_forwarder:
  assumes "fw_phase (fw_task (rp_fwd (cl_replicas c i))) = Connected url"
    and "forwarder (rp_sm (cl_replicas c i)) = Some ch"
  shows "\<exists>evs c'. cl_execs lib evs c = Some c' \<and> list_all (lossless i) evs \<and> others_same i c c' \<and>
     sent (forwarder (rp_sm (cl_replicas c' i))) = [] \<and>
     rp_applied (cl_replicas c' i) = rp_applied (cl_replicas c i) \<and> rp_waiting (cl_replicas c' i) = rp_waiting (cl_replicas c i)"
  using assms
proof (induction "ch_queue ch" arbitrary: c ch)
  case Nil
  then show ?case by (intro exI [of _ "[]"] exI [of _ c]) (simp add: others_same_def sent_def)
next
  case (Cons msg ms)
  let ?ev = "Replica_Forward i (Received True)"
  obtain r1 ch1 where r1: "rp_forward (Received True) (cl_replicas c i) = Some r1" "ch_queue ch1 = ms"
    "forwarder (rp_sm r1) = Some ch1" "fw_phase (fw_task (rp_fwd r1)) = Connected url"
    "rp_applied r1 = rp_applied (cl_replicas c i)" "rp_waiting r1 = rp_waiting (cl_replicas c i)"
    using rp_forward_receive [OF Cons.prems Cons.hyps(2) [symmetric]] by blast
  define c1 where "c1 = set_replica i r1 c"
  have c1: "cl_exec lib ?ev c = Some c1" "ch_queue ch1 = ms"
    "forwarder (rp_sm (cl_replicas c1 i)) = Some ch1" "fw_phase (fw_task (rp_fwd (cl_replicas c1 i))) = Connected url"
    "others_same i c c1" "rp_applied (cl_replicas c1 i) = rp_applied (cl_replicas c i)"
    "rp_waiting (cl_replicas c1 i) = rp_waiting (cl_replicas c i)"
    using r1 by (simp_all add: c1_def others_same_def)
  from Cons.hyps(1) [OF c1(2) [symmetric] c1(4,3)] obtain evs c' where
    rest: "cl_execs lib evs c1 = Some c'" "list_all (lossless i) evs" "others_same i c1 c'"
    "sent (forwarder (rp_sm (cl_replicas c' i))) = []" "rp_applied (cl_replicas c' i) = rp_applied (cl_replicas c1 i)"
    "rp_waiting (cl_replicas c' i) = rp_waiting (cl_replicas c1 i)" by blast
  have "cl_execs lib (?ev # evs) c = Some c'" using c1(1) rest(1) by (simp del: cl_exec.simps)
  moreover have "list_all (lossless i) (?ev # evs)" using rest(2) by (simp add: lossless_def keeps_all_def)
  ultimately show ?case
    using c1 rest others_same_trans [OF c1(5) rest(3)] by metis
qed

text \<open>
  C11. A node can always come to rest. While nothing was lost on it and its forwarder is
  connected, there is a continuation by steps of this node alone after which nothing is under
  way on it and its database has received every committed write.
\<close>

theorem replica_can_settle:
  assumes "cl_reach lib urls evs c" "list_all (lossless i) evs"
    and "fw_phase (fw_task (rp_fwd (cl_replicas c i))) = Connected url"
  shows "\<exists>evs' c'. cl_reach lib urls (evs @ evs') c' \<and> list_all (lossless i) evs' \<and> others_same i c c' \<and>
    quiet i c' \<and> mset (rp_db (cl_replicas c' i)) = mset (map snd (app_writes (cl_log c)))"
proof -
  let ?e1 = "Replica_Apply i (length (cl_log c))"
  obtain ch where "forwarder (rp_sm (cl_replicas c i)) = Some ch"
    using cl_reach_inv [OF assms(1) lossless_reach [OF assms(2)]] by (auto simp: replica_inv_def)
  then obtain c1 ch1 where c1: "cl_execs lib [?e1] c = Some c1" "others_same i c c1"
    "rp_applied (cl_replicas c1 i) = length (cl_log c)"
    "fw_phase (fw_task (rp_fwd (cl_replicas c1 i))) = Connected url" "forwarder (rp_sm (cl_replicas c1 i)) = Some ch1"
    using assms(3) by (simp add: rp_apply_parts others_same_def send_all_Some)
  obtain e2 c2 where c2: "cl_execs lib e2 c1 = Some c2" "list_all (lossless i) e2" "others_same i c1 c2"
    "rp_waiting (cl_replicas c2 i) = []" "rp_applied (cl_replicas c2 i) = length (cl_log c)"
    "fw_phase (fw_task (rp_fwd (cl_replicas c2 i))) = Connected url" "forwarder (rp_sm (cl_replicas c2 i)) = Some ch1"
    using settle_answers [of lib c1 i] c1(3-5) by metis
  obtain e3 c3 where c3: "cl_execs lib e3 c2 = Some c3" "list_all (lossless i) e3" "others_same i c2 c3"
    "sent (forwarder (rp_sm (cl_replicas c3 i))) = []" "rp_waiting (cl_replicas c3 i) = []"
    "rp_applied (cl_replicas c3 i) = length (cl_log c)"
    using settle_forwarder [OF c2(6,7)] c2(4,5) by metis
  let ?evs = "[?e1] @ e2 @ e3"
  have same: "others_same i c c3" using others_same_trans c1(2) c2(3) c3(3) by blast
  have reach: "cl_reach lib urls (evs @ ?evs) c3"
    by (rule cl_reach_continue [OF assms(1)]) (use c1(1) c2(1) c3(1) in \<open>simp add: cl_execs_append\<close>)
  have all: "list_all (lossless i) ?evs" using c2(2) c3(2) by (simp add: lossless_def)
  have q: "quiet i c3" using c3 same by (simp add: quiet_def others_same_def)
  have "mset (rp_db (cl_replicas c3 i)) = mset (map snd (app_writes (cl_log c)))"
    using quiet_database [OF reach _ q] assms(2) all same by (simp add: others_same_def)
  with reach all same q show ?thesis by blast
qed

section \<open>Runs in which the databases differ\<close>

definition demo_race :: "cl_event list" where
  "demo_race = demo_two_writes @ demo_connect 1 @ demo_connect 2 @
     [Replica_Apply 1 2, Replica_Apply 2 2,
      Replica_Forward 1 (Received True), Replica_Forward 1 (Received True), Replica_Answer 1 0 True True,
      Replica_Forward 2 (Received True), Replica_Forward 2 (Received True), Replica_Answer 2 0 True True]"

definition demo_deliver :: "cl_event list" where
  "demo_deliver = demo_connect 1 @ [Replica_Apply 1 1, Replica_Forward 1 (Received True)]"

lemma demo_race_run:
  "\<exists>c. cl_execs lib demo_race (cluster_new demo_urls) = Some c \<and> quiet 1 c \<and> quiet 2 c \<and>
     rp_db (cl_replicas c 1) = [[3, 20], [3, 10]] \<and> rp_db (cl_replicas c 2) = [[3, 10], [3, 20]]"
  by (simp add: demo_race_def demo_two_writes_def demo_connect_def demo_urls_def run_simps quiet_def sent_def)

lemma demo_race_lossless: "list_all (lossless 1) demo_race" "list_all (lossless 2) demo_race"
  by (simp_all add: demo_race_def demo_two_writes_def demo_connect_def lossless_def keeps_all_def)


theorem quiet_databases_agree_witness:
  "\<exists>c. cl_reach (demo_lib demo_inner7) demo_urls demo_race c \<and>
     mset (rp_db (cl_replicas c 1)) = mset (rp_db (cl_replicas c 2)) \<and> rp_db (cl_replicas c 1) = [[3, 20], [3, 10]]"
proof -
  obtain c where c: "cl_execs (demo_lib demo_inner7) demo_race (cluster_new demo_urls) = Some c" "quiet 2 c" "quiet 1 c"
    "rp_db (cl_replicas c 1) = [[3, 20], [3, 10]]"
    using demo_race_run by blast
  from quiet_databases_agree [OF cl_reach_execs [OF c(1)] demo_race_lossless(2,1) c(2,3)] c(4)
    cl_reach_execs [OF c(1)] show ?thesis by auto
qed

text \<open>
  A restart delivers again. After a restart the log is applied from its beginning to the new
  state machine, whose forwarder sends the foreign writes a second time to a database that has
  them: the log has the write once, the database receives it twice.
\<close>

lemma restart_delivers_again:
  "\<exists>evs c. cl_reach lib demo_urls evs c \<and> app_writes (cl_log c) = [(2, [3, 20])] \<and>
     rp_db (cl_replicas c 1) = [[3, 20], [3, 20]]"
proof -
  let ?evs = "Client_Commit 2 [3, 20] (demo_lid 1) # demo_deliver @ [Replica_Restart 1] @ demo_deliver"
  have "\<exists>c. cl_execs lib ?evs (cluster_new demo_urls) = Some c \<and> app_writes (cl_log c) = [(2, [3, 20])] \<and>
      rp_db (cl_replicas c 1) = [[3, 20], [3, 20]]"
    by (simp add: demo_deliver_def demo_connect_def demo_urls_def run_simps app_write_def)
  then show ?thesis using cl_reach_execs by blast
qed

text \<open>
  A lost answer loses the write where it came from. When a write is committed but its
  proposal returns an error, the connection drops it and the forwarder of the node skips it as
  its own: every other node executes it, and the node of the client never does, although nothing
  is under way any more.
\<close>

lemma lost_answer_loses_write_at_origin:
  "\<exists>evs c. cl_reach lib demo_urls evs c \<and> quiet 1 c \<and> quiet 2 c \<and> list_all (lossless 1) evs \<and>
     app_writes (cl_log c) = [(2, [3, 20])] \<and> rp_db (cl_replicas c 1) = [[3, 20]] \<and> rp_db (cl_replicas c 2) = []"
proof -
  let ?evs = "Client_Commit 2 [3, 20] (demo_lid 1) # demo_deliver @ demo_connect 2 @
    [Replica_Apply 2 1, Replica_Forward 2 (Received True), Replica_Answer 2 0 False False]"
  have "\<exists>c. cl_execs lib ?evs (cluster_new demo_urls) = Some c \<and> quiet 1 c \<and> quiet 2 c \<and>
      app_writes (cl_log c) = [(2, [3, 20])] \<and> rp_db (cl_replicas c 1) = [[3, 20]] \<and> rp_db (cl_replicas c 2) = []"
    by (simp add: demo_deliver_def demo_connect_def demo_urls_def run_simps app_write_def quiet_def sent_def)
  moreover have "list_all (lossless 1) ?evs"
    by (simp add: demo_deliver_def demo_connect_def lossless_def keeps_all_def)
  ultimately show ?thesis using cl_reach_execs by blast
qed

text \<open>
  A write posted to the API in the name of a node is missing there. No connection of that node
  waits for it and its forwarder takes it for an own write, so every database but that one
  receives it. Posted with an id no node has, it reaches all of them.
\<close>

lemma posted_write_missing_at_its_origin:
  "\<exists>evs c. cl_reach lib demo_urls evs c \<and> quiet 1 c \<and> quiet 2 c \<and> list_all (lossless 2) evs \<and>
     app_writes (cl_log c) = [(1, [3, 10]), (0, [3, 20])] \<and> rp_db (cl_replicas c 1) = [[3, 20]] \<and>
     rp_db (cl_replicas c 2) = [[3, 10], [3, 20]]"
proof -
  let ?evs = "[Other_Commit (own_entry 1 [3, 10] (demo_lid 1)), Other_Commit (own_entry 0 [3, 20] (demo_lid 2))] @
    demo_connect 1 @ demo_connect 2 @ [Replica_Apply 1 2, Replica_Apply 2 2, Replica_Forward 1 (Received True),
    Replica_Forward 1 (Received True), Replica_Forward 2 (Received True), Replica_Forward 2 (Received True)]"
  have "\<exists>c. cl_execs lib ?evs (cluster_new demo_urls) = Some c \<and> quiet 1 c \<and> quiet 2 c \<and>
      app_writes (cl_log c) = [(1, [3, 10]), (0, [3, 20])] \<and> rp_db (cl_replicas c 1) = [[3, 20]] \<and>
      rp_db (cl_replicas c 2) = [[3, 10], [3, 20]]"
    by (simp add: demo_connect_def demo_urls_def run_simps app_write_def quiet_def sent_def)
  moreover have "list_all (lossless 2) ?evs"
    by (simp add: demo_connect_def lossless_def keeps_all_def app_write_def first_byte_def SHARD_CONFIG_TAG_def)
  ultimately show ?thesis using cl_reach_execs by blast
qed

section \<open>Instances\<close>

lemma demo_race_reach: "\<exists>c. cl_reach lib demo_urls demo_race c \<and> quiet 1 c \<and> quiet 2 c"
  using demo_race_run cl_reach_execs by blast


lemma demo_unsettled:
  "\<exists>c. cl_execs lib (demo_two_writes @ demo_connect 1) (cluster_new demo_urls) = Some c \<and>
     fw_phase (fw_task (rp_fwd (cl_replicas c 1))) = Connected ''ws://db/m'' \<and>
     map snd (app_writes (cl_log c)) = [[3, 10], [3, 20]]"
  by (simp add: demo_two_writes_def demo_connect_def demo_urls_def run_simps app_write_def)

theorem replica_can_settle_witness:
  "\<exists>evs c. cl_reach (demo_lib demo_inner7) demo_urls evs c \<and> quiet 1 c \<and> mset (rp_db (cl_replicas c 1)) = {#[3, 10], [3, 20]#}"
proof -
  obtain c where c: "cl_execs (demo_lib demo_inner7) (demo_two_writes @ demo_connect 1) (cluster_new demo_urls) = Some c"
    "fw_phase (fw_task (rp_fwd (cl_replicas c 1))) = Connected ''ws://db/m''"
    "map snd (app_writes (cl_log c)) = [[3, 10], [3, 20]]"
    using demo_unsettled [of "demo_lib demo_inner7"] by (elim exE conjE) (rule that)
  have "list_all (lossless 1) (demo_two_writes @ demo_connect 1)"
    by (simp add: demo_two_writes_def demo_connect_def lossless_def keeps_all_def)
  from replica_can_settle [OF cl_reach_execs [OF c(1)] this c(2)] obtain evs' c' where
    "cl_reach (demo_lib demo_inner7) demo_urls ((demo_two_writes @ demo_connect 1) @ evs') c'" "quiet 1 c'"
    "mset (rp_db (cl_replicas c' 1)) = mset (map snd (app_writes (cl_log c)))" by blast
  then show ?thesis unfolding c(3) mset.simps by blast
qed

text \<open>Node 2 applies its client's write and builds a snapshot; node 1 is connected and behind.\<close>

definition demo_behind :: "cl_event list" where
  "demo_behind = [Client_Commit 2 [3, 20] (demo_lid 1), Replica_Apply 2 1, Replica_Build 2] @ demo_connect 1"

definition demo_inner1 :: state_machine_inner where
  "demo_inner1 = inner_new\<lparr>last_applied := Some (demo_lid 1), applied_count := 1\<rparr>"

lemma demo_behind_run:
  "\<exists>c c1 c2. cl_execs (demo_lib demo_inner1) demo_behind (cluster_new demo_urls) = Some c \<and>
     cl_exec (demo_lib demo_inner1) (Replica_Install 1 0) c = Some c1 \<and>
     cl_execs (demo_lib demo_inner1) [Replica_Apply 1 1] c1 = Some c2 \<and>
     rp_applied (cl_replicas c 1) = 0 \<and> rp_applied (cl_replicas c1 1) = 1 \<and>
     cl_log c = [own_entry 2 [3, 20] (demo_lid 1)] \<and> quiet 1 c2"
  by (simp add: demo_behind_def demo_inner1_def demo_connect_def demo_urls_def run_simps snapshot_run_simps
      quiet_def sent_def)

theorem snapshot_hides_write_witness:
  "\<exists>c2. cl_reach (demo_lib demo_inner1) demo_urls (demo_behind @ [Replica_Install 1 0, Replica_Apply 1 1]) c2 \<and>
     quiet 1 c2 \<and> [3, 20] \<notin> set (rp_db (cl_replicas c2 1)) \<and> (2, [3, 20]) \<in> set (app_writes (cl_log c2))"
proof -
  obtain c c1 c2 where c: "cl_execs (demo_lib demo_inner1) demo_behind (cluster_new demo_urls) = Some c"
    "cl_exec (demo_lib demo_inner1) (Replica_Install 1 0) c = Some c1"
    "cl_execs (demo_lib demo_inner1) [Replica_Apply 1 1] c1 = Some c2" "rp_applied (cl_replicas c 1) = 0"
    "rp_applied (cl_replicas c1 1) = 1" "cl_log c = [own_entry 2 [3, 20] (demo_lid 1)]" "quiet 1 c2"
    using demo_behind_run by blast
  have reach: "cl_reach (demo_lib demo_inner1) demo_urls (demo_behind @ [Replica_Install 1 0, Replica_Apply 1 1]) c2"
    by (rule cl_reach_continue [OF cl_reach_execs [OF c(1)]]) (use c(2,3) in \<open>simp del: cl_exec.simps\<close>)
  have "Replica_Restart 1 \<notin> set demo_behind" "app_write (cl_log c ! 0) = Some (2, [3, 20])"
    using c(6) by (simp_all add: demo_behind_def demo_connect_def app_write_def first_byte_def SHARD_CONFIG_TAG_def)
  with snapshot_hides_write [OF demo_lib_roundtrip cl_reach_execs [OF c(1)], of 1 0 2 "[3, 20]" 0 c1 "[Replica_Apply 1 1]" c2]
    c have "[3, 20] \<notin> set (rp_db (cl_replicas c2 1)) \<and> (2, [3, 20]) \<in> set (app_writes (cl_log c2))"
    by (simp add: commits_def del: cl_exec.simps cl_execs.simps)
  with reach c(7) show ?thesis by blast
qed

end
