(* ===== verification/Pool_Runs.thy ===== *)
theory Pool_Runs
  imports Pool_Demo
begin

text \<open>
  Runs of a node's pool: the public operations, the configuration listener and what the
  consensus cores do to the state machines, in any interleaving, from a freshly created pool.
  The invariant of the reachable pools and the agreement of the two routing tables.
\<close>

section \<open>Events of a node\<close>

text \<open>What the events need besides the libraries: the codecs, the hash order, the HTTP client.\<close>

record ('r, 'db, 'tx, 'cl, 'cert) node_env =
  env_libs :: "('r, 'db, 'tx, 'cl, 'cert) libs"
  env_decode :: "shard_config_command from_slice"
  env_snap_to_vec :: "snapshot_data to_vec"
  env_snap_from_slice :: "snapshot_data from_slice"
  env_order :: "(string \<rightharpoonup> shard_id) \<Rightarrow> (string \<times> shard_id) list"
  env_post :: http_post

text \<open>
  \<open>Core sid r\<close> is the consensus core of a shard moving on its own to the state \<open>r\<close>; \<open>Commits\<close>
  and \<open>Installs\<close> are its calls into the state machine.
\<close>

datatype 'r pool_event =
    Propose shard_id bytes
  | Commits shard_id "entry list"
  | Installs shard_id snapshot_meta bytes
  | Listen
  | Db_Path shard_id string
  | Add_Node u64 string
  | Remove_Node u64
  | Check_Leader shard_id
  | Core shard_id 'r
  | Tick

type_synonym ('r, 'db) pool_node = "'r raft_pool \<times> 'db fs \<times> metrics"

definition install_on ::
    "('r, 'db, 'tx, 'cl, 'cert) node_env \<Rightarrow> shard_id \<Rightarrow> snapshot_meta \<Rightarrow> bytes \<Rightarrow> 'r raft_pool \<Rightarrow> 'r raft_pool" where
  "install_on env sid meta snap p =
     (case map_of (shards p) sid of
        None \<Rightarrow> p
      | Some st \<Rightarrow>
          p\<lparr>shards := AList.update sid (st\<lparr>state_machine :=
             snd (install_snapshot (env_snap_to_vec env) (env_snap_from_slice env) (env_order env)
                    meta snap (state_machine st))\<rparr>) (shards p)\<rparr>)"

fun pool_exec ::
    "('r, 'db, 'tx, 'cl, 'cert) node_env \<Rightarrow> 'r pool_event \<Rightarrow> ('r, 'db) pool_node \<Rightarrow> ('r, 'db) pool_node option" where
  "pool_exec env (Propose sid data) (p, fs, m) =
     (let (res, out, p', m') = propose_write (lib_raft (env_libs env)) (env_post env) sid data (p, m)
      in Some (p', fs, m'))"
| "pool_exec env (Commits sid es) (p, fs, m) =
     (let (p', m') = commit_entries (env_decode env) sid es (p, m) in Some (p', fs, m'))"
| "pool_exec env (Installs sid meta snap) (p, fs, m) = Some (install_on env sid meta snap p, fs, m)"
| "pool_exec env Listen (p, fs, m) =
     (case listener_step (env_libs env) (p, fs) of None \<Rightarrow> None | Some (p', fs') \<Rightarrow> Some (p', fs', m))"
| "pool_exec env (Db_Path sid path) (p, fs, m) = Some (send_db_path sid path p, fs, m)"
| "pool_exec env (Add_Node nid a) (p, fs, m) =
     Some (snd (add_node_all_shards (lib_raft (env_libs env)) nid a p), fs, m)"
| "pool_exec env (Remove_Node nid) (p, fs, m) =
     Some (snd (remove_node_all_shards (lib_raft (env_libs env)) nid p), fs, m)"
| "pool_exec env (Check_Leader sid) (p, fs, m) =
     Some (snd (is_leader (lib_raft (env_libs env)) sid p), fs, m)"
| "pool_exec env (Core sid r) (p, fs, m) = Some (set_raft sid r p, fs, m)"
| "pool_exec env Tick (p, fs, m) = Some (p, fs, update_metrics (lib_raft (env_libs env)) p m)"

inductive pool_reach ::
    "('r, 'db, 'tx, 'cl, 'cert) node_env \<Rightarrow> node_config \<Rightarrow> 'db fs \<Rightarrow> 'r pool_event list \<Rightarrow>
     ('r, 'db) pool_node \<Rightarrow> bool"
  for env :: "('r, 'db, 'tx, 'cl, 'cert) node_env" and config :: node_config and fs0 :: "'db fs" where
  reach_new: "pool_new (env_libs env) config fs0 = (Inr p, fs) \<Longrightarrow>
     pool_reach env config fs0 [] (p, fs, metrics_new)"
| reach_step: "pool_reach env config fs0 evs n \<Longrightarrow> pool_exec env ev n = Some n' \<Longrightarrow>
     pool_reach env config fs0 (evs @ [ev]) n'"

section \<open>Well-formed pools\<close>

definition shard_ok :: "shard_id \<Rightarrow> 'r shard_state \<Rightarrow> bool" where
  "shard_ok sid st \<longleftrightarrow>
     listening (forwarder (state_machine st)) \<and> fwd_task st \<noteq> None \<and> 0 < w_receivers (db_path_tx st) \<and>
     (sid = 0 \<longrightarrow> listening (shard_config_tx (state_machine st)))"

definition pool_inv :: "'r raft_pool \<Rightarrow> bool" where
  "pool_inv p \<longleftrightarrow>
     distinct (map fst (shards p)) \<and> map_of (shards p) 0 \<noteq> None \<and>
     (\<forall>sid st. map_of (shards p) sid = Some st \<longrightarrow> shard_ok sid st)"

lemma shard_ok_frame: "shard_frame st = shard_frame st' \<Longrightarrow> shard_ok sid st = shard_ok sid st'"
  by (simp add: shard_frame_def shard_ok_def)

lemma pool_inv_frame:
  assumes "pool_frame p' = pool_frame p" "pool_inv p"
  shows "pool_inv p'"
proof -
  have "shard_ok sid st" if "map_of (shards p') sid = Some st" for sid st
  proof -
    have "map_option shard_frame (map_of (shards p) sid) = Some (shard_frame st)"
      using pool_frame_map_of [OF assms(1), of sid] that by simp
    then obtain st' where "map_of (shards p) sid = Some st'" "shard_frame st' = shard_frame st" by auto
    with assms(2) shard_ok_frame show ?thesis unfolding pool_inv_def by metis
  qed
  moreover have "map_of (shards p') 0 \<noteq> None"
    using pool_frame_map_of [OF assms(1), of 0] assms(2) unfolding pool_inv_def
    by (metis option.map_disc_iff)
  ultimately show ?thesis
    using assms pool_frame_keys [OF assms(1)] unfolding pool_inv_def by metis
qed

text \<open>Replacing or adding one well-formed shard.\<close>

lemma pool_inv_update:
  assumes "pool_inv p" "shard_ok sid st"
  shows "pool_inv (p\<lparr>shards := AList.update sid st (shards p)\<rparr>)"
  using assms by (auto simp: pool_inv_def update_conv' AList.distinct_update)

lemma install_channels:
  "listening (forwarder (snd (install_snapshot tv sfs order meta snap s))) = listening (forwarder s)"
  "listening (shard_config_tx (snd (install_snapshot tv sfs order meta snap s))) = listening (shard_config_tx s)"
  by (simp_all add: install_snapshot_def Let_def split: sum.splits)

lemma pool_inv_install:
  assumes "pool_inv p"
  shows "pool_inv (install_on env sid meta snap p)"
proof (cases "map_of (shards p) sid")
  case (Some st)
  then have "shard_ok sid st" using assms by (simp add: pool_inv_def)
  then show ?thesis
    using Some by (auto simp: install_on_def shard_ok_def install_channels intro: pool_inv_update [OF assms])
qed (simp add: install_on_def assms)

lemma pool_inv_commit:
  assumes "pool_inv p"
  shows "pool_inv (fst (commit_entries dec sid es (p, m)))"
proof (cases "map_of (shards p) sid")
  case (Some st)
  then have "shard_ok sid st" using assms by (simp add: pool_inv_def)
  then show ?thesis
    using Some
    by (auto simp: commit_entries_def sm_apply_eq shard_ok_def fold_apply_parts Let_def
        split: prod.splits intro!: pool_inv_update [OF assms])
      (metis fold_apply_parts fst_conv listening_send_all)+
qed (simp add: commit_entries_def assms)

lemma watch_send_receivers [simp]: "w_receivers (snd (watch_send x w)) = w_receivers w"
  by (simp add: watch_send_def)

lemma pool_inv_db_path: "pool_inv p \<Longrightarrow> pool_inv (send_db_path sid path p)"
  by (auto simp: pool_inv_def send_db_path_def map_of_map_entry shard_ok_def split: if_splits option.splits)

lemma create_shard_state_new:
  "create_shard_state l config sid fs = (Inr st, fs') \<Longrightarrow> state_machine st = sm_new \<and> db_path_tx st = watch_new []"
  by (auto simp: create_shard_state_def Let_def split: sum.splits option.splits prod.splits)

lemma setup_forwarder_ok:
  "(sid = 0 \<longrightarrow> listening (shard_config_tx (state_machine st))) \<Longrightarrow> shard_ok sid (setup_forwarder config st)"
  by (simp add: setup_forwarder_def shard_ok_def Let_def set_forwarder_def watch_subscribe_def listening_def
      channel_new_def split: prod.splits option.splits)

lemma pool_inv_set_raft [simp]: "pool_inv p \<Longrightarrow> pool_inv (set_raft sid r p)"
  by (rule pool_inv_frame [of _ p]) simp_all

lemma pool_inv_handle:
  assumes "pool_inv p"
  shows "pool_inv (fst (handle_shard_config l cmd (p, fs)))"
proof (cases cmd)
  case (CreateShard sid)
  show ?thesis
  proof (cases "\<exists>st fs'. map_of (shards p) sid = None \<and>
      create_shard_state l (pool_config p) sid fs = (Inr st, fs')")
    case True
    then obtain st fs' where new: "map_of (shards p) sid = None"
      "create_shard_state l (pool_config p) sid fs = (Inr st, fs')" by blast
    have "sid \<noteq> 0" using new(1) assms by (auto simp: pool_inv_def)
    then have "pool_inv (p\<lparr>shards := AList.update sid (setup_forwarder (pool_config p) st) (shards p)\<rparr>)"
      by (intro pool_inv_update [OF assms] setup_forwarder_ok) simp
    then show ?thesis
      using new CreateShard
      by (simp add: handle_shard_config_def Let_def split: option.splits prod.splits sum.splits)
  next
    case False
    then show ?thesis
      using CreateShard assms
      by (auto simp: handle_shard_config_def Let_def split: option.splits prod.splits sum.splits)
  qed
qed (use assms in \<open>auto simp: handle_shard_config_def pool_inv_def dest: map_of_SomeD\<close>)

text \<open>A step of the listener removes one command from the channel of shard 0 and handles it.\<close>

lemma listener_step_Some:
  assumes "listener_step l (p, fs) = Some pf'"
  obtains st ch cmd ch' where "map_of (shards p) 0 = Some st"
    and "shard_config_tx (state_machine st) = Some ch" "ch_recv ch = Some (cmd, ch')"
    and "pf' = handle_shard_config l cmd
      (p\<lparr>shards := AList.update 0 (st\<lparr>state_machine := (state_machine st)\<lparr>shard_config_tx := Some ch'\<rparr>\<rparr>) (shards p)\<rparr>, fs)"
  using assms by (auto simp: listener_step_def Let_def split: option.splits)

lemma ch_recv_Some_iff:
  "ch_recv ch = Some (x, ch') \<longleftrightarrow> ch_queue ch = x # ch_queue ch' \<and> ch_rx_alive ch' = ch_rx_alive ch"
  by (cases ch; cases ch') (auto simp: ch_recv_def split: list.splits)

lemma pool_inv_listener:
  assumes "pool_inv p" "listener_step l (p, fs) = Some (p', fs')"
  shows "pool_inv p'"
proof -
  from assms(2) obtain st ch cmd ch' where st: "map_of (shards p) 0 = Some st"
    "shard_config_tx (state_machine st) = Some ch" "ch_recv ch = Some (cmd, ch')"
    and pf: "(p', fs') = handle_shard_config l cmd
      (p\<lparr>shards := AList.update 0 (st\<lparr>state_machine := (state_machine st)\<lparr>shard_config_tx := Some ch'\<rparr>\<rparr>) (shards p)\<rparr>, fs)"
    by (rule listener_step_Some)
  have "shard_ok 0 st" using st(1) assms(1) by (simp add: pool_inv_def)
  then have "shard_ok 0 (st\<lparr>state_machine := (state_machine st)\<lparr>shard_config_tx := Some ch'\<rparr>\<rparr>)"
    using st(2,3) by (simp add: shard_ok_def listening_def ch_recv_Some_iff)
  from pool_inv_handle [OF pool_inv_update [OF assms(1) this], of l cmd fs] pf show ?thesis
    by (metis fst_conv)
qed

lemma pool_inv_exec:
  assumes "pool_exec env ev (p, fs, m) = Some (p', fs', m')" "pool_inv p"
  shows "pool_inv p'"
proof (cases ev)
  case (Propose sid data)
  with assms show ?thesis
    by (auto simp: Let_def split: prod.splits dest: propose_write_frame intro: pool_inv_frame)
next
  case (Commits sid es)
  with assms pool_inv_commit [OF assms(2), of "env_decode env" sid es m] show ?thesis
    by (auto split: prod.splits)
next
  case Listen
  with assms pool_inv_listener [OF assms(2)] show ?thesis by (auto split: option.splits)
next
  case (Add_Node nid a)
  with assms show ?thesis
    by (auto simp: add_node_all_shards_def intro: pool_inv_frame [OF add_node_frame])
next
  case (Remove_Node nid)
  with assms show ?thesis
    by (auto simp: remove_node_all_shards_def intro: pool_inv_frame [OF remove_node_frame])
next
  case (Check_Leader sid)
  with assms show ?thesis by (auto intro: pool_inv_frame [OF is_leader_frame])
qed (use assms in \<open>auto simp: pool_inv_install pool_inv_db_path\<close>)

lemma pool_inv_new:
  assumes "pool_new l config fs = (Inr p, fs')"
  shows "pool_inv p"
proof -
  obtain st where "shards p = [(0, setup_forwarder config
      (st\<lparr>state_machine := set_shard_config_tx channel_new (state_machine st)\<rparr>))]"
    using assms by (auto simp: pool_new_def Let_def split: prod.splits sum.splits)
  then show ?thesis
    by (auto simp: pool_inv_def set_shard_config_tx_def listening_def channel_new_def
        intro!: setup_forwarder_ok split: if_splits)
qed

lemma pool_reach_inv: "pool_reach env config fs0 evs n \<Longrightarrow> pool_inv (fst n)"
proof (induction rule: pool_reach.induct)
  case (reach_new p fs)
  then show ?case by (simp add: pool_inv_new)
next
  case (reach_step evs n ev n')
  then show ?case by (cases n; cases n') (auto intro: pool_inv_exec)
qed

section \<open>The two routing tables\<close>

text \<open>
  The state machine of shard 0 holds the replicated table; the router of the pool is what
  connections consult. \<open>effective\<close> is the table the router will have once the listener has
  handled the pending commands.
\<close>

definition shard0 :: "'r raft_pool \<Rightarrow> state_machine_store" where
  "shard0 p = (case map_of (shards p) 0 of Some st \<Rightarrow> state_machine st | None \<Rightarrow> sm_new)"

definition pending :: "'r raft_pool \<Rightarrow> shard_config_command list" where
  "pending p = sent (shard_config_tx (shard0 p))"

definition effective :: "'r raft_pool \<Rightarrow> string \<Rightarrow> shard_id option" where
  "effective p mn = (case last_route (pending p) mn of Some r \<Rightarrow> r | None \<Rightarrow> routes (router p) mn)"

definition tables_agree :: "'r raft_pool \<Rightarrow> bool" where
  "tables_agree p \<longleftrightarrow> default_shard (router p) = 0 \<and> effective p = shard_routes (inner (shard0 p))"

lemma shard0_frame: "pool_frame p = pool_frame q \<Longrightarrow> shard0 p = shard0 q"
  using pool_frame_map_of [of p q 0] by (auto simp: shard0_def shard_frame_def split: option.splits)

lemma tables_agree_cong:
  "shard0 p' = shard0 p \<Longrightarrow> router p' = router p \<Longrightarrow> tables_agree p' = tables_agree p"
  by (simp add: tables_agree_def effective_def pending_def fun_eq_iff cong: option.case_cong)

lemma tables_agree_frame: "pool_frame p' = pool_frame p \<Longrightarrow> tables_agree p \<Longrightarrow> tables_agree p'"
  using tables_agree_cong [OF shard0_frame pool_frame_router] by metis

lemma shard0_update:
  "shard0 (p\<lparr>shards := AList.update sid st (shards p)\<rparr>) = (if sid = 0 then state_machine st else shard0 p)"
  by (simp add: shard0_def update_conv')

lemma shard0_set_raft [simp]: "shard0 (set_raft sid r p) = shard0 p"
  by (rule shard0_frame) simp

lemma shard0_handle:
  assumes "map_of (shards p) 0 \<noteq> None"
  shows "shard0 (fst (handle_shard_config l cmd (p, fs))) = shard0 p"
proof (cases cmd)
  case (CreateShard sid)
  show ?thesis
  proof (cases "sid = 0")
    case True
    with CreateShard assms show ?thesis by (auto simp: handle_shard_config_def)
  next
    case False
    then show ?thesis
      using CreateShard
      by (simp add: handle_shard_config_def Let_def shard0_update split: option.splits prod.splits sum.splits)
  qed
qed (simp_all add: handle_shard_config_def shard0_def)

lemma handle_default_shard:
  "default_shard (router (fst (handle_shard_config l cmd pf))) = default_shard (router (fst pf))"
  using handle_create_router [of l _ pf]
  by (cases cmd) (auto simp: handle_shard_config_def router_defs split: prod.splits)

lemma last_route_Cons:
  "(case last_route (cmd # cmds) mn of Some r \<Rightarrow> r | None \<Rightarrow> t) =
   (case last_route cmds mn of Some r \<Rightarrow> r | None \<Rightarrow> (case last_route [cmd] mn of Some r \<Rightarrow> r | None \<Rightarrow> t))"
  by (simp split: option.splits)

lemma listener_effective:
  assumes "listener_step l (p, fs) = Some (p', fs')"
  shows "effective p' = effective p \<and> inner (shard0 p') = inner (shard0 p) \<and>
    default_shard (router p') = default_shard (router p)"
proof -
  from assms obtain st ch cmd ch' where st: "map_of (shards p) 0 = Some st"
    "shard_config_tx (state_machine st) = Some ch" "ch_recv ch = Some (cmd, ch')"
    and pf: "(p', fs') = handle_shard_config l cmd
      (p\<lparr>shards := AList.update 0 (st\<lparr>state_machine := (state_machine st)\<lparr>shard_config_tx := Some ch'\<rparr>\<rparr>) (shards p)\<rparr>, fs)"
    by (rule listener_step_Some)
  let ?p1 = "p\<lparr>shards := AList.update 0 (st\<lparr>state_machine := (state_machine st)\<lparr>shard_config_tx := Some ch'\<rparr>\<rparr>) (shards p)\<rparr>"
  have p': "p' = fst (handle_shard_config l cmd (?p1, fs))" using pf by (metis fst_conv)
  have "shard0 p' = shard0 ?p1"
    unfolding p' by (rule shard0_handle) (simp add: update_conv')
  then have s0: "shard0 p' = (shard0 p)\<lparr>shard_config_tx := Some ch'\<rparr>"
    using st(1) by (simp only: shard0_update) (simp add: shard0_def)
  have pend: "pending p = cmd # pending p'"
    using st s0 by (simp add: pending_def sent_def shard0_def ch_recv_Some_iff)
  have "routes (router p') mn = (case last_route [cmd] mn of Some r \<Rightarrow> r | None \<Rightarrow> routes (router p) mn)" for mn
    using pool_table.table_exec [of l cmd "(?p1, fs)" mn] unfolding p' by (simp del: last_route.simps cong: option.case_cong)
  then have "effective p' mn = effective p mn" for mn
    using last_route_Cons [where cmd = cmd and cmds = "pending p'" and mn = mn and t = "routes (router p) mn"]
    unfolding effective_def pend by (simp del: last_route.simps cong: option.case_cong)
  then show ?thesis using s0 handle_default_shard [of l cmd "(?p1, fs)"] unfolding p' by auto
qed

lemma commit_shard0:
  assumes "pool_inv p"
  shows "shard0 (fst (commit_entries dec sid es (p, m))) =
    (if sid = 0 then fst (fold (apply_entry dec) es (shard0 p, m)) else shard0 p)"
    and "router (fst (commit_entries dec sid es (p, m))) = router p"
  using assms
  by (auto simp: commit_entries_def sm_apply_eq Let_def shard0_update pool_inv_def split: option.splits prod.splits)
    (auto simp: shard0_def)

lemma commit_pending:
  assumes "pool_inv p"
  shows "pending (fst (commit_entries dec 0 es (p, m))) = pending p @ config_commands dec es"
proof -
  have "listening (shard_config_tx (shard0 p))"
    using assms by (auto simp: pool_inv_def shard_ok_def shard0_def)
  then show ?thesis
    using commit_shard0(1) [OF assms, of dec 0 es m]
    by (simp add: pending_def fold_apply_parts sent_send_all)
qed

lemma commit_effective:
  assumes "pool_inv p"
  shows "effective (fst (commit_entries dec 0 es (p, m))) mn =
    (case last_route (config_commands dec es) mn of Some r \<Rightarrow> r | None \<Rightarrow> effective p mn)"
  unfolding effective_def commit_pending [OF assms] last_route_append commit_shard0(2) [OF assms]
  by (simp split: option.splits)

lemma commit_agree:
  assumes "pool_inv p" "tables_agree p"
  shows "tables_agree (fst (commit_entries dec sid es (p, m)))"
proof (cases "sid = 0")
  case True
  let ?p' = "fst (commit_entries dec sid es (p, m))"
  let ?cs = "config_commands dec es"
  have table: "shard_routes (inner (shard0 ?p')) mn =
      (case last_route ?cs mn of Some r \<Rightarrow> r | None \<Rightarrow> shard_routes (inner (shard0 p)) mn)" for mn
    using commit_shard0(1) [OF assms(1), of dec sid es m] True fold_apply_inner_config [of dec es "inner (shard0 p)"]
      sm_table.table_fold [of ?cs "inner (shard0 p)" mn]
    by (simp add: fold_apply_parts)
  have "effective ?p' mn = (case last_route ?cs mn of Some r \<Rightarrow> r | None \<Rightarrow> effective p mn)" for mn
    unfolding True by (rule commit_effective [OF assms(1)])
  with table assms(2) have "effective ?p' = shard_routes (inner (shard0 ?p'))"
    by (intro ext) (simp add: tables_agree_def cong: option.case_cong)
  with assms(2) commit_shard0(2) [OF assms(1), of dec sid es m] show ?thesis
    by (simp add: tables_agree_def)
next
  case False
  with assms(2) commit_shard0 [OF assms(1), of dec sid es m] show ?thesis
    using tables_agree_cong by metis
qed

lemma install_on_other: "sid \<noteq> 0 \<Longrightarrow> shard0 (install_on env sid meta snap p) = shard0 p"
  by (simp add: install_on_def shard0_update split: option.splits)

lemma install_on_router [simp]: "router (install_on env sid meta snap p) = router p"
  by (simp add: install_on_def split: option.splits)

lemma agree_exec:
  assumes "pool_exec env ev (p, fs, m) = Some (p', fs', m')" "pool_inv p" "tables_agree p"
    and "\<And>meta snap. ev \<noteq> Installs 0 meta snap"
  shows "tables_agree p'"
proof (cases ev)
  case (Propose sid data)
  with assms show ?thesis
    by (auto simp: Let_def split: prod.splits dest: propose_write_frame intro: tables_agree_frame)
next
  case (Commits sid es)
  with assms commit_agree [OF assms(2,3), of "env_decode env" sid es m] show ?thesis
    by (auto split: prod.splits)
next
  case (Installs sid meta snap)
  then have "sid \<noteq> 0" using assms(4) by blast
  from tables_agree_cong [OF install_on_other [OF this, of env meta snap p] install_on_router]
    Installs assms(1,3) show ?thesis by simp
next
  case Listen
  with assms listener_effective [of "env_libs env" p fs p' fs'] show ?thesis
    by (auto simp: tables_agree_def split: option.splits)
next
  case (Db_Path sid path)
  have "shard0 (send_db_path sid path p) = shard0 p" "router (send_db_path sid path p) = router p"
    by (simp_all add: shard0_def send_db_path_def map_of_map_entry split: option.splits)
  from tables_agree_cong [OF this] Db_Path assms(1,3) show ?thesis by simp
next
  case (Add_Node nid a)
  with assms show ?thesis
    by (auto simp: add_node_all_shards_def intro: tables_agree_frame [OF add_node_frame])
next
  case (Remove_Node nid)
  with assms show ?thesis
    by (auto simp: remove_node_all_shards_def intro: tables_agree_frame [OF remove_node_frame])
next
  case (Check_Leader sid)
  with assms show ?thesis by (auto intro: tables_agree_frame [OF is_leader_frame])
next
  case (Core sid r)
  with assms show ?thesis by (auto intro: tables_agree_frame)
next
  case Tick
  with assms show ?thesis by simp
qed

lemma pool_new_parts:
  assumes "pool_new l config fs = (Inr p, fs')"
  shows "shard0 p = set_forwarder channel_new (set_shard_config_tx channel_new sm_new)"
    and "router p = router_new" and "map fst (shards p) = [0]"
proof -
  obtain st fs1 where st: "create_shard_state l config 0 fs = (Inr st, fs1)"
    and p: "shards p = [(0, setup_forwarder config
      (st\<lparr>state_machine := set_shard_config_tx channel_new (state_machine st)\<rparr>))]" "router p = router_new"
    using assms by (auto simp: pool_new_def Let_def split: prod.splits sum.splits)
  show "shard0 p = set_forwarder channel_new (set_shard_config_tx channel_new sm_new)"
    using create_shard_state_new [OF st] p(1)
    by (simp add: shard0_def setup_forwarder_def Let_def split: prod.splits)
  show "router p = router_new" "map fst (shards p) = [0]" using p by simp_all
qed

lemma agree_new:
  assumes "pool_new l config fs = (Inr p, fs')"
  shows "tables_agree p"
proof -
  have "pending p = []" "shard_routes (inner (shard0 p)) = Map.empty"
    by (simp_all add: pending_def pool_new_parts(1) [OF assms] set_forwarder_def set_shard_config_tx_def
        channel_new_def sent_def sm_new_def inner_new_def)
  then show ?thesis
    by (simp add: tables_agree_def effective_def pool_new_parts(2) [OF assms] router_new_def fun_eq_iff)
qed

lemma pool_reach_agree:
  "pool_reach env config fs0 evs n \<Longrightarrow> \<forall>ev \<in> set evs. \<forall>meta snap. ev \<noteq> Installs 0 meta snap \<Longrightarrow>
   tables_agree (fst n)"
proof (induction rule: pool_reach.induct)
  case (reach_new p fs)
  then show ?case by (simp add: agree_new)
next
  case (reach_step evs n ev n')
  have "pool_inv (fst n)" using reach_step.hyps(1) by (rule pool_reach_inv)
  with reach_step show ?case by (cases n; cases n') (auto intro: agree_exec)
qed

text \<open>Installing a snapshot on shard 0 lays the snapshot's routes over the effective table.\<close>

lemma replayed_route:
  assumes "distinct (map fst (order t))" "map_of (order t) = t"
  shows "last_route (map CreateShard ss @ replay_routes (order t)) mn = map_option Some (t mn)"
  unfolding last_route_append last_route_creates last_route_replay [OF assms(1)] assms(2)
  by (cases "t mn") simp_all

lemma install_shard0:
  assumes "pool_inv p" "env_snap_from_slice env snap = Inr d"
  shows "shard_routes (inner (shard0 (install_on env 0 meta snap p))) = sd_shard_routes d"
    and "pending (install_on env 0 meta snap p) =
      pending p @ map CreateShard (sd_active_shards d) @ replay_routes (env_order env (sd_shard_routes d))"
  using assms
  by (auto simp: install_on_def pool_inv_def shard_ok_def shard0_update pending_def install_snapshot_def
      Let_def sent_send_all) (auto simp: shard0_def)

section \<open>Properties\<close>


definition demo_env :: "(demo_raft, demo_db, demo_db, unit, unit) node_env" where
  "demo_env =
     \<lparr>env_libs = demo_libs, env_decode = demo_from_slice, env_snap_to_vec = demo_snap_to_vec,
      env_snap_from_slice = demo_snap_from_slice, env_order = (\<lambda>t. []),
      env_post = (\<lambda>url q. Inr 200)\<rparr>"

lemma demo_reach_new: "\<exists>fs. pool_reach demo_env demo_config demo_fs0 [] (demo_pool True, fs, metrics_new)"
  using demo_new reach_new [of demo_env demo_config demo_fs0] by (auto simp: demo_env_def)

lemma exec_commits:
  "pool_exec env (Commits sid es) (p, fs, m) =
     Some (fst (commit_entries (env_decode env) sid es (p, m)), fs, snd (commit_entries (env_decode env) sid es (p, m)))"
  by (simp split: prod.splits)

lemma exec_propose: "\<exists>p' m'. pool_exec env (Propose sid data) (p, fs, m) = Some (p', fs, m')"
  by (simp split: prod.splits)

lemma demo_reach_commit:
  "\<exists>p fs m. pool_reach demo_env demo_config demo_fs0 [Commits 0 [demo_create7], Propose 0 [3, 9]] (p, fs, m)"
proof -
  obtain fs where "pool_reach demo_env demo_config demo_fs0 [] (demo_pool True, fs, metrics_new)"
    using demo_reach_new by blast
  from reach_step [OF this exec_commits]
  have r: "pool_reach demo_env demo_config demo_fs0 [Commits 0 [demo_create7]]
      (fst (commit_entries (env_decode demo_env) 0 [demo_create7] (demo_pool True, metrics_new)), fs,
       snd (commit_entries (env_decode demo_env) 0 [demo_create7] (demo_pool True, metrics_new)))"
    unfolding append_Nil .
  let ?p = "fst (commit_entries (env_decode demo_env) 0 [demo_create7] (demo_pool True, metrics_new))"
  let ?m = "snd (commit_entries (env_decode demo_env) 0 [demo_create7] (demo_pool True, metrics_new))"
  obtain p' m' where "pool_exec demo_env (Propose 0 [3, 9]) (?p, fs, ?m) = Some (p', fs, m')"
    using exec_propose by blast
  from reach_step [OF r this] show ?thesis unfolding append_Cons append_Nil by blast
qed




text \<open>
  C38. Installing a snapshot on shard 0 adds the snapshot's routes to the router but removes none:
  afterwards the replicated table is the snapshot's, while the router will still send a module
  that the snapshot no longer mentions wherever it sent it before.
\<close>

theorem snapshot_leaves_stale_routes:
  assumes "pool_inv p" "env_snap_from_slice env snap = Inr d"
    and "distinct (map fst (env_order env (sd_shard_routes d)))"
    and "map_of (env_order env (sd_shard_routes d)) = sd_shard_routes d"
  shows "shard_routes (inner (shard0 (install_on env 0 meta snap p))) = sd_shard_routes d \<and>
    effective (install_on env 0 meta snap p) mn =
      (case sd_shard_routes d mn of Some sid \<Rightarrow> Some sid | None \<Rightarrow> effective p mn)"
proof -
  have "effective (install_on env 0 meta snap p) mn =
      (case sd_shard_routes d mn of Some sid \<Rightarrow> Some sid | None \<Rightarrow> effective p mn)"
    unfolding effective_def install_shard0(2) [OF assms(1,2)] last_route_append [of "pending p"]
      replayed_route [of "env_order env" "sd_shard_routes d", OF assms(3,4)]
    by (cases "sd_shard_routes d mn") (simp_all cong: option.case_cong)
  then show ?thesis using install_shard0(1) [OF assms(1,2)] by blast
qed

definition demo_meta :: snapshot_meta where
  "demo_meta = \<lparr>sn_last_log_id = None, sn_last_membership = default_stored_membership, snapshot_id = ''0-0''\<rparr>"

theorem snapshot_leaves_stale_routes_witness:
  "\<exists>p :: demo_raft raft_pool.
     shard_routes (inner (shard0 (install_on demo_env 0 demo_meta [77] p))) ''game'' = None \<and>
     effective (install_on demo_env 0 demo_meta [77] p) ''game'' = Some 4"
proof -
  let ?p = "(demo_pool True)\<lparr>router := add_route ''game'' 4 router_new\<rparr>"
  have inv: "pool_inv ?p"
    by (simp add: pool_inv_def shard_ok_def demo_pool_def demo_shard_def set_forwarder_def
        set_shard_config_tx_def listening_def channel_new_def)
  have eff: "effective ?p ''game'' = Some 4"
    by (simp add: effective_def pending_def shard0_def demo_pool_def demo_shard_def set_forwarder_def
        set_shard_config_tx_def channel_new_def sent_def add_route_def)
  have dec: "env_snap_from_slice demo_env [77] = Inr (snapshot_data_of demo_inner7)"
    by (simp add: demo_env_def demo_snap_from_slice_def)
  have "env_order demo_env (sd_shard_routes (snapshot_data_of demo_inner7)) = []"
    "sd_shard_routes (snapshot_data_of demo_inner7) = Map.empty"
    by (simp_all add: demo_env_def snapshot_data_of_def demo_inner7_def)
  with snapshot_leaves_stale_routes [OF inv dec, of demo_meta "''game''"] eff show ?thesis
    by (intro exI [of _ ?p]) simp
qed

section \<open>The listener catches up\<close>

lemma listener_enabled:
  assumes "pool_inv p" "pending p = cmd # cmds"
  shows "\<exists>p' fs'. listener_step l (p, fs) = Some (p', fs') \<and> pending p' = cmds"
proof -
  obtain st ch where st: "map_of (shards p) 0 = Some st" "shard_config_tx (state_machine st) = Some ch"
    "ch_queue ch = cmd # cmds"
    using assms by (auto simp: pool_inv_def shard_ok_def pending_def shard0_def sent_def listening_def
        split: option.splits)
  let ?p1 = "p\<lparr>shards := AList.update 0 (st\<lparr>state_machine := (state_machine st)
    \<lparr>shard_config_tx := Some (ch\<lparr>ch_queue := cmds\<rparr>)\<rparr>\<rparr>) (shards p)\<rparr>"
  have step: "listener_step l (p, fs) = Some (handle_shard_config l cmd (?p1, fs))"
    using st by (simp add: listener_step_def ch_recv_def)
  have "shard0 (fst (handle_shard_config l cmd (?p1, fs))) = shard0 ?p1"
    by (rule shard0_handle) (simp add: update_conv')
  then have "pending (fst (handle_shard_config l cmd (?p1, fs))) = cmds"
    unfolding pending_def shard0_update by (simp add: sent_def)
  with step show ?thesis by (metis prod.collapse)
qed

lemma listener_drains:
  assumes "pool_reach env config fs0 evs (p, fs, m)" "length (pending p) = n"
  shows "\<exists>p' fs'. pool_reach env config fs0 (evs @ replicate n Listen) (p', fs', m) \<and>
    pending p' = [] \<and> effective p' = effective p"
  using assms
proof (induction n arbitrary: evs p fs)
  case 0
  then show ?case by auto
next
  case (Suc n)
  obtain cmd cmds where "pending p = cmd # cmds" using Suc.prems(2) by (cases "pending p") auto
  with listener_enabled pool_reach_inv [OF Suc.prems(1)] obtain p1 fs1
    where step: "listener_step (env_libs env) (p, fs) = Some (p1, fs1)" and pend: "pending p1 = cmds"
    by (metis fst_conv)
  have "pool_reach env config fs0 (evs @ [Listen]) (p1, fs1, m)"
    by (rule reach_step [OF Suc.prems(1)]) (simp add: step)
  moreover have "length (pending p1) = n" using Suc.prems(2) pend \<open>pending p = cmd # cmds\<close> by simp
  ultimately obtain p' fs' where "pool_reach env config fs0 ((evs @ [Listen]) @ replicate n Listen) (p', fs', m)"
    "pending p' = []" "effective p' = effective p1"
    using Suc.IH by blast
  moreover have "effective p1 = effective p" using listener_effective [OF step] by blast
  ultimately show ?case by auto
qed



end
