(* ===== verification/Pool_Operations.thy ===== *)
theory Pool_Operations
  imports Pool_Runs
begin

text \<open>
  Properties of the single operations of the pool: parsing the peers, proposing a write, the
  current members and leader, and the loops that change the membership of every shard.
\<close>

section \<open>Peers\<close>

lemma map_filter_simps:
  "List.map_filter f [] = []"
  "List.map_filter f (x # xs) = (case f x of None \<Rightarrow> List.map_filter f xs | Some y \<Rightarrow> y # List.map_filter f xs)"
  by (simp_all add: List.map_filter_def split: option.splits)

lemma bt_get_parse_peers_from:
  "bt_inv m \<Longrightarrow> bt_inv (parse_peers_from m ps) \<and>
   bt_get i (parse_peers_from m ps) =
     (case map_of (rev (List.map_filter parse_peer ps)) i of Some n \<Rightarrow> Some n | None \<Rightarrow> bt_get i m)"
proof (induction ps arbitrary: m)
  case Nil
  then show ?case by (simp add: map_filter_simps)
next
  case (Cons peer ps)
  show ?case
  proof (cases "parse_peer peer")
    case None
    with Cons show ?thesis by (simp add: map_filter_simps)
  next
    case (Some x)
    obtain j n where x: "x = (j, n)" by fastforce
    from Cons.IH [of "bt_insert j n m"] Cons.prems Some x show ?thesis
      by (auto simp: map_filter_simps bt_get_def map_add_def split: option.splits)
  qed
qed

lemma parse_peer_printed: "parse_peer (to_string j @ CHR ''='' # addr n) = Some (j, n)"
proof -
  have "CHR ''='' \<notin> set (to_string j)" by (rule not_in_to_string) (simp add: to_digit_def)
  then have "split_once (CHR ''='') (to_string j @ CHR ''='' # addr n) = Some (to_string j, addr n)"
    by (simp add: split_once_Some_iff)
  then show ?thesis by (simp add: parse_peer_def parse_u64_to_string)
qed

text \<open>
  Peers written as \<open>id=address\<close> are all understood: the map built from such a list has, for
  every id, the address of the last entry with that id, and no other id.
\<close>

lemma parse_peers_roundtrip:
  "bt_get i (parse_peers (map (\<lambda>(j, n). to_string j @ ''='' @ addr n) kvs)) = map_of (rev kvs) i"
proof -
  have "List.map_filter parse_peer (map (\<lambda>(j, n). to_string j @ ''='' @ addr n) kvs) = kvs"
    by (induction kvs) (auto simp: map_filter_simps parse_peer_printed)
  then show ?thesis
    using bt_get_parse_peers_from [OF bt_inv_Nil, of "map (\<lambda>(j, n). to_string j @ ''='' @ addr n) kvs" i]
    by (simp add: parse_peers_def bt_get_def split: option.splits)
qed

lemma parse_peers_from_append: "parse_peers_from m (xs @ ys) = parse_peers_from (parse_peers_from m xs) ys"
  by (induction xs arbitrary: m) simp_all

lemma split_once_None: "c \<notin> set s \<Longrightarrow> split_once c s = None"
  by (cases "split_once c s") (auto simp: split_once_Some_iff)

text \<open>
  A peer without an equals sign is dropped without an error: the map is the one built
  without it.
\<close>

lemma parse_peers_drops_malformed:
  assumes "CHR ''='' \<notin> set peer"
  shows "parse_peers (xs @ peer # ys) = parse_peers (xs @ ys)"
  using split_once_None [OF assms] by (simp add: parse_peers_def parse_peers_from_append parse_peer_def)

lemma parse_peers_drops_malformed_instance: "parse_peers [''node2:4001''] = []"
  using parse_peers_drops_malformed [of "''node2:4001''" "[]" "[]"] by (simp add: parse_peers_def)

section \<open>Proposing a write\<close>

text \<open>
  C19. An acknowledged write was accepted exactly once. When \<open>propose_write\<close> returns Ok, either
  this node's group accepted the request and nothing was sent to another node, or the group
  refused it and named a leader, exactly one request was sent, to that leader's write endpoint
  for this shard, and the leader answered with a success status. In both cases the request
  carries the client's bytes unchanged and this node as its origin.
\<close>

theorem propose_write_acknowledged:
  assumes "propose_write api post sid data (p, m) = (Inr (), out, p', m')"
  shows "\<exists>r r'. get_raft sid p = Some r \<and> p' = set_raft sid r' p \<and>
    (let q = \<lparr>raw_message = data, origin_node_id = node_id (pool_config p)\<rparr> in
      (client_write api q r = (Inr (), r') \<and> out = []) \<or>
      (\<exists>lid n st. client_write api q r = (Inl (Forward_To_Leader lid (Some n)), r') \<and>
         out = [(write_url (pool_config p) n sid, q)] \<and>
         post (write_url (pool_config p) n sid) q = Inr st \<and> is_success st))"
  using assms
  by (auto simp: propose_write_def Let_def
      split: option.splits prod.splits sum.splits raft_error.splits if_splits)

theorem propose_write_acknowledged_witness:
  "propose_write demo_api (\<lambda>url q. Inr 200) 0 [3, 9] (demo_pool False, metrics_new) =
     (Inr (), [(''http://n2:4001/cluster/0/write'', \<lparr>raw_message = [3, 9], origin_node_id = 1\<rparr>)],
      demo_pool False, metrics_new\<lparr>WRITES_TOTAL := 1, WRITE_LATENCY := 1\<rparr>)"
proof -
  have run: "propose_write demo_api (\<lambda>url q. Inr 200) 0 [3, 9] (demo_pool False, metrics_new) =
      (Inr (), [(''http://n2:4001/cluster/0/write'', \<lparr>raw_message = [3, 9], origin_node_id = 1\<rparr>)],
       set_raft 0 \<lparr>dr_leads = False, dr_log = [], dr_voters = {1, 2}\<rparr> (demo_pool False),
       metrics_new\<lparr>WRITES_TOTAL := 1, WRITE_LATENCY := 1\<rparr>)"
    by (simp add: propose_write_def demo_pool_def demo_shard_def get_raft_def demo_api_def demo_config_def
        demo_leader2_def write_url_def http_scheme_def tls_enabled_def is_success_def metrics_new_def
        to_string_def std_simps Let_def)
  from propose_write_acknowledged [OF run]
  have "set_raft 0 \<lparr>dr_leads = False, dr_log = [], dr_voters = {1, 2}\<rparr> (demo_pool False) = demo_pool False"
    by (simp add: set_raft_def demo_pool_def demo_shard_def)
  with run show ?thesis by simp
qed

text \<open>
  A failed proposal sends nothing or exactly one request: no error path retries, and every
  call, whatever its outcome, counts one write and one latency observation.
\<close>

lemma propose_write_counts_once:
  "let (res, out, p', m') = propose_write api post sid data (p, m) in
     length out \<le> 1 \<and> WRITES_TOTAL m' = WRITES_TOTAL m + 1 \<and> WRITE_LATENCY m' = WRITE_LATENCY m + 1 \<and>
     ENTRIES_APPLIED m' = ENTRIES_APPLIED m \<and>
     (get_raft sid p = None \<longleftrightarrow> res = Inl (Shard_Not_Found sid)) \<and>
     list_all (\<lambda>(url, q). raw_message q = data \<and> origin_node_id q = node_id (pool_config p)) out"
  by (simp add: propose_write_def Let_def split: option.splits prod.splits sum.splits raft_error.splits)

section \<open>Members of a shard\<close>

lemma members_fold:
  assumes "bt_inv m"
  shows "bt_inv (fold (\<lambda>i m. if i = me then bt_insert i own m
      else case bt_get i ps of Some n \<Rightarrow> bt_insert i n m | None \<Rightarrow> m) is m) \<and>
    bt_get k (fold (\<lambda>i m. if i = me then bt_insert i own m
      else case bt_get i ps of Some n \<Rightarrow> bt_insert i n m | None \<Rightarrow> m) is m) =
      (if k \<in> set is \<and> k = me then Some own
       else if k \<in> set is \<and> bt_get k ps \<noteq> None then bt_get k ps else bt_get k m)"
  using assms
proof (induction "is" arbitrary: m)
  case (Cons i "is")
  let ?m = "if i = me then bt_insert i own m
    else case bt_get i ps of Some n \<Rightarrow> bt_insert i n m | None \<Rightarrow> m"
  have "bt_inv ?m" using Cons.prems by (simp split: option.splits)
  from Cons.IH [OF this] show ?case
    by (auto simp: bt_get_def split: option.splits)
qed simp

text \<open>
  The members a new shard starts with are the voters of shard 0 this node has an address
  for: itself, under its own Raft address, and the configured peers. A voter that is neither,
  for example one that was added to the cluster later, is left out.
\<close>

lemma current_members_are_known_voters:
  assumes "map_of (shards p) sid = Some st" "finite (voter_ids (raft_metrics_of api (raft st)))"
  shows "bt_get i (get_current_members api sid p) =
    (if i \<notin> voter_ids (raft_metrics_of api (raft st)) then None
     else if i = node_id (pool_config p) then Some \<lparr>addr = raft_addr (pool_config p)\<rparr>
     else bt_get i (pool_peers p))"
  using members_fold [OF bt_inv_Nil, of "node_id (pool_config p)" "\<lparr>addr = raft_addr (pool_config p)\<rparr>"
      "pool_peers p" "sorted_list_of_set (voter_ids (raft_metrics_of api (raft st)))" i] assms
  by (auto simp: get_current_members_def bt_get_def)

lemma current_members_are_known_voters_instance:
  "bt_get 3 (get_current_members demo_api 0
     ((demo_pool True)\<lparr>shards := [(0, (demo_shard True)\<lparr>raft := \<lparr>dr_leads = True, dr_log = [], dr_voters = {1, 2, 3}\<rparr>\<rparr>)]\<rparr>)) = None"
  using current_members_are_known_voters [of "(demo_pool True)\<lparr>shards :=
      [(0, (demo_shard True)\<lparr>raft := \<lparr>dr_leads = True, dr_log = [], dr_voters = {1, 2, 3}\<rparr>\<rparr>)]\<rparr>" 0
      "(demo_shard True)\<lparr>raft := \<lparr>dr_leads = True, dr_log = [], dr_voters = {1, 2, 3}\<rparr>\<rparr>" demo_api 3]
  by (simp add: demo_api_def voter_ids_def demo_pool_def demo_config_def bt_get_def)

section \<open>The gauges of shard 0\<close>

text \<open>
  C40. What the metrics task publishes. In every reachable state shard 0 exists, so an update
  always sets both gauges from its group: the leader gauge is 1 or 0 as this node leads or not,
  and the term gauge shows the term as long as it is below 2 to the 63; from there on the
  conversion to a signed integer makes it negative, short of the term by 2 to the 64. No other
  metric changes.
\<close>

theorem gauges_show_shard_zero:
  assumes "pool_reach env config fs0 evs (p, fs, m)"
  shows "\<exists>r m'. get_raft 0 p = Some r \<and> pool_exec env Tick (p, fs, m) = Some (p, fs, m') \<and>
    (let rm = raft_metrics_of (lib_raft (env_libs env)) r; t = unat (lid_term (v_leader_id (rm_vote rm)))
     in sint (RAFT_TERM m') = (if t < 2 ^ 63 then int t else int t - 2 ^ 64) \<and>
        (0 \<le> sint (RAFT_TERM m') \<longleftrightarrow> t < 2 ^ 63) \<and>
        sint (RAFT_IS_LEADER m') =
          (if rm_current_leader rm = Some (node_id (pool_config p)) then 1 else 0)) \<and>
    m' = m\<lparr>RAFT_TERM := RAFT_TERM m', RAFT_IS_LEADER := RAFT_IS_LEADER m'\<rparr>"
proof -
  obtain st where st: "map_of (shards p) 0 = Some st"
    using pool_reach_inv [OF assms] by (auto simp: pool_inv_def)
  have small: "\<not> 2 ^ 64 \<le> uint x" for x :: u64
    using unsigned_less [of x, where 'a = int] by simp
  show ?thesis
    using st small by (auto simp: get_raft_def update_metrics_def sint_i64 Let_def)
qed

theorem gauges_show_shard_zero_witness:
  "\<exists>p fs m m'. pool_reach demo_env demo_config demo_fs0 [] (p, fs, m) \<and>
     pool_exec demo_env Tick (p, fs, m) = Some (p, fs, m') \<and> sint (RAFT_IS_LEADER m') = 1"
proof -
  obtain fs where r: "pool_reach demo_env demo_config demo_fs0 [] (demo_pool True, fs, metrics_new)"
    using demo_reach_new by blast
  from gauges_show_shard_zero [OF r] r show ?thesis
    by (fastforce simp: demo_env_def demo_libs_def demo_api_def demo_pool_def demo_shard_def
        demo_config_def get_raft_def Let_def)
qed

end
