(* ===== verification/Unit_Tests.thy ===== *)
theory Unit_Tests
  imports Pool_Operations Handler
begin

text \<open>
  The unit tests of the repository, run on the model. Each test function is a truth value built
  from the definitions of the component it tests; an assertion is a conjunct, and an \<open>unwrap\<close> of
  an error or of \<open>None\<close> makes the test false. That they hold checks the model against the
  expectations the authors wrote down.
\<close>

section \<open>The router (router/mod.rs)\<close>

definition test_default_shard_is_zero :: bool where
  "test_default_shard_is_zero \<longleftrightarrow> route router_new ''anything'' = 0"

definition test_explicit_route :: bool where
  "test_explicit_route \<longleftrightarrow>
     (let router = add_route ''game-zone-forest'' 1 router_new;
          router = add_route ''game-zone-desert'' 2 router
      in route router ''game-zone-forest'' = 1 \<and> route router ''game-zone-desert'' = 2 \<and>
         route router ''unknown-db'' = 0)"

definition test_remove_route_falls_back :: bool where
  "test_remove_route_falls_back \<longleftrightarrow>
     (let router = add_route ''my-db'' 5 router_new;
          (removed, router') = remove_route ''my-db'' router
      in route router ''my-db'' = 5 \<and> removed = Some 5 \<and> route router' ''my-db'' = 0)"

definition test_custom_default_shard :: bool where
  "test_custom_default_shard \<longleftrightarrow> route (set_default_shard 42 router_new) ''anything'' = 42"

definition test_route_count :: bool where
  "test_route_count \<longleftrightarrow>
     route_count router_new = 0 \<and> route_count (add_route ''b'' 2 (add_route ''a'' 1 router_new)) = 2"

definition test_overwrite_route :: bool where
  "test_overwrite_route \<longleftrightarrow>
     (let router = add_route ''db'' 2 (add_route ''db'' 1 router_new)
      in route router ''db'' = 2 \<and> route_count router = 1)"

definition test_remove_nonexistent_route :: bool where
  "test_remove_nonexistent_route \<longleftrightarrow> fst (remove_route ''nope'' router_new) = None"

lemma router_tests_pass:
  "test_default_shard_is_zero" "test_explicit_route" "test_remove_route_falls_back"
  "test_custom_default_shard" "test_route_count" "test_overwrite_route" "test_remove_nonexistent_route"
  by (simp_all add: test_default_shard_is_zero_def test_explicit_route_def test_remove_route_falls_back_def
      test_custom_default_shard_def test_route_count_def test_overwrite_route_def
      test_remove_nonexistent_route_def router_defs Let_def)

definition test_extract_module_name_standard_path :: bool where
  "test_extract_module_name_standard_path \<longleftrightarrow> extract_module_name ''/database/subscribe/mydb'' = Some ''mydb''"

definition test_extract_module_name_no_leading_slash :: bool where
  "test_extract_module_name_no_leading_slash \<longleftrightarrow> extract_module_name ''database/subscribe/mydb'' = Some ''mydb''"

definition test_extract_module_name_with_query_string :: bool where
  "test_extract_module_name_with_query_string \<longleftrightarrow>
     extract_module_name ''/database/subscribe/mydb?token=abc'' = Some ''mydb''"

definition test_extract_module_name_too_few_parts :: bool where
  "test_extract_module_name_too_few_parts \<longleftrightarrow>
     extract_module_name ''/database/subscribe'' = None \<and> extract_module_name ''/database'' = None \<and>
     extract_module_name ''/'' = None \<and> extract_module_name '''' = None"

definition test_extract_module_name_wrong_prefix :: bool where
  "test_extract_module_name_wrong_prefix \<longleftrightarrow> extract_module_name ''/api/subscribe/mydb'' = None"

definition test_extract_module_name_trailing_slash :: bool where
  "test_extract_module_name_trailing_slash \<longleftrightarrow> extract_module_name ''/database/subscribe/mydb/'' = Some ''mydb''"

lemma extract_tests_pass:
  "test_extract_module_name_standard_path" "test_extract_module_name_no_leading_slash"
  "test_extract_module_name_with_query_string" "test_extract_module_name_too_few_parts"
  "test_extract_module_name_wrong_prefix" "test_extract_module_name_trailing_slash"
  by (simp_all add: test_extract_module_name_standard_path_def test_extract_module_name_no_leading_slash_def
      test_extract_module_name_with_query_string_def test_extract_module_name_too_few_parts_def
      test_extract_module_name_wrong_prefix_def test_extract_module_name_trailing_slash_def
      extract_module_name_def Let_def std_simps eval_nat_numeral)

text \<open>The serialiser is a parameter; the encoding tests ask that it can write the command.\<close>

definition roundtrips :: "shard_config_command to_vec \<Rightarrow> shard_config_command from_slice \<Rightarrow> shard_config_command \<Rightarrow> bool" where
  "roundtrips tv fs cmd \<longleftrightarrow>
     (case encode_shard_config tv cmd of
        Inl e \<Rightarrow> False
      | Inr encoded \<Rightarrow> first_byte encoded = Some SHARD_CONFIG_TAG \<and> decode_shard_config fs encoded = Some cmd)"

definition test_shard_config_create_roundtrip :: "shard_config_command to_vec \<Rightarrow> shard_config_command from_slice \<Rightarrow> bool" where
  "test_shard_config_create_roundtrip tv fs \<longleftrightarrow> roundtrips tv fs (CreateShard 1)"

definition test_shard_config_add_route_roundtrip :: "shard_config_command to_vec \<Rightarrow> shard_config_command from_slice \<Rightarrow> bool" where
  "test_shard_config_add_route_roundtrip tv fs \<longleftrightarrow> roundtrips tv fs (AddRoute ''game'' 2)"

definition test_shard_config_remove_route_roundtrip :: "shard_config_command to_vec \<Rightarrow> shard_config_command from_slice \<Rightarrow> bool" where
  "test_shard_config_remove_route_roundtrip tv fs \<longleftrightarrow> roundtrips tv fs (RemoveRoute ''game'')"

definition test_decode_non_shard_config_returns_none :: "shard_config_command from_slice \<Rightarrow> bool" where
  "test_decode_non_shard_config_returns_none fs \<longleftrightarrow> decode_shard_config fs [3, 0, 1, 2] = None"

definition test_decode_empty_returns_none :: "shard_config_command from_slice \<Rightarrow> bool" where
  "test_decode_empty_returns_none fs \<longleftrightarrow> decode_shard_config fs [] = None"

definition test_decode_invalid_json_returns_none :: "shard_config_command from_slice \<Rightarrow> bool" where
  "test_decode_invalid_json_returns_none fs \<longleftrightarrow> decode_shard_config fs [SHARD_CONFIG_TAG, 0, 0, 0] = None"

lemma encoding_tests_pass:
  assumes "serde_roundtrip tv fs" "\<And>cmd. is_ok (tv cmd)" "\<not> is_ok (fs [0, 0, 0])"
  shows "test_shard_config_create_roundtrip tv fs" "test_shard_config_add_route_roundtrip tv fs"
    "test_shard_config_remove_route_roundtrip tv fs" "test_decode_non_shard_config_returns_none fs"
    "test_decode_empty_returns_none fs" "test_decode_invalid_json_returns_none fs"
proof -
  have "roundtrips tv fs cmd" for cmd
  proof -
    obtain bs where "tv cmd = Inr bs" using assms(2) [of cmd] by (cases "tv cmd") auto
    then show ?thesis
      using serde_roundtripD [OF assms(1)]
      by (simp add: roundtrips_def encode_shard_config_def decode_shard_config_def first_byte_def)
  qed
  then show "test_shard_config_create_roundtrip tv fs" "test_shard_config_add_route_roundtrip tv fs"
    "test_shard_config_remove_route_roundtrip tv fs"
    by (simp_all add: test_shard_config_create_roundtrip_def test_shard_config_add_route_roundtrip_def
        test_shard_config_remove_route_roundtrip_def)
  show "test_decode_non_shard_config_returns_none fs" "test_decode_empty_returns_none fs"
    by (simp_all add: test_decode_non_shard_config_returns_none_def test_decode_empty_returns_none_def
        decode_shard_config_def first_byte_def SHARD_CONFIG_TAG_def)
  show "test_decode_invalid_json_returns_none fs"
    using assms(3) by (cases "fs [0, 0, 0]")
      (simp_all add: test_decode_invalid_json_returns_none_def decode_shard_config_def first_byte_def)
qed

section \<open>Peers (raft/mod.rs)\<close>

definition test_parse_peers_valid :: bool where
  "test_parse_peers_valid \<longleftrightarrow>
     (let m = parse_peers [''2=node-2:4001'', ''3=node-3:4001'']
      in length m = 2 \<and> map_option addr (bt_get 2 m) = Some ''node-2:4001'' \<and>
         map_option addr (bt_get 3 m) = Some ''node-3:4001'')"

definition test_parse_peers_empty :: bool where
  "test_parse_peers_empty \<longleftrightarrow> parse_peers [] = []"

definition test_parse_peers_invalid_format :: bool where
  "test_parse_peers_invalid_format \<longleftrightarrow> parse_peers [''bad-format''] = []"

definition test_parse_peers_invalid_id :: bool where
  "test_parse_peers_invalid_id \<longleftrightarrow> parse_peers [''abc=node:4001''] = []"

lemma parse_peers_tests_pass:
  "test_parse_peers_valid" "test_parse_peers_empty" "test_parse_peers_invalid_format" "test_parse_peers_invalid_id"
  by (simp_all add: test_parse_peers_valid_def test_parse_peers_empty_def test_parse_peers_invalid_format_def
      test_parse_peers_invalid_id_def parse_peers_def parse_peer_def parse_u64_def to_digit_def bt_get_def
      Let_def std_simps)

section \<open>Classification (websocket/handler.rs)\<close>

text \<open>The loop \<open>for tag in a..=b\<close> over bytes.\<close>

definition u8_range :: "nat \<Rightarrow> nat \<Rightarrow> u8 list" where
  "u8_range a b = map word_of_nat [a ..< Suc b]"

lemma u8_range_iff: "b < 256 \<Longrightarrow> tag \<in> set (u8_range a b) \<longleftrightarrow> a \<le> unat tag \<and> unat tag \<le> b"
proof
  assume b: "b < 256"
  { assume "tag \<in> set (u8_range a b)"
    then obtain n where "tag = word_of_nat n" "a \<le> n" "n \<le> b" by (auto simp: u8_range_def less_Suc_eq_le simp del: upt_Suc)
    moreover from this b have "unat tag = n" by (simp add: unat_of_nat take_bit_nat_eq_self)
    ultimately show "a \<le> unat tag \<and> unat tag \<le> b" by simp }
  assume "a \<le> unat tag \<and> unat tag \<le> b"
  then have "unat tag \<in> set [a ..< Suc b]" by (simp del: upt_Suc)
  then have "word_of_nat (unat tag) \<in> set (u8_range a b)" unfolding u8_range_def by (simp only: set_map imageI)
  then show "tag \<in> set (u8_range a b)" by simp
qed

definition test_call_reducer_is_write :: bool where
  "test_call_reducer_is_write \<longleftrightarrow> is_write_tag CALL_REDUCER"

definition test_call_procedure_is_write :: bool where
  "test_call_procedure_is_write \<longleftrightarrow> is_write_tag CALL_PROCEDURE"

definition test_subscribe_is_not_write :: bool where
  "test_subscribe_is_not_write \<longleftrightarrow> \<not> is_write_tag SUBSCRIBE"

definition test_unsubscribe_is_not_write :: bool where
  "test_unsubscribe_is_not_write \<longleftrightarrow> \<not> is_write_tag UNSUBSCRIBE"

definition test_one_off_query_is_not_write :: bool where
  "test_one_off_query_is_not_write \<longleftrightarrow> \<not> is_write_tag ONE_OFF_QUERY"

definition test_read_tags :: bool where
  "test_read_tags \<longleftrightarrow>
     is_read_tag SUBSCRIBE \<and> is_read_tag UNSUBSCRIBE \<and> is_read_tag ONE_OFF_QUERY \<and>
     \<not> is_read_tag CALL_REDUCER \<and> \<not> is_read_tag CALL_PROCEDURE"

definition test_known_tags :: bool where
  "test_known_tags \<longleftrightarrow> list_all is_known_tag (u8_range 0 4) \<and> list_all (\<lambda>tag. \<not> is_known_tag tag) (u8_range 5 255)"

definition test_unknown_tags_are_not_writes :: bool where
  "test_unknown_tags_are_not_writes \<longleftrightarrow> list_all (\<lambda>tag. \<not> is_write_tag tag) (u8_range 5 255)"

definition test_write_and_read_tags_are_disjoint :: bool where
  "test_write_and_read_tags_are_disjoint \<longleftrightarrow>
     list_all (\<lambda>tag. \<not> (is_write_tag tag \<and> is_read_tag tag)) (u8_range 0 255)"

lemma tag_tests_pass:
  "test_call_reducer_is_write" "test_call_procedure_is_write" "test_subscribe_is_not_write"
  "test_unsubscribe_is_not_write" "test_one_off_query_is_not_write" "test_read_tags" "test_known_tags"
  "test_unknown_tags_are_not_writes" "test_write_and_read_tags_are_disjoint"
proof -
  show "test_call_reducer_is_write" "test_call_procedure_is_write" "test_subscribe_is_not_write"
    "test_unsubscribe_is_not_write" "test_one_off_query_is_not_write" "test_read_tags"
    by (simp_all add: test_call_reducer_is_write_def test_call_procedure_is_write_def test_subscribe_is_not_write_def
        test_unsubscribe_is_not_write_def test_one_off_query_is_not_write_def test_read_tags_def
        is_write_tag_def is_read_tag_def tag_defs)
  show "test_known_tags"
    by (simp add: test_known_tags_def list_all_iff u8_range_iff is_known_tag_def tag_defs word_le_nat_alt)
  show "test_unknown_tags_are_not_writes"
    by (auto simp: test_unknown_tags_are_not_writes_def list_all_iff u8_range_iff is_write_tag_def tag_defs)
  show "test_write_and_read_tags_are_disjoint"
    by (auto simp: test_write_and_read_tags_are_disjoint_def list_all_iff is_write_tag_def is_read_tag_def tag_defs)
qed

definition test_classify_call_reducer_message :: bool where
  "test_classify_call_reducer_message \<longleftrightarrow> classify_message (Binary [3, 0, 1, 2, 3]) = Write_Kind"

definition test_classify_call_procedure_message :: bool where
  "test_classify_call_procedure_message \<longleftrightarrow> classify_message (Binary [4, 10, 20]) = Write_Kind"

definition test_classify_subscribe_message :: bool where
  "test_classify_subscribe_message \<longleftrightarrow> classify_message (Binary [0, 5, 6, 7]) = Read_Kind"

definition test_classify_unsubscribe_message :: bool where
  "test_classify_unsubscribe_message \<longleftrightarrow> classify_message (Binary [1, 99]) = Read_Kind"

definition test_classify_one_off_query_message :: bool where
  "test_classify_one_off_query_message \<longleftrightarrow> classify_message (Binary [2, 0, 0, 0]) = Read_Kind"

definition test_classify_empty_binary_is_passthrough :: bool where
  "test_classify_empty_binary_is_passthrough \<longleftrightarrow> classify_message (Binary []) = PassThrough"

definition test_classify_text_is_passthrough :: bool where
  "test_classify_text_is_passthrough \<longleftrightarrow> classify_message (Text ''hello'') = PassThrough"

definition test_classify_ping_is_passthrough :: bool where
  "test_classify_ping_is_passthrough \<longleftrightarrow> classify_message (Ping []) = PassThrough"

definition test_classify_pong_is_passthrough :: bool where
  "test_classify_pong_is_passthrough \<longleftrightarrow> classify_message (Pong []) = PassThrough"

definition test_classify_close_is_passthrough :: bool where
  "test_classify_close_is_passthrough \<longleftrightarrow> classify_message (Close None) = PassThrough"

definition test_classify_unknown_tag_is_read :: bool where
  "test_classify_unknown_tag_is_read \<longleftrightarrow> classify_message (Binary [255, 0, 0]) = Read_Kind"

definition test_classify_single_byte_write :: bool where
  "test_classify_single_byte_write \<longleftrightarrow> classify_message (Binary [3]) = Write_Kind"

definition test_all_256_tags_classify_without_panic :: bool where
  "test_all_256_tags_classify_without_panic \<longleftrightarrow>
     list_all (\<lambda>tag. classify_message (Binary [tag, 0, 0, 0]) \<in> {Write_Kind, Read_Kind, PassThrough}) (u8_range 0 255)"

lemma classify_tests_pass:
  "test_classify_call_reducer_message" "test_classify_call_procedure_message" "test_classify_subscribe_message"
  "test_classify_unsubscribe_message" "test_classify_one_off_query_message"
  "test_classify_empty_binary_is_passthrough" "test_classify_text_is_passthrough" "test_classify_ping_is_passthrough"
  "test_classify_pong_is_passthrough" "test_classify_close_is_passthrough" "test_classify_unknown_tag_is_read"
  "test_classify_single_byte_write" "test_all_256_tags_classify_without_panic"
  by (simp_all add: test_classify_call_reducer_message_def test_classify_call_procedure_message_def
      test_classify_subscribe_message_def test_classify_unsubscribe_message_def
      test_classify_one_off_query_message_def test_classify_empty_binary_is_passthrough_def
      test_classify_text_is_passthrough_def test_classify_ping_is_passthrough_def
      test_classify_pong_is_passthrough_def test_classify_close_is_passthrough_def
      test_classify_unknown_tag_is_read_def test_classify_single_byte_write_def
      test_all_256_tags_classify_without_panic_def list_all_iff is_write_tag_def tag_defs)

section \<open>The state machine (raft/state_machine.rs)\<close>

definition test_new_state_machine_has_no_applied_state :: bool where
  "test_new_state_machine_has_no_applied_state \<longleftrightarrow>
     sm_last_applied sm_new = None \<and> sm_applied_count sm_new = 0"

definition test_forwarder_receives_committed_writes :: bool where
  "test_forwarder_receives_committed_writes \<longleftrightarrow>
     (case forwarder (set_forwarder channel_new sm_new) of
        None \<Rightarrow> False
      | Some tx \<Rightarrow>
          (case ch_send (1, [3, 10, 20]) tx of
             (Inl x, ch) \<Rightarrow> False
           | (Inr _, ch) \<Rightarrow> (case ch_recv ch of None \<Rightarrow> False | Some (msg, rest) \<Rightarrow> msg = (1, [3, 10, 20]))))"

definition test_forwarder_is_none_by_default :: bool where
  "test_forwarder_is_none_by_default \<longleftrightarrow> forwarder sm_new = None"

definition test_shard_config_tx_is_none_by_default :: bool where
  "test_shard_config_tx_is_none_by_default \<longleftrightarrow> shard_config_tx sm_new = None"

definition test_get_current_snapshot_initially_none :: bool where
  "test_get_current_snapshot_initially_none \<longleftrightarrow> get_current_snapshot sm_new = Inr None"

lemma state_machine_tests_pass:
  "test_new_state_machine_has_no_applied_state" "test_forwarder_receives_committed_writes"
  "test_forwarder_is_none_by_default" "test_shard_config_tx_is_none_by_default"
  "test_get_current_snapshot_initially_none"
  by (simp_all add: test_new_state_machine_has_no_applied_state_def test_forwarder_receives_committed_writes_def
      test_forwarder_is_none_by_default_def test_shard_config_tx_is_none_by_default_def
      test_get_current_snapshot_initially_none_def sm_last_applied_def sm_applied_count_def sm_new_def inner_new_def
      set_forwarder_def channel_new_def ch_send_def ch_recv_def get_current_snapshot_def)

text \<open>
  The tests of the snapshot format run on the serialiser the state machine uses, and pass with every
  one that can write the value and reads back what it wrote.
\<close>

definition reads_back :: "'a to_vec \<Rightarrow> 'a from_slice \<Rightarrow> 'a \<Rightarrow> ('a \<Rightarrow> bool) \<Rightarrow> bool" where
  "reads_back to_vec from_slice x assertion \<longleftrightarrow>
     (case to_vec x of
        Inl e \<Rightarrow> False
      | Inr json \<Rightarrow> (case from_slice json of Inl e \<Rightarrow> False | Inr restored \<Rightarrow> assertion restored))"

lemma reads_back_roundtrip:
  "serde_roundtrip tv fs \<Longrightarrow> tv x = Inr json \<Longrightarrow> reads_back tv fs x P = P x"
  by (simp add: reads_back_def serde_roundtripD)

definition test_snapshot_value :: "(string \<rightharpoonup> shard_id) \<Rightarrow> shard_id list \<Rightarrow> snapshot_data" where
  "test_snapshot_value rs sids =
     \<lparr>sd_last_applied = Some \<lparr>lg_leader_id = \<lparr>lid_term = 1, lid_node_id = 0\<rparr>, lg_index = 42\<rparr>,
      sd_last_membership = default_stored_membership, sd_applied_count = 10,
      sd_shard_routes = rs, sd_active_shards = sids\<rparr>"

definition test_snapshot_data_roundtrip :: "snapshot_data to_vec \<Rightarrow> snapshot_data from_slice \<Rightarrow> bool" where
  "test_snapshot_data_roundtrip to_vec from_slice \<longleftrightarrow>
     (let data = test_snapshot_value Map.empty []
      in reads_back to_vec from_slice data (\<lambda>restored.
           sd_last_applied restored = sd_last_applied data \<and> sd_applied_count restored = sd_applied_count data))"

definition test_snapshot_data_with_shard_config :: "snapshot_data to_vec \<Rightarrow> snapshot_data from_slice \<Rightarrow> bool" where
  "test_snapshot_data_with_shard_config to_vec from_slice \<longleftrightarrow>
     (let data = test_snapshot_value [''game'' \<mapsto> 1, ''chat'' \<mapsto> 2] [1, 2]
      in reads_back to_vec from_slice data (\<lambda>restored.
           card (dom (sd_shard_routes restored)) = 2 \<and> sd_shard_routes restored ''game'' = Some 1 \<and>
           sd_active_shards restored = [1, 2]))"

lemma snapshot_data_tests_pass:
  assumes "serde_roundtrip tv fs"
  shows "tv (test_snapshot_value Map.empty []) = Inr json \<Longrightarrow> test_snapshot_data_roundtrip tv fs"
    and "tv (test_snapshot_value [''game'' \<mapsto> 1, ''chat'' \<mapsto> 2] [1, 2]) = Inr json \<Longrightarrow>
      test_snapshot_data_with_shard_config tv fs"
  unfolding test_snapshot_data_roundtrip_def test_snapshot_data_with_shard_config_def Let_def
  by (subst reads_back_roundtrip [OF assms], assumption, simp add: test_snapshot_value_def)+

section \<open>The persistent log store (raft/persistent_log_store.rs)\<close>

definition make_entry :: "u64 \<Rightarrow> u64 \<Rightarrow> entry" where
  "make_entry trm idx =
     \<lparr>e_log_id = \<lparr>lg_leader_id = \<lparr>lid_term = trm, lid_node_id = 0\<rparr>, lg_index = idx\<rparr>, e_payload = Blank\<rparr>"

fun write_all :: "('db, 'tx) redb \<Rightarrow> serde \<Rightarrow> entry list \<Rightarrow> 'tx \<Rightarrow> string + 'tx" where
  "write_all api c [] table = Inr table"
| "write_all api c (e # es) table =
     and_then (entry_to_vec c e) (\<lambda>json.
     and_then (log_insert api (e_index e) json table) (\<lambda>table. write_all api c es table))"

definition write_entries_directly :: "('db, 'tx) redb \<Rightarrow> serde \<Rightarrow> 'db \<Rightarrow> entry list \<Rightarrow> string + 'db" where
  "write_entries_directly api c store entries =
     and_then (begin_write api store) (\<lambda>write_txn.
     and_then (open_log_table api write_txn) (\<lambda>table.
     and_then (write_all api c entries table) (\<lambda>table.
     commit api table)))"

text \<open>
  A test opens a store in an empty directory; the steps that must succeed are chained, and the
  value of the chain is what the assertions say.
\<close>

definition asserts :: "'e + bool \<Rightarrow> bool" where
  "asserts r \<longleftrightarrow> r = Inr True"

abbreviation anyway :: "'e + 'a \<Rightarrow> unit + 'a" where
  "anyway r \<equiv> map_err (\<lambda>_. ()) r"

abbreviation vote_new :: "u64 \<Rightarrow> u64 \<Rightarrow> vote" where
  "vote_new trm nid \<equiv> \<lparr>v_leader_id = \<lparr>lid_term = trm, lid_node_id = nid\<rparr>, v_committed = False\<rparr>"

definition test_persistent_store_vote_roundtrip ::
    "('db, 'tx) redb \<Rightarrow> serde \<Rightarrow> fs_io \<Rightarrow> path \<Rightarrow> 'db fs \<Rightarrow> bool" where
  "test_persistent_store_vote_roundtrip api c io dir fs \<longleftrightarrow> asserts (
     and_then (anyway (pls_new api io dir 0 fs)) (\<lambda>(store, fs).
     and_then (anyway (pls_read_vote api c store)) (\<lambda>before.
     case pls_save_vote api c (vote_new 1 0) store of (res, store) \<Rightarrow>
     and_then (anyway res) (\<lambda>_.
     and_then (anyway (pls_read_vote api c store)) (\<lambda>restored.
     Inr (before = None \<and> restored = Some (vote_new 1 0)))))))"

definition test_persistent_store_append_and_read ::
    "('db, 'tx) redb \<Rightarrow> serde \<Rightarrow> fs_io \<Rightarrow> path \<Rightarrow> 'db fs \<Rightarrow> bool" where
  "test_persistent_store_append_and_read api c io dir fs \<longleftrightarrow> asserts (
     and_then (anyway (pls_new api io dir 0 fs)) (\<lambda>(store, fs).
     and_then (anyway (write_entries_directly api c store [make_entry 1 1, make_entry 1 2, make_entry 1 3])) (\<lambda>store.
     and_then (anyway (pls_try_get_log_entries api c (Included 1) (Excluded 4) store)) (\<lambda>entries.
     Inr (map e_index entries = [1, 2, 3])))))"

definition test_persistent_store_survives_reopen ::
    "('db, 'tx) redb \<Rightarrow> serde \<Rightarrow> fs_io \<Rightarrow> path \<Rightarrow> 'db fs \<Rightarrow> bool" where
  "test_persistent_store_survives_reopen api c io dir fs \<longleftrightarrow> asserts (
     and_then (anyway (pls_new api io dir 0 fs)) (\<lambda>(store, fs).
     case pls_save_vote api c (vote_new 2 1) store of (res, store) \<Rightarrow>
     and_then (anyway res) (\<lambda>_.
     and_then (anyway (write_entries_directly api c store [make_entry 2 1, make_entry 2 2])) (\<lambda>store.
     let fs = fs(db_path dir 0 \<mapsto> File store) in
     and_then (anyway (pls_new api io dir 0 fs)) (\<lambda>(store, fs).
     and_then (anyway (pls_read_vote api c store)) (\<lambda>v.
     and_then (anyway (pls_try_get_log_entries api c (Included 1) (Excluded 3) store)) (\<lambda>entries.
     and_then (anyway (pls_get_log_state api c store)) (\<lambda>st.
     Inr (v = Some (vote_new 2 1) \<and> length entries = 2 \<and>
          map_option lg_index (last_log_id st) = Some 2)))))))))"

definition test_persistent_store_truncate ::
    "('db, 'tx) redb \<Rightarrow> serde \<Rightarrow> fs_io \<Rightarrow> path \<Rightarrow> 'db fs \<Rightarrow> bool" where
  "test_persistent_store_truncate api c io dir fs \<longleftrightarrow> asserts (
     and_then (anyway (pls_new api io dir 0 fs)) (\<lambda>(store, fs).
     and_then (anyway (write_entries_directly api c store [make_entry 1 1, make_entry 1 2, make_entry 1 3])) (\<lambda>store.
     case pls_truncate api (e_log_id (make_entry 1 2)) store of (res, store) \<Rightarrow>
     and_then (anyway res) (\<lambda>_.
     and_then (anyway (pls_try_get_log_entries api c (Included 1) (Excluded 4) store)) (\<lambda>remaining.
     Inr (map e_index remaining = [1]))))))"

definition test_persistent_store_purge ::
    "('db, 'tx) redb \<Rightarrow> serde \<Rightarrow> fs_io \<Rightarrow> path \<Rightarrow> 'db fs \<Rightarrow> bool" where
  "test_persistent_store_purge api c io dir fs \<longleftrightarrow> asserts (
     and_then (anyway (pls_new api io dir 0 fs)) (\<lambda>(store, fs).
     and_then (anyway (write_entries_directly api c store [make_entry 1 1, make_entry 1 2, make_entry 1 3])) (\<lambda>store.
     case pls_purge api c (e_log_id (make_entry 1 2)) store of (res, store) \<Rightarrow>
     and_then (anyway res) (\<lambda>_.
     and_then (anyway (pls_try_get_log_entries api c (Included 1) (Excluded 4) store)) (\<lambda>remaining.
     and_then (anyway (pls_get_log_state api c store)) (\<lambda>st.
     Inr (map e_index remaining = [3] \<and> map_option lg_index (last_purged_log_id st) = Some 2)))))))"

definition test_per_shard_path :: "('db, 'tx) redb \<Rightarrow> fs_io \<Rightarrow> path \<Rightarrow> 'db fs \<Rightarrow> bool" where
  "test_per_shard_path api io dir fs \<longleftrightarrow> asserts (
     and_then (anyway (pls_new api io dir 0 fs)) (\<lambda>(store0, fs).
     and_then (anyway (pls_new api io dir 1 fs)) (\<lambda>(store1, fs).
     Inr (path_exists fs (dir @ [''shard-0'', ''raft-log.redb'']) \<and>
          path_exists fs (dir @ [''shard-1'', ''raft-log.redb''])))))"

definition test_legacy_migration :: "('db, 'tx) redb \<Rightarrow> fs_io \<Rightarrow> path \<Rightarrow> 'db fs \<Rightarrow> bool" where
  "test_legacy_migration api io dir fs \<longleftrightarrow> asserts (
     and_then (anyway (db_create api None)) (\<lambda>db.
     let fs = fs(dir @ [''raft-log.redb''] \<mapsto> File db) in
     and_then (anyway (pls_new api io dir 0 fs)) (\<lambda>(store, fs').
     Inr (path_exists fs (dir @ [''raft-log.redb'']) \<and> \<not> path_exists fs (dir @ [''shard-0'', ''raft-log.redb'']) \<and>
          \<not> path_exists fs' (dir @ [''raft-log.redb'']) \<and> path_exists fs' (dir @ [''shard-0'', ''raft-log.redb''])))))"

text \<open>A serialiser for what the tests store: blank entries, votes and log ids with small numbers.\<close>

definition byte_log_id :: "log_id to_vec" where
  "byte_log_id i =
     (let t = lid_term (lg_leader_id i); n = lid_node_id (lg_leader_id i); k = lg_index i
      in if t < 256 \<and> n < 256 \<and> k < 256 then Inr [ucast t, ucast n, ucast k] else Inl ''too large'')"

fun log_id_byte :: "log_id from_slice" where
  "log_id_byte [t, n, k] =
     Inr \<lparr>lg_leader_id = \<lparr>lid_term = ucast t, lid_node_id = ucast n\<rparr>, lg_index = ucast k\<rparr>"
| "log_id_byte _ = Inl ''bad bytes''"

definition byte_serde :: serde where
  "byte_serde =
     \<lparr>entry_to_vec = (\<lambda>e. if e_payload e = Blank then byte_log_id (e_log_id e) else Inl ''unsupported''),
      entry_from_slice = (\<lambda>b. and_then (log_id_byte b) (\<lambda>i. Inr \<lparr>e_log_id = i, e_payload = Blank\<rparr>)),
      vote_to_vec = (\<lambda>v. if v_committed v then Inl ''unsupported''
                         else byte_log_id \<lparr>lg_leader_id = v_leader_id v, lg_index = 0\<rparr>),
      vote_from_slice = (\<lambda>b. and_then (log_id_byte b) (\<lambda>i. Inr \<lparr>v_leader_id = lg_leader_id i, v_committed = False\<rparr>)),
      log_id_to_vec = byte_log_id, log_id_from_slice = log_id_byte\<rparr>"

lemma byte_log_id_inverse: "byte_log_id i = Inr bs \<Longrightarrow> log_id_byte bs = Inr i"
proof -
  have id: "ucast (ucast x :: u8) = x" if "x < 256" for x :: u64
    using that by (simp add: word_eq_iff_unsigned unsigned_ucast_eq word_less_nat_alt unat_arith_simps unsigned_take_bit_eq take_bit_nat_eq_self)
  show "byte_log_id i = Inr bs \<Longrightarrow> log_id_byte bs = Inr i"
    by (auto simp: byte_log_id_def Let_def id split: if_splits)
qed

lemma byte_serde_laws: "serde_laws byte_serde"
  by (auto simp: serde_laws_def serde_roundtrip_def byte_serde_def byte_log_id_inverse
      split: if_splits dest!: byte_log_id_inverse)

lemmas store_eval = asserts_def write_entries_directly_def make_entry_def byte_serde_def byte_log_id_def
  pls_try_get_log_entries_def pls_get_log_state_def pls_read_vote_def pls_save_vote_def read_meta_def write_meta_def
  pls_truncate_def pls_purge_def demo_redb_def settle_def bt_range_def bt_remove_def bt_last_def ok_keys_def
  map_filter_def Let_def META_VOTE_def META_LAST_PURGED_def demo_db0_def

lemma store_tests_pass:
  "test_persistent_store_vote_roundtrip demo_redb byte_serde demo_io dir Map.empty"
  "test_persistent_store_append_and_read demo_redb byte_serde demo_io dir Map.empty"
  "test_persistent_store_truncate demo_redb byte_serde demo_io dir Map.empty"
  "test_persistent_store_purge demo_redb byte_serde demo_io dir Map.empty"
proof -
  obtain fs' where new: "pls_new demo_redb demo_io dir 0 Map.empty = Inr (demo_db0, fs')"
    using demo_pls_new [of dir 0] by (auto simp: demo_fs0_def)
  show "test_persistent_store_vote_roundtrip demo_redb byte_serde demo_io dir Map.empty"
    unfolding test_persistent_store_vote_roundtrip_def new by (simp add: store_eval)
  show "test_persistent_store_append_and_read demo_redb byte_serde demo_io dir Map.empty"
    unfolding test_persistent_store_append_and_read_def new by (simp add: store_eval)
  show "test_persistent_store_truncate demo_redb byte_serde demo_io dir Map.empty"
    unfolding test_persistent_store_truncate_def new by (simp add: store_eval)
  show "test_persistent_store_purge demo_redb byte_serde demo_io dir Map.empty"
    unfolding test_persistent_store_purge_def new by (simp add: store_eval)
qed

text \<open>Opening a store where its file is, or where nothing is.\<close>

lemma demo_reopen:
  assumes "fs (db_path dir sid) = Some (File db) \<or> fs (db_path dir sid) = None \<and> db = demo_db0"
    and "\<forall>p \<in> set (ancestors (shard_dir dir sid)). \<not> is_file (fs p)"
    and "sid \<noteq> 0 \<or> fs (dir @ [LOG_FILE]) = None"
  shows "pls_new demo_redb demo_io dir sid fs =
    Inr (db, (\<lambda>p. if p \<in> set (ancestors (shard_dir dir sid)) then Some Dir else fs p)(db_path dir sid \<mapsto> File db))"
proof -
  have mig: "migrate_legacy demo_io dir sid fs = Inr fs"
    by (rule migrate_legacy_noop) (use assms(3) in \<open>auto simp: path_exists_def\<close>)
  have mk: "create_dir_all demo_io (shard_dir dir sid) fs =
      Inr (\<lambda>p. if p \<in> set (ancestors (shard_dir dir sid)) then Some Dir else fs p)"
    using assms(2) by (simp add: create_dir_all_def demo_io_def list_ex_iff)
  show ?thesis
    using assms(1) by (auto simp: pls_new_def mig mk open_database_def demo_redb_def demo_db0_def Let_def)
qed

lemma shard_path: "dir @ [''shard-0'', ''raft-log.redb''] = db_path dir 0"
  "dir @ [''shard-1'', ''raft-log.redb''] = db_path dir 1" "dir @ [''raft-log.redb''] = dir @ [LOG_FILE]"
  by (simp_all add: db_path_def shard_dir_def LOG_FILE_def to_string_def std_simps)

lemma other_shard:
  "db_path dir a \<notin> set (ancestors (shard_dir dir b))" "shard_dir dir a @ [LOG_FILE] = db_path dir a"
  by (auto simp: ancestors_iff db_path_def shard_dir_def dest!: arg_cong [of _ _ length])

lemma file_tests_pass:
  "test_persistent_store_survives_reopen demo_redb byte_serde demo_io dir Map.empty"
  "test_per_shard_path demo_redb demo_io dir Map.empty"
proof -
  let ?fs = "\<lambda>sid p. if p \<in> set (ancestors (shard_dir dir sid)) then Some Dir else None"
  have other: "dir @ [LOG_FILE] \<noteq> db_path dir sid" for sid by (simp add: db_path_def shard_dir_def)
  have new: "pls_new demo_redb demo_io dir sid Map.empty = Inr (demo_db0, (?fs sid)(db_path dir sid \<mapsto> File demo_db0))" for sid
    by (subst demo_reopen [where db = demo_db0]) auto
  have again: "pls_new demo_redb demo_io dir 0 ((?fs 0)(db_path dir 0 \<mapsto> File db)) =
      Inr (db, (?fs 0)(db_path dir 0 \<mapsto> File db))" for db
    by (subst demo_reopen [where db = db]) (auto simp: other fun_eq_iff)
  define db1 :: demo_db where "db1 = ([], [''vote'' \<mapsto> [2, 1, 0]])"
  define db2 :: demo_db where "db2 = ([(1, [2, 0, 1]), (2, [2, 0, 2])], [''vote'' \<mapsto> [2, 1, 0]])"
  have "pls_save_vote demo_redb byte_serde (vote_new 2 1) demo_db0 = (Inr (), db1)"
    "write_entries_directly demo_redb byte_serde db1 [make_entry 2 1, make_entry 2 2] = Inr db2"
    "pls_read_vote demo_redb byte_serde db2 = Inr (Some (vote_new 2 1))"
    "pls_try_get_log_entries demo_redb byte_serde (Included 1) (Excluded 3) db2 = Inr [make_entry 2 1, make_entry 2 2]"
    "pls_get_log_state demo_redb byte_serde db2 =
       Inr \<lparr>last_purged_log_id = None, last_log_id = Some (e_log_id (make_entry 2 2))\<rparr>"
    by (simp_all add: store_eval db1_def db2_def)
  note run = this
  show "test_persistent_store_survives_reopen demo_redb byte_serde demo_io dir Map.empty"
    unfolding test_persistent_store_survives_reopen_def new
    by (simp add: run again asserts_def Let_def) (simp add: make_entry_def)
  have "pls_new demo_redb demo_io dir 1 ((?fs 0)(db_path dir 0 \<mapsto> File demo_db0)) =
      Inr (demo_db0, (\<lambda>p. if p \<in> set (ancestors (shard_dir dir 1)) then Some Dir
        else ((?fs 0)(db_path dir 0 \<mapsto> File demo_db0)) p)(db_path dir 1 \<mapsto> File demo_db0))"
    by (subst demo_reopen [where db = demo_db0]) (auto simp: other_shard)
  then show "test_per_shard_path demo_redb demo_io dir Map.empty"
    unfolding test_per_shard_path_def new shard_path
    by (simp add: asserts_def path_exists_def)
qed

lemma migration_test_passes: "test_legacy_migration demo_redb demo_io [''data''] Map.empty"
  by (simp add: test_legacy_migration_def asserts_def pls_new_def migrate_legacy_def create_dir_all_def
      fs_rename_def demo_io_def path_exists_def below_def ancestors_def db_path_def shard_dir_def LOG_FILE_def
      open_database_def demo_redb_def Let_def eval_nat_numeral to_string_def std_simps)

end
