(* ===== verification/Pool_Membership.thy ===== *)
theory Pool_Membership
  imports Pool_Operations
begin

text \<open>
  The two loops over all shards, \<open>add_node_all_shards\<close> and \<open>remove_node_all_shards\<close>. Both walk
  the sorted shard ids and stop at the first error; the locale \<open>shard_loop\<close> states this once.
\<close>

section \<open>Loops over the shards\<close>

locale shard_loop =
  fixes loop :: "shard_id list \<Rightarrow> 'r raft_pool \<Rightarrow> (string + unit) \<times> 'r raft_pool"
    and one :: "shard_id \<Rightarrow> 'r \<Rightarrow> (string + unit) \<times> 'r"
  assumes loop_Nil: "loop [] p = (Inr (), p)"
    and loop_missing: "get_raft sid p = None \<Longrightarrow>
      loop (sid # sids) p = (Inl (''shard '' @ to_string sid @ '' not found''), p)"
    and loop_fails: "get_raft sid p = Some r \<Longrightarrow> one sid r = (Inl e, r') \<Longrightarrow>
      loop (sid # sids) p = (Inl e, set_raft sid r' p)"
    and loop_goes_on: "get_raft sid p = Some r \<Longrightarrow> one sid r = (Inr u, r') \<Longrightarrow>
      loop (sid # sids) p = loop sids (set_raft sid r' p)"
begin

text \<open>Shards outside the list keep their group.\<close>

lemma loop_other: "loop sids p = (res, p') \<Longrightarrow> k \<notin> set sids \<Longrightarrow> get_raft k p' = get_raft k p"
proof (induction sids arbitrary: p)
  case (Cons sid sids)
  show ?case
  proof (cases "get_raft sid p")
    case None
    with Cons.prems loop_missing show ?thesis by simp
  next
    case (Some r)
    obtain x r' where one: "one sid r = (x, r')" by fastforce
    show ?thesis
    proof (cases x)
      case (Inl e)
      with Cons.prems loop_fails [OF Some] one show ?thesis by (auto simp: get_raft_set_raft)
    next
      case (Inr u)
      with Cons loop_goes_on [OF Some] one show ?thesis by (auto simp: get_raft_set_raft)
    qed
  qed
qed (simp add: loop_Nil)

text \<open>A successful loop did its work on every shard of the list, each from the state it found.\<close>

lemma loop_ok:
  "loop sids p = (Inr (), p') \<Longrightarrow> distinct sids \<Longrightarrow> k \<in> set sids \<Longrightarrow>
   \<exists>r r'. get_raft k p = Some r \<and> one k r = (Inr (), r') \<and> get_raft k p' = Some r'"
proof (induction sids arbitrary: p)
  case (Cons sid sids)
  from Cons.prems(1) obtain r where r: "get_raft sid p = Some r"
    using loop_missing by (cases "get_raft sid p") auto
  obtain x r' where one: "one sid r = (x, r')" by fastforce
  with Cons.prems(1) loop_fails [OF r] have x: "x = Inr ()" by (cases x) auto
  have rest: "loop sids (set_raft sid r' p) = (Inr (), p')"
    using Cons.prems(1) loop_goes_on [OF r] one x by simp
  show ?case
  proof (cases "k = sid")
    case True
    with loop_other [OF rest] Cons.prems(2) r one x show ?thesis by (simp add: get_raft_set_raft)
  next
    case False
    with Cons.IH [OF rest] Cons.prems show ?thesis by (simp add: get_raft_set_raft)
  qed
qed simp

text \<open>
  A loop that fails has done its work on the shards before the failing one and has not touched
  the ones after it.
\<close>

lemma loop_error:
  "loop sids p = (Inl e, p') \<Longrightarrow> distinct sids \<Longrightarrow>
   \<exists>pre sid post. sids = pre @ sid # post \<and>
     (\<forall>k \<in> set pre. \<exists>r r'. get_raft k p = Some r \<and> one k r = (Inr (), r') \<and> get_raft k p' = Some r') \<and>
     (\<forall>k \<in> set post. get_raft k p' = get_raft k p)"
proof (induction sids arbitrary: p)
  case (Cons sid sids)
  have stop: ?case if "\<And>k. k \<noteq> sid \<Longrightarrow> get_raft k p' = get_raft k p"
    by (rule exI [of _ "[]"], rule exI [of _ sid], rule exI [of _ sids])
      (use that Cons.prems(2) in \<open>auto, metis\<close>)
  show ?case
  proof (cases "get_raft sid p")
    case None
    with Cons.prems(1) loop_missing show ?thesis by (intro stop) simp
  next
    case (Some r)
    obtain x r' where one: "one sid r = (x, r')" by fastforce
    show ?thesis
    proof (cases x)
      case (Inl e')
      with Cons.prems(1) loop_fails [OF Some] one show ?thesis
        by (intro stop) (auto simp: get_raft_set_raft)
    next
      case (Inr u)
      then have rest: "loop sids (set_raft sid r' p) = (Inl e, p')"
        using Cons.prems(1) loop_goes_on [OF Some] one by simp
      from Cons.IH [OF rest] Cons.prems(2) obtain pre s post where *: "sids = pre @ s # post"
        "\<forall>k \<in> set pre. \<exists>r1 r2. get_raft k (set_raft sid r' p) = Some r1 \<and> one k r1 = (Inr (), r2) \<and> get_raft k p' = Some r2"
        "\<forall>k \<in> set post. get_raft k p' = get_raft k (set_raft sid r' p)" by auto
      have "get_raft sid p' = Some r'"
        using loop_other [OF rest] Cons.prems(2) Some by (simp add: get_raft_set_raft)
      moreover have same: "get_raft k (set_raft sid r' p) = get_raft k p" if "k \<in> set sids" for k
        using that Cons.prems(2) by (auto simp: get_raft_set_raft)
      have "\<forall>k \<in> set pre. \<exists>r1 r2. get_raft k p = Some r1 \<and> one k r1 = (Inr (), r2) \<and> get_raft k p' = Some r2"
        "\<forall>k \<in> set post. get_raft k p' = get_raft k p"
        using *(2,3) same unfolding *(1) by auto
      ultimately show ?thesis
        using *(1) Some one Inr
        by - (rule exI [of _ "sid # pre"], rule exI [of _ s], rule exI [of _ post], simp)
    qed
  qed
qed (simp add: loop_Nil)

end

section \<open>The two loops\<close>

definition add_one :: "'r raft_api \<Rightarrow> u64 \<Rightarrow> string \<Rightarrow> shard_id \<Rightarrow> 'r \<Rightarrow> (string + unit) \<times> 'r" where
  "add_one api nid a sid r =
     (case add_learner api nid \<lparr>addr = a\<rparr> True r of
        (Inl e, r1) \<Rightarrow> (Inl (''add_learner on shard '' @ to_string sid @ '': '' @ e), r1)
      | (Inr _, r1) \<Rightarrow>
          (case change_membership api (insert nid (voter_ids (raft_metrics_of api r1))) False r1 of
             (Inl e, r2) \<Rightarrow> (Inl (''change_membership on shard '' @ to_string sid @ '': '' @ e), r2)
           | (Inr _, r2) \<Rightarrow> (Inr (), r2)))"

definition remove_one :: "'r raft_api \<Rightarrow> u64 \<Rightarrow> shard_id \<Rightarrow> 'r \<Rightarrow> (string + unit) \<times> 'r" where
  "remove_one api nid sid r =
     (case change_membership api (Set.filter (\<lambda>i. i \<noteq> nid) (voter_ids (raft_metrics_of api r))) False r of
        (Inl e, r') \<Rightarrow> (Inl (''change_membership on shard '' @ to_string sid @ '': '' @ e), r')
      | (Inr _, r') \<Rightarrow> (Inr (), r'))"

interpretation add_loop: shard_loop "add_node_loop api nid a" "add_one api nid a"
  for api :: "'r raft_api" and nid a
  by unfold_locales (auto simp: add_one_def Let_def split: prod.splits sum.splits)

interpretation remove_loop: shard_loop "remove_node_loop api nid" "remove_one api nid"
  for api :: "'r raft_api" and nid
  by unfold_locales (auto simp: remove_one_def Let_def split: prod.splits sum.splits)

lemma set_list_shards: "set (list_shards p) = fst ` set (shards p)"
  by (simp add: list_shards_def)

lemma distinct_list_shards: "pool_inv p \<Longrightarrow> distinct (list_shards p)"
  by (simp add: list_shards_def pool_inv_def)

lemma get_raft_listed: "get_raft sid p = Some r \<Longrightarrow> sid \<in> set (list_shards p)"
  by (force simp: get_raft_def set_list_shards dest: map_of_SomeD)

section \<open>Properties\<close>

text \<open>
  What the loops rely on in the consensus library: a membership change that succeeded leaves
  exactly the requested voters, and adding a learner changes no voter.
\<close>

definition membership_laws :: "'r raft_api \<Rightarrow> bool" where
  "membership_laws api \<longleftrightarrow>
     (\<forall>vs r u r'. change_membership api vs False r = (Inr u, r') \<longrightarrow> voter_ids (raft_metrics_of api r') = vs) \<and>
     (\<forall>i n r u r'. add_learner api i n True r = (Inr u, r') \<longrightarrow>
        voter_ids (raft_metrics_of api r') = voter_ids (raft_metrics_of api r))"

lemma demo_membership_laws: "membership_laws demo_api"
  by (simp add: membership_laws_def demo_api_def voter_ids_def)

lemma add_one_voters:
  "membership_laws api \<Longrightarrow> add_one api nid a sid r = (Inr (), r') \<Longrightarrow>
   voter_ids (raft_metrics_of api r') = insert nid (voter_ids (raft_metrics_of api r))"
  by (fastforce simp: add_one_def membership_laws_def split: prod.splits sum.splits)

lemma remove_one_voters:
  "membership_laws api \<Longrightarrow> remove_one api nid sid r = (Inr (), r') \<Longrightarrow>
   voter_ids (raft_metrics_of api r') = voter_ids (raft_metrics_of api r) - {nid}"
  by (fastforce simp: remove_one_def membership_laws_def split: prod.splits sum.splits)

text \<open>
  C23. A node added to the cluster becomes a voter of every shard, and a removed one of none: when
  the call returns Ok, the voters of each shard are the ones it had with the node added, or
  taken away, and nothing else changed in them.
\<close>

theorem membership_change_reaches_every_shard:
  assumes "pool_inv p" "membership_laws api" "get_raft sid p = Some r"
  shows "(\<forall>p'. add_node_all_shards api nid a p = (Inr (), p') \<longrightarrow>
      (\<exists>r'. get_raft sid p' = Some r' \<and>
         voter_ids (raft_metrics_of api r') = insert nid (voter_ids (raft_metrics_of api r)))) \<and>
    (\<forall>p'. remove_node_all_shards api nid p = (Inr (), p') \<longrightarrow>
      (\<exists>r'. get_raft sid p' = Some r' \<and>
         voter_ids (raft_metrics_of api r') = voter_ids (raft_metrics_of api r) - {nid}))"
proof -
  note listed = distinct_list_shards [OF assms(1)] get_raft_listed [OF assms(3)]
  have "\<exists>r'. get_raft sid p' = Some r' \<and>
      voter_ids (raft_metrics_of api r') = insert nid (voter_ids (raft_metrics_of api r))"
    if "add_node_all_shards api nid a p = (Inr (), p')" for p'
    using add_loop.loop_ok [OF that [unfolded add_node_all_shards_def] listed] assms(3)
      add_one_voters [OF assms(2), of nid a sid r] by auto
  moreover have "\<exists>r'. get_raft sid p' = Some r' \<and>
      voter_ids (raft_metrics_of api r') = voter_ids (raft_metrics_of api r) - {nid}"
    if "remove_node_all_shards api nid p = (Inr (), p')" for p'
    using remove_loop.loop_ok [OF that [unfolded remove_node_all_shards_def] listed] assms(3)
      remove_one_voters [OF assms(2), of nid sid r] by auto
  ultimately show ?thesis by simp
qed

lemma demo_pool_inv: "pool_inv (demo_pool leads)"
  by (simp add: pool_inv_def shard_ok_def demo_pool_def demo_shard_def set_forwarder_def
      set_shard_config_tx_def listening_def channel_new_def)

lemma demo_get_raft: "get_raft 0 (demo_pool leads) = Some \<lparr>dr_leads = leads, dr_log = [], dr_voters = {1, 2}\<rparr>"
  by (simp add: get_raft_def demo_pool_def demo_shard_def)

theorem membership_change_reaches_every_shard_witness:
  "\<exists>r'. get_raft 0 (snd (add_node_all_shards demo_api 5 ''n5:4001'' (demo_pool True))) = Some r' \<and>
     5 \<in> voter_ids (raft_metrics_of demo_api r')"
proof -
  let ?p' = "set_raft 0 \<lparr>dr_leads = True, dr_log = [], dr_voters = {5, 1, 2}\<rparr> (demo_pool True)"
  have "add_node_all_shards demo_api 5 ''n5:4001'' (demo_pool True) = (Inr (), ?p')"
    by (simp add: add_node_all_shards_def list_shards_def demo_pool_def demo_shard_def get_raft_def
        demo_api_def voter_ids_def)
  with membership_change_reaches_every_shard
    [OF demo_pool_inv demo_membership_laws demo_get_raft, of 5 "''n5:4001''" True]
  show ?thesis by auto
qed


definition demo_api_reject :: "demo_raft raft_api" where
  "demo_api_reject = demo_api\<lparr>change_membership :=
     (\<lambda>vs b r. if dr_leads r then (Inr (), r\<lparr>dr_voters := vs\<rparr>) else (Inl ''not leader'', r))\<rparr>"


end
