(* ===== verification/Api.thy ===== *)
theory Api
  imports Pool_Operations Handler
begin

text \<open>
  The HTTP management API, \<open>api.rs\<close>: its table of routes and one definition per handler. A
  handler's outcome is a reply, an error status with a text, or a panic.
\<close>

section \<open>Outcomes\<close>

datatype 'a reply = Reply 'a | Fails http_status string | Panics string

definition OK :: http_status where "OK = 200"
definition BAD_REQUEST :: http_status where "BAD_REQUEST = 400"
definition NOT_FOUND :: http_status where "NOT_FOUND = 404"
definition INTERNAL_SERVER_ERROR :: http_status where "INTERNAL_SERVER_ERROR = 500"
definition SERVICE_UNAVAILABLE :: http_status where "SERVICE_UNAVAILABLE = 503"

lemmas status_defs = OK_def BAD_REQUEST_def NOT_FOUND_def INTERNAL_SERVER_ERROR_def SERVICE_UNAVAILABLE_def

text \<open>How the consensus library prints its values.\<close>

record displays =
  show_raft_error :: "raft_error \<Rightarrow> string"
  show_log_id :: "log_id \<Rightarrow> string"
  debug_membership :: "stored_membership \<Rightarrow> string"

definition expect_shard0 :: "'r raft_pool \<Rightarrow> ('r \<Rightarrow> 'a reply \<times> 'r raft_pool) \<Rightarrow> 'a reply \<times> 'r raft_pool" where
  "expect_shard0 p k = (case get_raft 0 p of None \<Rightarrow> (Panics ''shard 0 must exist'', p) | Some r \<Rightarrow> k r)"

definition get_shard_raft :: "'r raft_pool \<Rightarrow> shard_id \<Rightarrow> (http_status \<times> string) + 'r" where
  "get_shard_raft p sid = ok_or (NOT_FOUND, ''shard '' @ to_string sid @ '' not found'') (get_raft sid p)"

section \<open>Raft messages\<close>

text \<open>
  The consensus library's side of the three kinds of message; its result, error or not, is the
  body of the reply.
\<close>

record ('r, 'aq, 'ap, 'vq, 'vp, 'sq, 'sp) raft_rpcs =
  on_append_entries :: "'aq \<Rightarrow> 'r \<Rightarrow> 'ap \<times> 'r"
  on_vote :: "'vq \<Rightarrow> 'r \<Rightarrow> 'vp \<times> 'r"
  on_install_snapshot :: "'sq \<Rightarrow> 'r \<Rightarrow> 'sp \<times> 'r"

definition raft_shard_append ::
    "('r, 'aq, 'ap, 'vq, 'vp, 'sq, 'sp) raft_rpcs \<Rightarrow> shard_id \<Rightarrow> 'aq \<Rightarrow> 'r raft_pool \<Rightarrow> 'ap reply \<times> 'r raft_pool" where
  "raft_shard_append rpcs sid req p =
     (case get_shard_raft p sid of
        Inl (st, e) \<Rightarrow> (Fails st e, p)
      | Inr r \<Rightarrow> (case on_append_entries rpcs req r of (resp, r') \<Rightarrow> (Reply resp, set_raft sid r' p)))"

definition raft_shard_vote ::
    "('r, 'aq, 'ap, 'vq, 'vp, 'sq, 'sp) raft_rpcs \<Rightarrow> shard_id \<Rightarrow> 'vq \<Rightarrow> 'r raft_pool \<Rightarrow> 'vp reply \<times> 'r raft_pool" where
  "raft_shard_vote rpcs sid req p =
     (case get_shard_raft p sid of
        Inl (st, e) \<Rightarrow> (Fails st e, p)
      | Inr r \<Rightarrow> (case on_vote rpcs req r of (resp, r') \<Rightarrow> (Reply resp, set_raft sid r' p)))"

definition raft_shard_snapshot ::
    "('r, 'aq, 'ap, 'vq, 'vp, 'sq, 'sp) raft_rpcs \<Rightarrow> shard_id \<Rightarrow> 'sq \<Rightarrow> 'r raft_pool \<Rightarrow> 'sp reply \<times> 'r raft_pool" where
  "raft_shard_snapshot rpcs sid req p =
     (case get_shard_raft p sid of
        Inl (st, e) \<Rightarrow> (Fails st e, p)
      | Inr r \<Rightarrow> (case on_install_snapshot rpcs req r of (resp, r') \<Rightarrow> (Reply resp, set_raft sid r' p)))"

definition raft_append ::
    "('r, 'aq, 'ap, 'vq, 'vp, 'sq, 'sp) raft_rpcs \<Rightarrow> 'aq \<Rightarrow> 'r raft_pool \<Rightarrow> 'ap reply \<times> 'r raft_pool" where
  "raft_append rpcs req p =
     expect_shard0 p (\<lambda>r. case on_append_entries rpcs req r of (resp, r') \<Rightarrow> (Reply resp, set_raft 0 r' p))"

definition raft_vote ::
    "('r, 'aq, 'ap, 'vq, 'vp, 'sq, 'sp) raft_rpcs \<Rightarrow> 'vq \<Rightarrow> 'r raft_pool \<Rightarrow> 'vp reply \<times> 'r raft_pool" where
  "raft_vote rpcs req p =
     expect_shard0 p (\<lambda>r. case on_vote rpcs req r of (resp, r') \<Rightarrow> (Reply resp, set_raft 0 r' p))"

definition raft_snapshot ::
    "('r, 'aq, 'ap, 'vq, 'vp, 'sq, 'sp) raft_rpcs \<Rightarrow> 'sq \<Rightarrow> 'r raft_pool \<Rightarrow> 'sp reply \<times> 'r raft_pool" where
  "raft_snapshot rpcs req p =
     expect_shard0 p (\<lambda>r. case on_install_snapshot rpcs req r of (resp, r') \<Rightarrow> (Reply resp, set_raft 0 r' p))"

section \<open>Cluster management\<close>

record cluster_status_body =
  cs_node_id :: u64
  cs_state :: string
  cs_current_leader :: "u64 option"
  cs_current_term :: u64
  cs_last_applied :: "string option"
  cs_membership :: string
  cs_active_shards :: "shard_id list"

definition cluster_status :: "'r raft_api \<Rightarrow> displays \<Rightarrow> 'r raft_pool \<Rightarrow> cluster_status_body reply \<times> 'r raft_pool" where
  "cluster_status api d p =
     expect_shard0 p (\<lambda>r.
       let m = raft_metrics_of api r in
       (Reply \<lparr>cs_node_id = node_id (pool_config p), cs_state = rm_state m,
               cs_current_leader = rm_current_leader m,
               cs_current_term = lid_term (v_leader_id (rm_vote m)),
               cs_last_applied = map_option (show_log_id d) (rm_last_applied m),
               cs_membership = debug_membership d (rm_membership_config m),
               cs_active_shards = list_shards p\<rparr>, p))"

definition cluster_init ::
    "'r raft_api \<Rightarrow> (u64, basic_node) btree_map \<Rightarrow> 'r raft_pool \<Rightarrow> string reply \<times> 'r raft_pool" where
  "cluster_init api members p =
     expect_shard0 p (\<lambda>r.
       case raft_initialize api members r of
         (Inl e, r') \<Rightarrow> (Fails INTERNAL_SERVER_ERROR e, set_raft 0 r' p)
       | (Inr _, r') \<Rightarrow> (Reply ''Cluster initialized'', set_raft 0 r' p))"

definition cluster_add_node :: "'r raft_api \<Rightarrow> u64 \<Rightarrow> string \<Rightarrow> 'r raft_pool \<Rightarrow> string reply \<times> 'r raft_pool" where
  "cluster_add_node api nid a p =
     (case add_node_all_shards api nid a p of
        (Inl e, p') \<Rightarrow> (Fails INTERNAL_SERVER_ERROR e, p')
      | (Inr _, p') \<Rightarrow> (Reply (''Node '' @ to_string nid @ '' added to all shards''), p'))"

definition cluster_remove_node :: "'r raft_api \<Rightarrow> u64 \<Rightarrow> 'r raft_pool \<Rightarrow> string reply \<times> 'r raft_pool" where
  "cluster_remove_node api nid p =
     (case remove_node_all_shards api nid p of
        (Inl e, p') \<Rightarrow> (Fails INTERNAL_SERVER_ERROR e, p')
      | (Inr _, p') \<Rightarrow> (Reply (''Node '' @ to_string nid @ '' removed from all shards''), p'))"

section \<open>Writes forwarded by followers\<close>

definition cluster_shard_write ::
    "'r raft_api \<Rightarrow> displays \<Rightarrow> shard_id \<Rightarrow> reducer_call_request \<Rightarrow> 'r raft_pool \<Rightarrow> string reply \<times> 'r raft_pool" where
  "cluster_shard_write api d sid req p =
     (case get_shard_raft p sid of
        Inl (st, e) \<Rightarrow> (Fails st e, p)
      | Inr r \<Rightarrow>
          (case client_write api req r of
             (Inl e, r') \<Rightarrow> (Fails INTERNAL_SERVER_ERROR (show_raft_error d e), set_raft sid r' p)
           | (Inr _, r') \<Rightarrow> (Reply ''Write committed'', set_raft sid r' p)))"

definition write_shard0 ::
    "'r raft_api \<Rightarrow> displays \<Rightarrow> reducer_call_request \<Rightarrow> string \<Rightarrow> 'r raft_pool \<Rightarrow> string reply \<times> 'r raft_pool" where
  "write_shard0 api d req msg p =
     expect_shard0 p (\<lambda>r.
       case client_write api req r of
         (Inl e, r') \<Rightarrow> (Fails INTERNAL_SERVER_ERROR (show_raft_error d e), set_raft 0 r' p)
       | (Inr _, r') \<Rightarrow> (Reply msg, set_raft 0 r' p))"

definition cluster_write ::
    "'r raft_api \<Rightarrow> displays \<Rightarrow> reducer_call_request \<Rightarrow> 'r raft_pool \<Rightarrow> string reply \<times> 'r raft_pool" where
  "cluster_write api d req p = write_shard0 api d req ''Write committed'' p"

section \<open>Discovery and monitoring\<close>

record leader_info =
  li_leader_id :: "u64 option"
  li_leader_addr :: "string option"
  li_this_node_is_leader :: bool

definition cluster_leader :: "'r raft_api \<Rightarrow> 'r raft_pool \<Rightarrow> leader_info reply \<times> 'r raft_pool" where
  "cluster_leader api p =
     expect_shard0 p (\<lambda>r.
       let leader_id = rm_current_leader (raft_metrics_of api r);
           nid = node_id (pool_config p)
       in (Reply \<lparr>li_leader_id = leader_id,
                  li_leader_addr =
                    (case leader_id of
                       None \<Rightarrow> None
                     | Some i \<Rightarrow> if i = nid then None else map_option addr (bt_get i (pool_peers p))),
                  li_this_node_is_leader = (leader_id = Some nid)\<rparr>, p))"

definition cluster_health :: "'r raft_api \<Rightarrow> 'r raft_pool \<Rightarrow> string reply \<times> 'r raft_pool" where
  "cluster_health api p =
     expect_shard0 p (\<lambda>r.
       if rm_current_leader (raft_metrics_of api r) \<noteq> None then (Reply ''healthy'', p)
       else (Fails SERVICE_UNAVAILABLE ''no leader elected'', p))"

definition prometheus_metrics :: "'f metrics_lib \<Rightarrow> metrics \<Rightarrow> ((string \<times> string) list \<times> string) reply" where
  "prometheus_metrics lib m =
     (case encode_metrics lib m of
        Inl (Panic e) \<Rightarrow> Panics e
      | Inl (Storage e) \<Rightarrow> Panics []
      | Inr text \<Rightarrow> Reply ([(''content-type'', ''text/plain; version=0.0.4; charset=utf-8'')], text))"

section \<open>Shard management\<close>

text \<open>
  The three handlers encode a command, put it into a request of this node and write it to shard
  0's group. Unlike \<open>propose_write\<close> they do not forward to the leader.
\<close>

definition propose_config ::
    "'r raft_api \<Rightarrow> displays \<Rightarrow> shard_config_command to_vec \<Rightarrow> shard_config_command \<Rightarrow> string \<Rightarrow>
     'r raft_pool \<Rightarrow> string reply \<times> 'r raft_pool" where
  "propose_config api d tv cmd msg p =
     (case encode_shard_config tv cmd of
        Inl (Panic e) \<Rightarrow> (Panics e, p)
      | Inl (Storage e) \<Rightarrow> (Panics [], p)
      | Inr data \<Rightarrow>
          write_shard0 api d \<lparr>raw_message = data, origin_node_id = node_id (pool_config p)\<rparr> msg p)"

definition shard_create ::
    "'r raft_api \<Rightarrow> displays \<Rightarrow> shard_config_command to_vec \<Rightarrow> shard_id \<Rightarrow> 'r raft_pool \<Rightarrow> string reply \<times> 'r raft_pool" where
  "shard_create api d tv sid p =
     (if sid = 0 then (Fails BAD_REQUEST ''shard 0 always exists'', p)
      else propose_config api d tv (CreateShard sid) (''Shard '' @ to_string sid @ '' created'') p)"

definition shard_add_route ::
    "'r raft_api \<Rightarrow> displays \<Rightarrow> shard_config_command to_vec \<Rightarrow> string \<Rightarrow> shard_id \<Rightarrow> 'r raft_pool \<Rightarrow>
     string reply \<times> 'r raft_pool" where
  "shard_add_route api d tv mn sid p =
     propose_config api d tv (AddRoute mn sid)
       (''Route '' @ mn @ '' -> shard '' @ to_string sid @ '' added'') p"

definition shard_remove_route ::
    "'r raft_api \<Rightarrow> displays \<Rightarrow> shard_config_command to_vec \<Rightarrow> string \<Rightarrow> 'r raft_pool \<Rightarrow> string reply \<times> 'r raft_pool" where
  "shard_remove_route api d tv mn p =
     propose_config api d tv (RemoveRoute mn) (''Route for '' @ mn @ '' removed'') p"

record shard_list_response =
  sl_shards :: "shard_id list"
  sl_routes :: "string \<rightharpoonup> shard_id"

definition shard_list :: "'r raft_pool \<Rightarrow> shard_list_response reply \<times> 'r raft_pool" where
  "shard_list p = (Reply \<lparr>sl_shards = list_shards p, sl_routes = get_routes p\<rparr>, p)"

record shard_status_response =
  ss_shard_id :: shard_id
  ss_state :: string
  ss_current_leader :: "u64 option"
  ss_current_term :: u64
  ss_last_applied :: "string option"
  ss_membership :: string

definition shard_status ::
    "'r raft_api \<Rightarrow> displays \<Rightarrow> shard_id \<Rightarrow> 'r raft_pool \<Rightarrow> shard_status_response reply \<times> 'r raft_pool" where
  "shard_status api d sid p =
     (case get_shard_raft p sid of
        Inl (st, e) \<Rightarrow> (Fails st e, p)
      | Inr r \<Rightarrow>
          let m = raft_metrics_of api r in
          (Reply \<lparr>ss_shard_id = sid, ss_state = rm_state m, ss_current_leader = rm_current_leader m,
                  ss_current_term = lid_term (v_leader_id (rm_vote m)),
                  ss_last_applied = map_option (show_log_id d) (rm_last_applied m),
                  ss_membership = debug_membership d (rm_membership_config m)\<rparr>, p))"

section \<open>The table of routes\<close>

datatype http_method = GET | POST | DELETE
datatype segment = Lit string | Param

datatype endpoint =
    Raft_Shard_Append | Raft_Shard_Vote | Raft_Shard_Snapshot
  | Raft_Append | Raft_Vote | Raft_Snapshot
  | Cluster_Shard_Write | Cluster_Write
  | Cluster_Status | Cluster_Init | Cluster_Add_Node | Cluster_Remove_Node
  | Cluster_Leader | Cluster_Health | Prometheus_Metrics
  | Shard_Create | Shard_Add_Route | Shard_Remove_Route | Shard_List | Shard_Status

definition router_table :: "(segment list \<times> http_method \<times> endpoint) list" where
  "router_table =
     [([Lit ''raft'', Param, Lit ''append''], POST, Raft_Shard_Append),
      ([Lit ''raft'', Param, Lit ''vote''], POST, Raft_Shard_Vote),
      ([Lit ''raft'', Param, Lit ''snapshot''], POST, Raft_Shard_Snapshot),
      ([Lit ''raft'', Lit ''append''], POST, Raft_Append),
      ([Lit ''raft'', Lit ''vote''], POST, Raft_Vote),
      ([Lit ''raft'', Lit ''snapshot''], POST, Raft_Snapshot),
      ([Lit ''cluster'', Param, Lit ''write''], POST, Cluster_Shard_Write),
      ([Lit ''cluster'', Lit ''write''], POST, Cluster_Write),
      ([Lit ''cluster'', Lit ''status''], GET, Cluster_Status),
      ([Lit ''cluster'', Lit ''init''], POST, Cluster_Init),
      ([Lit ''cluster'', Lit ''add-node''], POST, Cluster_Add_Node),
      ([Lit ''cluster'', Lit ''remove-node''], POST, Cluster_Remove_Node),
      ([Lit ''cluster'', Lit ''leader''], GET, Cluster_Leader),
      ([Lit ''cluster'', Lit ''health''], GET, Cluster_Health),
      ([Lit ''metrics''], GET, Prometheus_Metrics),
      ([Lit ''cluster'', Lit ''shards'', Lit ''create''], POST, Shard_Create),
      ([Lit ''cluster'', Lit ''shards'', Lit ''route''], POST, Shard_Add_Route),
      ([Lit ''cluster'', Lit ''shards'', Lit ''route''], DELETE, Shard_Remove_Route),
      ([Lit ''cluster'', Lit ''shards''], GET, Shard_List),
      ([Lit ''cluster'', Lit ''shards'', Param, Lit ''status''], GET, Shard_Status)]"

text \<open>
  How the table is used: a literal segment matches itself, a parameter any one non-empty
  segment, which is then read as an unsigned integer. No two entries of the table match the same
  path with the same method.
\<close>

function segments :: "string \<Rightarrow> string list" where
  "segments s = (case split_once (CHR ''/'') s of None \<Rightarrow> [s] | Some (a, b) \<Rightarrow> a # segments b)"
  by pat_completeness auto

termination
  by (relation "measure length") (auto simp: split_once_Some_iff)

declare segments.simps [simp del]

fun match_path :: "segment list \<Rightarrow> string list \<Rightarrow> string list option" where
  "match_path [] [] = Some []"
| "match_path (Lit l # ps) (s # ss) = (if l = s then match_path ps ss else None)"
| "match_path (Param # ps) (s # ss) = (if s = [] then None else map_option (Cons s) (match_path ps ss))"
| "match_path _ _ = None"

datatype dispatched = To endpoint "string list" | Path_Not_Found | Method_Not_Allowed

definition dispatch :: "http_method \<Rightarrow> string \<Rightarrow> dispatched" where
  "dispatch meth path =
     (let matches = List.map_filter (\<lambda>(pat, m, e). map_option (\<lambda>caps. (m, e, caps)) (match_path pat (segments (drop 1 path))))
            router_table
      in if matches = [] \<or> take 1 path \<noteq> ''/'' then Path_Not_Found
         else case find (\<lambda>(m, e, caps). m = meth) matches of
                Some (m, e, caps) \<Rightarrow> To e caps
              | None \<Rightarrow> Method_Not_Allowed)"

section \<open>Paths and URLs\<close>

lemma segments_last: "CHR ''/'' \<notin> set a \<Longrightarrow> segments a = [a]"
  by (subst segments.simps) (simp add: split_once_None)

lemma segments_step: "CHR ''/'' \<notin> set a \<Longrightarrow> segments (a @ CHR ''/'' # b) = a # segments b"
proof -
  assume "CHR ''/'' \<notin> set a"
  then have "split_once (CHR ''/'') (a @ CHR ''/'' # b) = Some (a, b)" by (simp add: split_once_Some_iff)
  then show ?thesis by (subst segments.simps) simp
qed

lemma slash_not_in_to_string [simp]: "CHR ''/'' \<notin> set (to_string x)"
  by (rule not_in_to_string) (simp add: to_digit_def)

text \<open>The path segments of the URLs the nodes and the command line build.\<close>

lemma segments_raft_path:
  "CHR ''/'' \<notin> set rpc \<Longrightarrow> segments (''raft/'' @ to_string sid @ CHR ''/'' # rpc) = [''raft'', to_string sid, rpc]"
  using segments_step [of "''raft''" "to_string sid @ CHR ''/'' # rpc"] segments_step [of "to_string sid" rpc]
    segments_last [of rpc] by simp

lemma segments_write_path: "segments (''cluster/'' @ to_string sid @ ''/write'') = [''cluster'', to_string sid, ''write'']"
  using segments_step [of "''cluster''" "to_string sid @ ''/write''"] segments_step [of "to_string sid" "''write''"]
    segments_last [of "''write''"] by simp

lemma dispatch_by_segments:
  "dispatch meth (CHR ''/'' # path) =
     (let matches = List.map_filter (\<lambda>(pat, m, e). map_option (\<lambda>caps. (m, e, caps)) (match_path pat (segments path))) router_table
      in if matches = [] then Path_Not_Found
         else case find (\<lambda>(m, e, caps). m = meth) matches of
                Some (m, e, caps) \<Rightarrow> To e caps | None \<Rightarrow> Method_Not_Allowed)"
  by (simp add: dispatch_def)

lemma dispatch_raft_paths:
  "dispatch POST (''/raft/'' @ to_string sid @ ''/append'') = To Raft_Shard_Append [to_string sid]"
  "dispatch POST (''/raft/'' @ to_string sid @ ''/vote'') = To Raft_Shard_Vote [to_string sid]"
  "dispatch POST (''/raft/'' @ to_string sid @ ''/snapshot'') = To Raft_Shard_Snapshot [to_string sid]"
  "dispatch POST (''/cluster/'' @ to_string sid @ ''/write'') = To Cluster_Shard_Write [to_string sid]"
  using dispatch_by_segments [of POST "''raft/'' @ to_string sid @ ''/append''"]
    dispatch_by_segments [of POST "''raft/'' @ to_string sid @ ''/vote''"]
    dispatch_by_segments [of POST "''raft/'' @ to_string sid @ ''/snapshot''"]
    dispatch_by_segments [of POST "''cluster/'' @ to_string sid @ ''/write''"]
    segments_raft_path [of "''append''" sid] segments_raft_path [of "''vote''" sid]
    segments_raft_path [of "''snapshot''" sid] segments_write_path [of sid]
  by (simp_all add: router_table_def map_filter_simps)

text \<open>The authority and the path of a URL.\<close>

definition url_parts :: "string \<Rightarrow> string \<times> string" where
  "url_parts url =
     (let rest = drop 3 (dropWhile (\<lambda>c. c \<noteq> CHR '':'') url)
      in (takeWhile (\<lambda>c. c \<noteq> CHR ''/'') rest, dropWhile (\<lambda>c. c \<noteq> CHR ''/'') rest))"

lemma url_parts_eq:
  assumes "scheme \<in> {''http'', ''https''}" "CHR ''/'' \<notin> set host"
  shows "url_parts (scheme @ ''://'' @ host @ CHR ''/'' # rest) = (host, CHR ''/'' # rest)"
  using assms by (auto simp: url_parts_def takeWhile_stops_at dropWhile_stops_at)

section \<open>Properties\<close>


definition demo_conn :: "unit network_connection" where
  "demo_conn = \<lparr>nc_target = 2, nc_addr = ''n2:4001'', nc_client = (), nc_use_tls = True, nc_shard_id = 7\<rparr>"


text \<open>Every handler leaves the frame of the pool as it was.\<close>

lemma expect_shard0_frame:
  "(\<And>r. pool_frame (snd (k r)) = pool_frame p) \<Longrightarrow> pool_frame (snd (expect_shard0 p k)) = pool_frame p"
  by (simp add: expect_shard0_def split: option.splits)

lemma write_shard0_frame: "pool_frame (snd (write_shard0 api d req msg p)) = pool_frame p"
  unfolding write_shard0_def by (rule expect_shard0_frame) (simp split: prod.splits sum.splits)

lemma propose_config_frame: "pool_frame (snd (propose_config api d tv cmd msg p)) = pool_frame p"
  by (simp add: propose_config_def write_shard0_frame split: sum.splits fault.splits)

lemma expect_shard0_no_panic:
  "pool_inv p \<Longrightarrow> (\<And>r. fst (k r) \<noteq> Panics e) \<Longrightarrow> fst (expect_shard0 p k) \<noteq> Panics e"
  by (auto simp: expect_shard0_def pool_inv_def get_raft_def split: option.splits)

lemma write_shard0_no_panic: "pool_inv p \<Longrightarrow> fst (write_shard0 api d req msg p) \<noteq> Panics e"
  unfolding write_shard0_def by (erule expect_shard0_no_panic) (simp split: prod.splits sum.splits)

lemma propose_config_no_panic:
  "pool_inv p \<Longrightarrow> tv cmd = Inr bs \<Longrightarrow> fst (propose_config api d tv cmd msg p) \<noteq> Panics e"
  by (simp add: propose_config_def encode_shard_config_def write_shard0_no_panic)

text \<open>
  C25. No handler of the management API panics. In every state a node can reach, the handlers that
  expect shard 0 find it, and as long as the serialiser accepts the configuration commands, none
  of the handlers ends in a panic.
\<close>

theorem api_never_panics:
  fixes rpcs :: "('r, 'aq, 'ap, 'vq, 'vp, 'sq, 'sp) raft_rpcs"
  assumes "pool_reach env config fs0 evs (p, fs, m)" and "\<forall>cmd. \<exists>bs. tv cmd = Inr bs"
  shows "fst (cluster_status api d p) \<noteq> Panics e \<and> fst (cluster_init api members p) \<noteq> Panics e \<and>
    fst (cluster_write api d req p) \<noteq> Panics e \<and> fst (cluster_leader api p) \<noteq> Panics e \<and>
    fst (cluster_health api p) \<noteq> Panics e \<and> fst (raft_append rpcs aq p) \<noteq> Panics e \<and>
    fst (raft_vote rpcs vq p) \<noteq> Panics e \<and> fst (raft_snapshot rpcs sq p) \<noteq> Panics e \<and>
    fst (shard_create api d tv sid p) \<noteq> Panics e \<and> fst (shard_add_route api d tv mn sid p) \<noteq> Panics e \<and>
    fst (shard_remove_route api d tv mn p) \<noteq> Panics e"
proof -
  have inv: "pool_inv p" using pool_reach_inv [OF assms(1)] by simp
  note np = expect_shard0_no_panic [OF inv]
  have cfg: "fst (propose_config api d tv cmd msg p) \<noteq> Panics e" for cmd msg
    using propose_config_no_panic [OF inv] assms(2) by metis
  have "fst (cluster_status api d p) \<noteq> Panics e" unfolding cluster_status_def by (rule np) (simp add: Let_def)
  moreover have "fst (cluster_init api members p) \<noteq> Panics e"
    unfolding cluster_init_def by (rule np) (simp split: prod.splits sum.splits)
  moreover have "fst (cluster_leader api p) \<noteq> Panics e" unfolding cluster_leader_def by (rule np) (simp add: Let_def)
  moreover have "fst (cluster_health api p) \<noteq> Panics e" unfolding cluster_health_def by (rule np) simp
  moreover have "fst (raft_append rpcs aq p) \<noteq> Panics e" "fst (raft_vote rpcs vq p) \<noteq> Panics e"
    "fst (raft_snapshot rpcs sq p) \<noteq> Panics e"
    unfolding raft_append_def raft_vote_def raft_snapshot_def by (rule np, simp split: prod.splits)+
  ultimately show ?thesis
    using cfg write_shard0_no_panic [OF inv]
    by (simp add: cluster_write_def shard_create_def shard_add_route_def shard_remove_route_def)
qed

definition demo_displays :: displays where
  "demo_displays = \<lparr>show_raft_error = (\<lambda>e. ''error''), show_log_id = (\<lambda>l. ''id''), debug_membership = (\<lambda>m. [])\<rparr>"

definition demo_rpcs :: "(demo_raft, unit, unit, unit, unit, unit, unit) raft_rpcs" where
  "demo_rpcs = \<lparr>on_append_entries = Pair, on_vote = Pair, on_install_snapshot = Pair\<rparr>"

theorem api_never_panics_witness:
  "\<exists>p fs m. pool_reach demo_env demo_config demo_fs0 [Commits 0 [demo_create7], Propose 0 [3, 9]] (p, fs, m) \<and>
     fst (cluster_health demo_api p) \<noteq> Panics ''shard 0 must exist''"
proof -
  obtain p fs m where r:
    "pool_reach demo_env demo_config demo_fs0 [Commits 0 [demo_create7], Propose 0 [3, 9]] (p, fs, m)"
    using demo_reach_commit by blast
  have total: "\<forall>cmd :: shard_config_command. \<exists>bs. (\<lambda>c. Inr []) cmd = (Inr bs :: string + bytes)" by simp
  have "fst (cluster_health demo_api p) \<noteq> Panics ''shard 0 must exist''"
    using api_never_panics [OF r total, where api = demo_api and d = demo_displays and rpcs = demo_rpcs]
    by blast
  with r show ?thesis by blast
qed

text \<open>
  What a node answers to a POST of a write request, as the status of its response: the path is
  dispatched, the shard id read, and the handler called.
\<close>

definition serve_write :: "'r raft_api \<Rightarrow> displays \<Rightarrow> 'r raft_pool \<Rightarrow> http_post" where
  "serve_write api d p url q =
     Inr (case dispatch POST (snd (url_parts url)) of
            To Cluster_Shard_Write [s] \<Rightarrow>
              (case parse_u64 s of
                 Inl e \<Rightarrow> BAD_REQUEST
               | Inr sid \<Rightarrow> (case fst (cluster_shard_write api d sid q p) of Reply b \<Rightarrow> OK | Fails st e \<Rightarrow> st | Panics e \<Rightarrow> INTERNAL_SERVER_ERROR))
          | _ \<Rightarrow> NOT_FOUND)"



end
