(* ===== verification/Cli.thy ===== *)
theory Cli
  imports Api
begin

text \<open>
  The command line tool, \<open>crates/cli/src/main.rs\<close>: the request each command makes, what it prints
  and how it ends. The HTTP client, the JSON values it returns and the \<open>spacetime\<close> program it runs
  are parameters.
\<close>

section \<open>Commands\<close>

datatype commands =
    Cmd_Status string
  | Cmd_AddNode u64 string string
  | Cmd_RemoveNode u64 string
  | Cmd_Init "string list"
  | Cmd_Deploy string "string option" "string list"
  | Cmd_CreateShard shard_id string
  | Cmd_AddRoute string shard_id string
  | Cmd_RemoveRoute string string
  | Cmd_ListShards string
  | Cmd_ShardStatus shard_id string

datatype request_body =
    No_Body
  | Members_Body "(u64, basic_node) btree_map"
  | Add_Node_Body u64 string
  | Node_Body u64
  | Shard_Body shard_id
  | Route_Body string shard_id
  | Module_Body string

type_synonym request = "http_method \<times> string \<times> request_body"

text \<open>
  A response has a status, a text and a JSON value, each of the latter two possibly unreadable.
  \<open>json_field v k\<close> prints \<open>v[k]\<close>; \<open>json_array\<close> and \<open>json_object\<close> print the elements of \<open>v[k]\<close> when
  it is an array or an object.
\<close>

record 'j http_response =
  rs_status :: http_status
  rs_text :: "string + string"
  rs_json :: "string + 'j"

datatype spawn_result = Not_Found | Spawn_Failed string | Exited bool string

record 'j cli_lib =
  http_send :: "request \<Rightarrow> string + 'j http_response"
  json_field :: "'j \<Rightarrow> string \<Rightarrow> string"
  json_array :: "'j \<Rightarrow> string \<Rightarrow> string list option"
  json_object :: "'j \<Rightarrow> string \<Rightarrow> (string \<times> string) list option"
  run_program :: "string list \<Rightarrow> spawn_result"

text \<open>
  How a command ends: normally, or with an error that has a context and a cause. A run is the
  requests made and the programs started, the printed lines, and the end.
\<close>

datatype cli_error = Context string string | Bail string

record cli_run =
  cr_requests :: "request list"
  cr_programs :: "string list list"
  cr_printed :: "string list"
  cr_result :: "cli_error + unit"

section \<open>Parsing the members of a new cluster\<close>

fun init_loop ::
    "string list \<Rightarrow> (u64, basic_node) btree_map \<Rightarrow> string option \<Rightarrow>
     cli_error + ((u64, basic_node) btree_map \<times> string option)" where
  "init_loop [] members first_addr = Inr (members, first_addr)"
| "init_loop (node_spec # specs) members first_addr =
     (case split_once (CHR ''='') node_spec of
        None \<Rightarrow> Inl (Context (''Invalid node format '' @ [CHR 0x27] @ node_spec @ [CHR 0x27] @
                     '', expected '' @ [CHR 0x27] @ ''id=host:port'' @ [CHR 0x27]) [])
      | Some (id_str, a) \<Rightarrow>
          (case parse_u64 id_str of
             Inl e \<Rightarrow> Inl (Context (''Invalid node ID '' @ [CHR 0x27] @ id_str @ [CHR 0x27]) [])
           | Inr i \<Rightarrow>
               init_loop specs (bt_insert i \<lparr>addr = a\<rparr> members)
                 (case first_addr of None \<Rightarrow> Some (''http://'' @ a) | Some f \<Rightarrow> Some f)))"

section \<open>Requests that change the cluster\<close>

text \<open>
  The common shape: print what is about to happen, send, and report success or the response's
  text (an unreadable text counts as empty).
\<close>

definition send_change ::
    "'j cli_lib \<Rightarrow> request \<Rightarrow> string list \<Rightarrow> string \<Rightarrow> string \<Rightarrow> string \<Rightarrow> cli_run" where
  "send_change lib req before unreachable succeeded failed =
     (let run = (\<lambda>printed res. \<lparr>cr_requests = [req], cr_programs = [], cr_printed = printed, cr_result = res\<rparr>) in
      case http_send lib req of
        Inl e \<Rightarrow> run before (Inl (Context unreachable e))
      | Inr resp \<Rightarrow>
          if is_success (rs_status resp) then run (before @ [succeeded]) (Inr ())
          else run before (Inl (Bail (failed @ '': '' @ (case rs_text resp of Inl e \<Rightarrow> [] | Inr t \<Rightarrow> t)))))"

definition cli_fails :: "cli_error \<Rightarrow> cli_run" where
  "cli_fails e = \<lparr>cr_requests = [], cr_programs = [], cr_printed = [], cr_result = Inl e\<rparr>"

definition run_init :: "'j cli_lib \<Rightarrow> string list \<Rightarrow> cli_run" where
  "run_init lib specs =
     (case init_loop specs [] None of
        Inl e \<Rightarrow> cli_fails e
      | Inr (members, None) \<Rightarrow> cli_fails (Context ''No nodes specified'' [])
      | Inr (members, Some target) \<Rightarrow>
          let url = target @ ''/cluster/init'' in
          send_change lib (POST, url, Members_Body members)
            ((''Initializing cluster via '' @ url @ ''...'') #
             map (\<lambda>(i, n). ''  Node '' @ to_string i @ '': '' @ addr n) members)
            ''Failed to connect to node'' ''Cluster initialized successfully!'' ''Initialization failed'')"

definition run_add_node :: "'j cli_lib \<Rightarrow> u64 \<Rightarrow> string \<Rightarrow> string \<Rightarrow> cli_run" where
  "run_add_node lib nid a cluster =
     send_change lib (POST, cluster @ ''/cluster/add-node'', Add_Node_Body nid a)
       [''Adding node '' @ to_string nid @ '' ('' @ a @ '') via '' @ cluster @ ''...'']
       ''Failed to connect to cluster'' (''Node '' @ to_string nid @ '' added successfully!'') ''Add node failed''"

definition run_remove_node :: "'j cli_lib \<Rightarrow> u64 \<Rightarrow> string \<Rightarrow> cli_run" where
  "run_remove_node lib nid cluster =
     send_change lib (POST, cluster @ ''/cluster/remove-node'', Node_Body nid)
       [''Removing node '' @ to_string nid @ '' via '' @ cluster @ ''...'']
       ''Failed to connect to cluster'' (''Node '' @ to_string nid @ '' removed successfully!'') ''Remove node failed''"

definition run_create_shard :: "'j cli_lib \<Rightarrow> shard_id \<Rightarrow> string \<Rightarrow> cli_run" where
  "run_create_shard lib sid cluster =
     send_change lib (POST, cluster @ ''/cluster/shards/create'', Shard_Body sid)
       [''Creating shard '' @ to_string sid @ '' via '' @ cluster @ ''...'']
       ''Failed to connect to cluster'' (''Shard '' @ to_string sid @ '' created successfully!'') ''Create shard failed''"

definition run_add_route :: "'j cli_lib \<Rightarrow> string \<Rightarrow> shard_id \<Rightarrow> string \<Rightarrow> cli_run" where
  "run_add_route lib mn sid cluster =
     send_change lib (POST, cluster @ ''/cluster/shards/route'', Route_Body mn sid)
       [''Adding route '' @ mn @ '' -> shard '' @ to_string sid @ '' via '' @ cluster @ ''...'']
       ''Failed to connect to cluster'' (''Route '' @ mn @ '' -> shard '' @ to_string sid @ '' added!'') ''Add route failed''"

definition run_remove_route :: "'j cli_lib \<Rightarrow> string \<Rightarrow> string \<Rightarrow> cli_run" where
  "run_remove_route lib mn cluster =
     send_change lib (DELETE, cluster @ ''/cluster/shards/route'', Module_Body mn)
       [''Removing route for '' @ mn @ '' via '' @ cluster @ ''...'']
       ''Failed to connect to cluster'' (''Route for '' @ mn @ '' removed!'') ''Remove route failed''"

section \<open>Queries\<close>

definition status_lines :: "'j cli_lib \<Rightarrow> 'j \<Rightarrow> string list" where
  "status_lines lib v =
     [''  State:      '' @ json_field lib v ''state'', ''  Leader:     '' @ json_field lib v ''current_leader'',
      ''  Term:       '' @ json_field lib v ''current_term'', ''  Applied:    '' @ json_field lib v ''last_applied'',
      ''  Membership: '' @ json_field lib v ''membership'']"

fun join :: "string \<Rightarrow> string list \<Rightarrow> string" where
  "join sep [] = []"
| "join sep [x] = x"
| "join sep (x # xs) = x @ sep @ join sep xs"

definition query ::
    "'j cli_lib \<Rightarrow> request \<Rightarrow> string option \<Rightarrow> string \<Rightarrow> ('j \<Rightarrow> string list) \<Rightarrow> cli_run" where
  "query lib req failed unparsed report =
     (let run = (\<lambda>printed res. \<lparr>cr_requests = [req], cr_programs = [], cr_printed = printed, cr_result = res\<rparr>) in
      case http_send lib req of
        Inl e \<Rightarrow> run [] (Inl (Context ''Failed to connect to node'' e))
      | Inr resp \<Rightarrow>
          (case (failed, is_success (rs_status resp)) of
             (Some f, False) \<Rightarrow> run [] (Inl (Bail (f @ '': '' @ (case rs_text resp of Inl e \<Rightarrow> [] | Inr t \<Rightarrow> t))))
           | _ \<Rightarrow> (case rs_json resp of
                     Inl e \<Rightarrow> run [] (Inl (Context unparsed e))
                   | Inr v \<Rightarrow> run (report v) (Inr ()))))"

definition run_status :: "'j cli_lib \<Rightarrow> string \<Rightarrow> cli_run" where
  "run_status lib a =
     query lib (GET, a @ ''/cluster/status'', No_Body) None ''Failed to parse status response'' (\<lambda>v.
       [''Cluster Status:'', ''  Node ID:    '' @ json_field lib v ''node_id''] @ status_lines lib v @
       (case json_array lib v ''active_shards'' of
          None \<Rightarrow> []
        | Some ids \<Rightarrow> [''  Shards:     ['' @ join '', '' ids @ '']'']))"

definition run_list_shards :: "'j cli_lib \<Rightarrow> string \<Rightarrow> cli_run" where
  "run_list_shards lib a =
     query lib (GET, a @ ''/cluster/shards'', No_Body) None ''Failed to parse response'' (\<lambda>v.
       [''Active Shards:''] @
       (case json_array lib v ''shards'' of None \<Rightarrow> [] | Some ids \<Rightarrow> map (\<lambda>s. ''  Shard '' @ s) ids) @
       [CHR 0x0A # ''Routes:''] @
       (case json_object lib v ''routes'' of
          None \<Rightarrow> []
        | Some rts \<Rightarrow>
            (if rts = [] then [''  (none '' @ [CHR 0xE2, CHR 0x80, CHR 0x94] @ '' all modules go to shard 0)''] else []) @
            map (\<lambda>(mn, s). ''  '' @ mn @ '' -> shard '' @ s) rts))"

definition run_shard_status :: "'j cli_lib \<Rightarrow> shard_id \<Rightarrow> string \<Rightarrow> cli_run" where
  "run_shard_status lib sid a =
     query lib (GET, a @ ''/cluster/shards/'' @ to_string sid @ ''/status'', No_Body)
       (Some ''Shard status failed'') ''Failed to parse status response'' (\<lambda>v.
       (''Shard '' @ to_string sid @ '' Status:'') # status_lines lib v)"

section \<open>Deploying\<close>

definition file_name :: "string \<Rightarrow> string option" where
  "file_name s =
     (case rev (path_of s) of
        [] \<Rightarrow> None
      | x # xs \<Rightarrow> if x = ''..'' \<or> x = ''/'' then None else Some x)"

text \<open>\<open>str::trim\<close>: the UTF-8 encodings of the characters Unicode counts as white space.\<close>

definition white_space :: "string list" where
  "white_space =
     [[CHR 0x09], [CHR 0x0A], [CHR 0x0B], [CHR 0x0C], [CHR 0x0D], [CHR 0x20], [CHR 0xC2, CHR 0x85],
      [CHR 0xC2, CHR 0xA0], [CHR 0xE1, CHR 0x9A, CHR 0x80]] @
     map (\<lambda>b. [CHR 0xE2, CHR 0x80, char_of (b :: nat)]) ([0x80 ..< 0x8B] @ [0xA8, 0xA9, 0xAF]) @
     [[CHR 0xE2, CHR 0x81, CHR 0x9F], [CHR 0xE3, CHR 0x80, CHR 0x80]]"

function strip_prefixes :: "string list \<Rightarrow> string \<Rightarrow> string" where
  "strip_prefixes ws s =
     (case find (\<lambda>w. w \<noteq> [] \<and> take (length w) s = w) ws of
        None \<Rightarrow> s
      | Some w \<Rightarrow> strip_prefixes ws (drop (length w) s))"
  by pat_completeness auto

termination
proof (relation "measure (length \<circ> snd)")
  fix ws :: "string list" and s w :: string
  assume "find (\<lambda>w. w \<noteq> [] \<and> take (length w) s = w) ws = Some w"
  then have "w \<noteq> []" "take (length w) s = w" by (auto simp: find_Some_iff)
  then show "((ws, drop (length w) s), (ws, s)) \<in> measure (length \<circ> snd)"
    by (cases s) (auto simp: neq_Nil_conv)
qed simp

declare strip_prefixes.simps [simp del]

definition trim :: "string \<Rightarrow> string" where
  "trim s = rev (strip_prefixes (map rev white_space) (rev (strip_prefixes white_space s)))"

text \<open>
  The loop over the servers: the programs started, the printed lines, the count of failures (an
  \<open>i32\<close> in the code, which a list of arguments cannot overflow).
\<close>

fun deploy_loop ::
    "'j cli_lib \<Rightarrow> string \<Rightarrow> string \<Rightarrow> string list \<Rightarrow> nat \<Rightarrow> string list list \<times> string list \<times> (cli_error + nat)" where
  "deploy_loop lib md db [] failed = ([], [], Inr failed)"
| "deploy_loop lib md db (server # servers) failed =
     (let args = [''spacetime'', ''publish'', ''--server'', server, md, db];
          start = ''  Publishing to '' @ server @ ''... '';
          go = (\<lambda>line failed. case deploy_loop lib md db servers failed of
                  (progs, printed, res) \<Rightarrow> (args # progs, (start @ line) # printed, res))
      in case run_program lib args of
           Exited True err \<Rightarrow> go ''OK'' failed
         | Exited False err \<Rightarrow> go (''FAILED: '' @ trim err) (failed + 1)
         | Not_Found \<Rightarrow>
             ([args], [start],
              Inl (Bail ''spacetime CLI not found. Install it: https://spacetimedb.com/install''))
         | Spawn_Failed e \<Rightarrow> go (''FAILED: '' @ e) (failed + 1))"

definition run_deploy :: "'j cli_lib \<Rightarrow> string \<Rightarrow> string option \<Rightarrow> string list \<Rightarrow> cli_run" where
  "run_deploy lib md name servers =
     (let db_name = (case name of
                       Some n \<Rightarrow> n
                     | None \<Rightarrow> (case file_name md of Some n \<Rightarrow> n | None \<Rightarrow> ''my_module''));
          first = ''Deploying module '' @ [CHR 0x27] @ db_name @ [CHR 0x27] @ '' from '' @ md @ '' to '' @
                  show_nat (length servers) @ '' node(s)...''
      in case deploy_loop lib md db_name servers 0 of
           (progs, printed, res) \<Rightarrow>
             \<lparr>cr_requests = [], cr_programs = progs,
              cr_printed = first # printed @
                (if res = Inr 0 then [''Module '' @ [CHR 0x27] @ db_name @ [CHR 0x27] @ '' deployed to all nodes!''] else []),
              cr_result =
                (case res of
                   Inl e \<Rightarrow> Inl e
                 | Inr failed \<Rightarrow>
                     if 0 < failed then Inl (Bail (show_nat failed @ '' node(s) failed. All nodes must have the same module.''))
                     else Inr ())\<rparr>)"

section \<open>The program\<close>

fun cli_main :: "'j cli_lib \<Rightarrow> commands \<Rightarrow> cli_run" where
  "cli_main lib (Cmd_Status a) = run_status lib a"
| "cli_main lib (Cmd_Init specs) = run_init lib specs"
| "cli_main lib (Cmd_AddNode nid a cluster) = run_add_node lib nid a cluster"
| "cli_main lib (Cmd_Deploy md name servers) = run_deploy lib md name servers"
| "cli_main lib (Cmd_RemoveNode nid cluster) = run_remove_node lib nid cluster"
| "cli_main lib (Cmd_CreateShard sid cluster) = run_create_shard lib sid cluster"
| "cli_main lib (Cmd_AddRoute mn sid cluster) = run_add_route lib mn sid cluster"
| "cli_main lib (Cmd_RemoveRoute mn cluster) = run_remove_route lib mn cluster"
| "cli_main lib (Cmd_ListShards a) = run_list_shards lib a"
| "cli_main lib (Cmd_ShardStatus sid a) = run_shard_status lib sid a"

section \<open>Properties\<close>

lemma init_loop_members:
  "init_loop specs members f = Inr (members', f') \<Longrightarrow>
   members' = parse_peers_from members specs \<and> (\<forall>spec \<in> set specs. parse_peer spec \<noteq> None)"
proof (induction specs arbitrary: members f)
  case (Cons spec specs)
  then obtain i a where "split_once (CHR ''='') spec = Some (i, a)" by (auto split: option.splits)
  moreover from this Cons.prems obtain n where "parse_u64 i = Inr n" by (auto split: sum.splits)
  ultimately show ?case using Cons by (auto simp: parse_peer_def)
qed simp

lemma init_loop_ok:
  "\<forall>spec \<in> set specs. parse_peer spec \<noteq> None \<Longrightarrow> \<exists>f'. init_loop specs members f = Inr (parse_peers_from members specs, f')"
proof (induction specs arbitrary: members f)
  case (Cons spec specs)
  then show ?case by (auto simp: parse_peer_def split: option.splits sum.splits)
qed simp


definition publish_ok :: "'j cli_lib \<Rightarrow> string \<Rightarrow> string \<Rightarrow> string \<Rightarrow> bool" where
  "publish_ok lib md db server =
     (case run_program lib [''spacetime'', ''publish'', ''--server'', server, md, db] of
        Exited True err \<Rightarrow> True | _ \<Rightarrow> False)"

definition publish_missing :: "'j cli_lib \<Rightarrow> string \<Rightarrow> string \<Rightarrow> string \<Rightarrow> bool" where
  "publish_missing lib md db server =
     (run_program lib [''spacetime'', ''publish'', ''--server'', server, md, db] = Not_Found)"

lemma deploy_loop_spec:
  "deploy_loop lib md db servers n = (progs, printed, res) \<Longrightarrow>
   (let tried = takeWhile (\<lambda>s. \<not> publish_missing lib md db s) servers in
      progs = map (\<lambda>s. [''spacetime'', ''publish'', ''--server'', s, md, db]) (take (Suc (length tried)) servers) \<and>
      (res = (if length tried < length servers
              then Inl (Bail ''spacetime CLI not found. Install it: https://spacetimedb.com/install'')
              else Inr (n + length (filter (\<lambda>s. \<not> publish_ok lib md db s) servers)))))"
proof (induction servers arbitrary: n progs printed)
  case (Cons server servers)
  then show ?case
    by (fastforce simp: publish_missing_def publish_ok_def Let_def
        split: spawn_result.splits bool.splits prod.splits)
qed simp

text \<open>
  A deployment reports success exactly when the module was published to every server. Each
  server is tried once and in order, also after a failure; only a missing \<open>spacetime\<close> program
  stops the loop.
\<close>

lemma deploy_succeeds_iff_all_published:
  "(cr_result (run_deploy lib md (Some db) servers) = Inr () \<longleftrightarrow> list_all (publish_ok lib md db) servers) \<and>
   cr_programs (run_deploy lib md (Some db) servers) =
     map (\<lambda>s. [''spacetime'', ''publish'', ''--server'', s, md, db])
       (take (Suc (length (takeWhile (\<lambda>s. \<not> publish_missing lib md db s) servers))) servers)"
proof -
  obtain progs printed res where d: "deploy_loop lib md db servers 0 = (progs, printed, res)"
    by (metis surj_pair)
  let ?r = "list_all (publish_ok lib md db) servers"
  let ?tried = "takeWhile (\<lambda>s. \<not> publish_missing lib md db s) servers"
  have progs: "progs = map (\<lambda>s. [''spacetime'', ''publish'', ''--server'', s, md, db]) (take (Suc (length ?tried)) servers)"
    and res: "res = (if length ?tried < length servers
      then Inl (Bail ''spacetime CLI not found. Install it: https://spacetimedb.com/install'')
      else Inr (length (filter (\<lambda>s. \<not> publish_ok lib md db s) servers)))"
    using deploy_loop_spec [OF d] by (simp_all add: Let_def)
  have "cr_result (run_deploy lib md (Some db) servers) = Inr () \<longleftrightarrow> res = Inr 0"
    using d by (auto simp: run_deploy_def Let_def split: sum.splits if_splits)
  also have "\<dots> \<longleftrightarrow> length ?tried = length servers \<and> filter (\<lambda>s. \<not> publish_ok lib md db s) servers = []"
    using length_takeWhile_le [of "\<lambda>s. \<not> publish_missing lib md db s" servers] unfolding res by auto
  also have "\<dots> \<longleftrightarrow> ?r"
  proof
    assume r: ?r
    then have "\<forall>s \<in> set servers. \<not> publish_missing lib md db s"
      by (auto simp: list_all_iff publish_ok_def publish_missing_def)
    then have "?tried = servers" by (simp only: takeWhile_eq_all_conv)
    then have "length ?tried = length servers" by (rule arg_cong)
    with r show "length ?tried = length servers \<and> filter (\<lambda>s. \<not> publish_ok lib md db s) servers = []"
      by (simp add: list_all_iff filter_empty_conv)
  qed (simp add: list_all_iff filter_empty_conv)
  finally show ?thesis using d progs by (simp add: run_deploy_def Let_def)
qed

subsection \<open>Commands and endpoints\<close>

lemma url_parts_http:
  "CHR ''/'' \<notin> set host \<Longrightarrow> url_parts (''http://'' @ host @ CHR ''/'' # rest) = (host, CHR ''/'' # rest)"
  using url_parts_eq [of "''http''" host rest] by simp

lemma segments_status_path:
  "segments (''cluster/shards/'' @ to_string sid @ ''/status'') = [''cluster'', ''shards'', to_string sid, ''status'']"
  using segments_step [of "''cluster''" "''shards/'' @ to_string sid @ ''/status''"]
    segments_step [of "''shards''" "to_string sid @ ''/status''"]
    segments_step [of "to_string sid" "''status''"] segments_last [of "''status''"] by simp

lemma dispatch_status_path:
  "dispatch GET (''/cluster/shards/'' @ to_string sid @ ''/status'') = To Shard_Status [to_string sid]"
  using dispatch_by_segments [of GET "''cluster/shards/'' @ to_string sid @ ''/status''"] segments_status_path [of sid]
  by (simp add: router_table_def map_filter_simps)

lemma segments_concrete:
  "segments ''cluster/status'' = [''cluster'', ''status'']" "segments ''cluster/init'' = [''cluster'', ''init'']"
  "segments ''cluster/add-node'' = [''cluster'', ''add-node'']"
  "segments ''cluster/remove-node'' = [''cluster'', ''remove-node'']"
  "segments ''cluster/shards'' = [''cluster'', ''shards'']"
  "segments ''cluster/shards/create'' = [''cluster'', ''shards'', ''create'']"
  "segments ''cluster/shards/route'' = [''cluster'', ''shards'', ''route'']"
  by (simp_all add: segments.simps split_once_def)

lemma dispatch_concrete:
  "dispatch GET ''/cluster/status'' = To Cluster_Status []"
  "dispatch POST ''/cluster/init'' = To Cluster_Init []"
  "dispatch POST ''/cluster/add-node'' = To Cluster_Add_Node []"
  "dispatch POST ''/cluster/remove-node'' = To Cluster_Remove_Node []"
  "dispatch GET ''/cluster/shards'' = To Shard_List []"
  "dispatch POST ''/cluster/shards/create'' = To Shard_Create []"
  "dispatch POST ''/cluster/shards/route'' = To Shard_Add_Route []"
  "dispatch DELETE ''/cluster/shards/route'' = To Shard_Remove_Route []"
  by (simp_all add: dispatch_by_segments segments_concrete router_table_def map_filter_simps)

text \<open>Where a request goes: the node it is sent to and the handler that node gives it to.\<close>

definition goes_to :: "request \<Rightarrow> string \<times> dispatched" where
  "goes_to req = (case req of (meth, url, body) \<Rightarrow>
     (fst (url_parts url), dispatch meth (snd (url_parts url))))"

lemma send_change_requests: "cr_requests (send_change lib req before u s f) = [req]"
  by (simp add: send_change_def Let_def split: sum.splits)

lemma query_requests: "cr_requests (query lib req f u report) = [req]"
  by (simp add: query_def Let_def split: sum.splits option.splits bool.splits)

lemma goes_to_path:
  "CHR ''/'' \<notin> set host \<Longrightarrow>
   goes_to (meth, ''http://'' @ host @ CHR ''/'' # path, body) = (host, dispatch meth (CHR ''/'' # path))"
  using url_parts_http [of host path] by (simp add: goes_to_def)


definition demo_cli :: "unit cli_lib" where
  "demo_cli =
     \<lparr>http_send = (\<lambda>q. Inl ''refused''), json_field = (\<lambda>v k. []), json_array = (\<lambda>v k. None),
      json_object = (\<lambda>v k. None), run_program = (\<lambda>args. Exited True [])\<rparr>"


end
