(* ===== verification/Startup.thy ===== *)
theory Startup
  imports Pool_Runs Handler
begin

text \<open>
  Starting a node, \<open>main.rs\<close>: validating the command line, creating the pool, loading the TLS
  material, binding the management API and serving it, and the two ways the program ends.
\<close>

section \<open>TLS material\<close>

record ('pem, 'key, 'tls) tls_lib =
  open_file :: "string \<Rightarrow> string + bytes"
  read_certs :: "bytes \<Rightarrow> (string + 'pem) list"
  read_private_key :: "bytes \<Rightarrow> string + 'key option"
  with_single_cert :: "'pem list \<Rightarrow> 'key \<Rightarrow> string + 'tls"

text \<open>\<open>collect::<Result<Vec<_>, _>>()\<close>: the first error, or all the values.\<close>

fun collect :: "('e + 'a) list \<Rightarrow> 'e + 'a list" where
  "collect [] = Inr []"
| "collect (x # xs) = and_then x (\<lambda>y. and_then (collect xs) (\<lambda>ys. Inr (y # ys)))"

definition build_tls_config :: "('pem, 'key, 'tls) tls_lib \<Rightarrow> string \<Rightarrow> string \<Rightarrow> string + 'tls" where
  "build_tls_config t cert_path key_path =
     and_then (open_file t cert_path) (\<lambda>cert_file.
     and_then (open_file t key_path) (\<lambda>key_file.
     and_then (collect (read_certs t cert_file)) (\<lambda>certs.
     and_then (read_private_key t key_file) (\<lambda>k.
     and_then (ok_or (''No private key found in '' @ key_path) k) (\<lambda>key.
     with_single_cert t certs key)))))"

section \<open>Starting\<close>

datatype 'tls api_server = Https 'tls | Http

datatype start_error = Bad_Arguments string | Pool_Failed create_error | Tls_Failed string | Bind_Failed string

record ('r, 'tls) running_node =
  rn_config :: node_config
  rn_pool :: "'r raft_pool"
  rn_server :: "'tls api_server"

text \<open>The steps up to the point where the management API is served; the first error ends \<open>main\<close>.\<close>

definition main_start ::
    "('r, 'db, 'tx, 'cl, 'cert) libs \<Rightarrow> ('pem, 'key, 'tls) tls_lib \<Rightarrow> (string \<Rightarrow> string + unit) \<Rightarrow> cli \<Rightarrow>
     'db fs \<Rightarrow> (start_error + ('r, 'tls) running_node) \<times> 'db fs" where
  "main_start l t bind args fs =
     (case main_config args of
        Inl e \<Rightarrow> (Inl (Bad_Arguments e), fs)
      | Inr config \<Rightarrow>
     (case pool_new l config fs of
        (Inl e, fs) \<Rightarrow> (Inl (Pool_Failed e), fs)
      | (Inr pool, fs) \<Rightarrow>
          ((case (if tls_enabled config
                  then map_sum id Https (build_tls_config t (the (tls_cert config)) (the (tls_key config)))
                  else Inr Http) of
              Inl e \<Rightarrow> Inl (Tls_Failed e)
            | Inr server \<Rightarrow>
                (case bind (cli_raft_addr args) of
                   Inl e \<Rightarrow> Inl (Bind_Failed e)
                 | Inr _ \<Rightarrow> Inr \<lparr>rn_config = config, rn_pool = pool, rn_server = server\<rparr>)), fs)))"

section \<open>Serving\<close>

text \<open>
  \<open>serve_tls\<close>: unlike the proxy's accept loop it goes on after a failed accept; a failed handshake
  ends only its own connection. The result is the streams that reach the router.
\<close>

fun serve_tls :: "('s \<Rightarrow> string + 'ts) \<Rightarrow> 's accept_event list \<Rightarrow> 'ts list" where
  "serve_tls handshake [] = []"
| "serve_tls handshake (Accepted stream # evs) =
     (case handshake stream of Inl e \<Rightarrow> serve_tls handshake evs | Inr ts \<Rightarrow> ts # serve_tls handshake evs)"
| "serve_tls handshake (Accept_Failed e # evs) = serve_tls handshake evs"
| "serve_tls handshake (Proxy_Shutdown # evs) = []"

text \<open>The task that refreshes the metrics, on every tick until the shutdown.\<close>

fun metrics_updater :: "'r raft_api \<Rightarrow> 'r raft_pool option list \<Rightarrow> metrics \<Rightarrow> metrics" where
  "metrics_updater api [] m = m"
| "metrics_updater api (Some p # ticks) m = metrics_updater api ticks (update_metrics api p m)"
| "metrics_updater api (None # ticks) m = m"

text \<open>
  \<open>shutdown_signal\<close> returns at the first signal it listens to: on Unix an interrupt or a SIGTERM,
  whose handler must be installed first, elsewhere an interrupt only. Waiting for the interrupt
  may itself fail, which also ends the wait.
\<close>

datatype signal_event = Ctrl_C "string + unit" | Sigterm

fun first_signal :: "bool \<Rightarrow> signal_event list \<Rightarrow> bool" where
  "first_signal unix [] = False"
| "first_signal unix (Ctrl_C res # evs) = True"
| "first_signal unix (Sigterm # evs) = (if unix then True else first_signal unix evs)"

definition shutdown_signal :: "bool \<Rightarrow> string + unit \<Rightarrow> signal_event list \<Rightarrow> (fault + unit) option" where
  "shutdown_signal unix installed evs =
     (if unix then
        (case installed of
           Inl e \<Rightarrow> Some (Inl (Panic ''failed to install SIGTERM handler''))
         | Inr _ \<Rightarrow> if first_signal True evs then Some (Inr ()) else None)
      else if first_signal False evs then Some (Inr ()) else None)"

text \<open>
  The end of \<open>main\<close>: the proxy stopped, or a signal arrived, which raises the shutdown flag before
  the drain period. An error of the proxy is only logged.
\<close>

datatype main_end = Proxy_Ended "string + unit" | Signalled

definition main_finish :: "main_end \<Rightarrow> bool watch \<Rightarrow> (string + unit) \<times> bool watch" where
  "main_finish ending shutdown_tx =
     (case ending of
        Proxy_Ended result \<Rightarrow> (Inr (), shutdown_tx)
      | Signalled \<Rightarrow> (Inr (), snd (watch_send True shutdown_tx)))"

section \<open>Properties\<close>

lemma main_start_ok:
  assumes "main_start l t bind args fs = (Inr node, fs')"
  shows "main_config args = Inr (rn_config node)" "pool_new l (rn_config node) fs = (Inr (rn_pool node), fs')"
    "(\<exists>tls. rn_server node = Https tls) \<longleftrightarrow> tls_enabled (rn_config node)"
  using assms
  by (auto simp: main_start_def result_simps split: sum.splits prod.splits if_splits)


definition demo_args :: cli where
  "demo_args =
     \<lparr>cli_node_id = 1, cli_listen_addr = ''0.0.0.0:3001'', cli_raft_addr = ''n1:4001'', cli_stdb_url = ''ws://db'',
      cli_peers = [''2=n2:4001''], cli_data_dir = ''data'', cli_tls_cert = None, cli_tls_key = None,
      cli_tls_ca_cert = None\<rparr>"

definition demo_tls :: "(unit, unit, unit) tls_lib" where
  "demo_tls =
     \<lparr>open_file = (\<lambda>p. Inl ''no such file''), read_certs = (\<lambda>b. []), read_private_key = (\<lambda>b. Inr None),
      with_single_cert = (\<lambda>c k. Inr ())\<rparr>"


lemma first_signal_iff:
  "first_signal unix evs \<longleftrightarrow> (\<exists>res. Ctrl_C res \<in> set evs) \<or> unix \<and> Sigterm \<in> set evs"
  by (induction unix evs rule: first_signal.induct) auto

text \<open>
  The wait for a signal ends exactly when a signal it listens to arrives, or at once with a
  panic when the handler cannot be installed.
\<close>

lemma shutdown_signal_iff:
  "shutdown_signal unix installed evs \<noteq> None \<longleftrightarrow>
     (unix \<and> \<not> is_ok installed) \<or> (\<exists>res. Ctrl_C res \<in> set evs) \<or> unix \<and> Sigterm \<in> set evs"
  by (cases installed) (auto simp: shutdown_signal_def first_signal_iff)

lemma serve_tls_all:
  "Proxy_Shutdown \<notin> set evs \<Longrightarrow>
   serve_tls handshake evs =
     List.map_filter (\<lambda>ev. case ev of Accepted s \<Rightarrow> ok (handshake s) | _ \<Rightarrow> None) evs"
  by (induction evs rule: serve_tls.induct [of _ handshake])
    (auto simp: List.map_filter_def split: sum.splits option.splits)

end
