(* ===== verification/Spec2Isabelle.thy ===== *)
theory Spec2Isabelle
  imports Cluster_Databases Unit_Tests Log_Store_Files State_Machine Pool_Membership Api Cli Startup
begin

text \<open>
  RaftTimeDB puts a proxy in front of every node of a SpacetimeDB cluster. Clients talk WebSocket
  to the proxy; the proxy sends their writes through a Raft log, one log per shard, and hands
  them to the local SpacetimeDB in the order of that log; reads go straight to SpacetimeDB. This
  development models the proxy's own code and its command line tool, and proves what makes them
  correct.

  \<^bold>\<open>Parts of the program and the theories that model them.\<close>

  \<^item> Foundations. \<open>Prelude\<close> has machine integers, bytes and Rust's \<open>Result\<close> as a sum with \<open>?\<close> as
    \<open>and_then\<close>; \<open>Rust_Std\<close> the printing and parsing of \<open>u64\<close> and the string functions the code
    calls; \<open>BTree_Map\<close> ordered maps as sorted association lists; \<open>Raft_Types\<close> the values of the
    log (\<open>raft/types.rs\<close>) and storage errors; \<open>Runtime\<close> the channels of the asynchronous runtime
    and the metrics (\<open>metrics.rs\<close>).
  \<^item> \<open>Router\<close> (\<open>router/mod.rs\<close>): shard configuration commands and their encoding, module names in
    request paths, the table from modules to shards. Its locale \<open>route_log\<close> is the contract of
    everything that replays configuration commands; the state machine's table and the pool's
    router are its two interpretations, which is why they agree.
  \<^item> \<open>Log_Storage\<close>, \<open>Log_Store\<close>, \<open>Persistent_Log_Store\<close>, \<open>Log_Store_Files\<close>
    (\<open>raft/log_store.rs\<close>, \<open>raft/persistent_log_store.rs\<close>): an abstract log, the locale
    \<open>log_storage\<close> that says what a log store promises about it, the in-memory and the persistent
    store as interpretations, and opening a store with the migration of the legacy file. The
    locale \<open>log_storage_pair\<close> compares two stores.
  \<^item> \<open>State_Machine\<close> (\<open>raft/state_machine.rs\<close>): applying entries and snapshots.
  \<^item> \<open>Forwarder\<close> (\<open>RaftPool::spawn_forwarder\<close>): the task that hands committed writes to
    SpacetimeDB, as a step function over what it observes at each \<open>await\<close>, with runs as an
    inductive relation.
  \<^item> \<open>Network\<close> (\<open>raft/network.rs\<close>): the transport of Raft messages.
  \<^item> \<open>Config\<close>, \<open>Startup\<close> (\<open>config.rs\<close>, \<open>main.rs\<close>): configuration, start-up, TLS and shutdown.
  \<^item> \<open>Raft_Pool\<close> (\<open>raft/mod.rs\<close>): the pool of Raft groups with every public operation. The state
    of a group is a value of a type variable, changed by the calls of the consensus library.
    \<open>Pool_Runs\<close> has the states a node can reach by any interleaving of the operations, of the
    configuration listener and of what the consensus cores do; \<open>Pool_Operations\<close> properties of
    the single operations; \<open>Pool_Membership\<close> the loops over all shards, whose common contract is
    the locale \<open>shard_loop\<close>; \<open>Pool_Demo\<close> a concrete library for the witnesses.
  \<^item> \<open>Handler\<close> (\<open>websocket/handler.rs\<close>, \<open>websocket/mod.rs\<close>): classification, opening a connection,
    the two relay tasks, the end of a connection, the accept loop.
  \<^item> \<open>Api\<close> (\<open>api.rs\<close>): every handler of the management API and the table of routes.
  \<^item> \<open>Cli\<close> (\<open>crates/cli/src/main.rs\<close>): every command.
  \<^item> \<open>Cluster\<close>, \<open>Cluster_State\<close>, \<open>Cluster_Databases\<close>: one Raft group over all its nodes. The
    committed log is one list with increasing identifiers, which is what the consensus library
    guarantees; each node applies it with its state machine, forwards with its forwarder, answers
    its clients, builds snapshots and installs those of others. Runs interleave these steps with
    writes posted to the API, lost answers, failing sends and restarts. A restarted node can
    apply the log from its beginning or install a snapshot; where the library has purged the
    log, only the second remains.
  \<^item> \<open>Unit_Tests\<close>: the unit tests of the repository as truth values over the model, each proved to
    hold, as a check of the definitions against what the authors expect of the code.

  \<^bold>\<open>How the parts interact.\<close> A connection proposes a write to the pool, which hands it to the
  group of the shard or, when this node does not lead, posts it to the leader's API. The group
  applies committed entries to the state machine, which sends ordinary writes to the forwarder's
  channel and configuration commands to the channel of the pool's listener. The API proposes
  configuration commands to shard 0. This theory has the properties along these paths.

  \<^bold>\<open>Parameters.\<close> The consensus library, the database, the serialiser, the HTTP and WebSocket
  libraries, the file system's failures, the iteration order of hash maps and the programs the
  command line starts are arguments (records of functions). What is used of them is stated where
  it is needed: \<open>redb_laws\<close>, \<open>serde_roundtrip\<close>, \<open>membership_laws\<close>. Every such hypothesis has a
  concrete instance in a witness.

  \<^bold>\<open>What is shown.\<close> The persistent store refines the abstract log operation by operation, all or
  nothing, and answers like the in-memory one; votes and the absence of holes survive every run.
  Applying a batch meets its full contract, and a snapshot with the rest of the log is the whole
  log. In every reachable pool shard 0 exists, so that no handler panics, and the router follows
  the replicated table; the listener and the forwarder can always work off their channels. A
  write is acknowledged when exactly one group accepted it, reaches SpacetimeDB through the
  connection only then, and through the forwarder on every other node, in log order. Clients can
  put nothing but calls into the log. The forwarder's work is bounded by its input, and the gauges
  show shard 0 within the range of a signed integer. The URLs nodes and commands
  build reach the handlers they are meant for. Over a whole group, every node's state is the replay
  of a prefix of the log, however batches, snapshots and restarts brought it there, and a snapshot
  a node offers is such a state too; until a restart of the node its database receives nothing but
  writes of the log, each at most as often as the log has it; and the databases of nodes that lost
  nothing and are at rest hold the same writes. Further theorems state where the
  code does less than one may expect: different orders in different databases, writes
  that never reach the database of a node that got a snapshot instead, one database path for each
  forwarder, stale routes after a snapshot, writes lost by a failing send, removals whose failure is ignored,
  half-done membership changes, and what a restart forgets.

  \<^bold>\<open>Bounds and loops.\<close> \<open>u64\<close> values are 64-bit words; the count of applied entries wraps. All
  loops over data are structural recursions or have a termination proof; tasks that run for ever
  are step functions, so there is no fuel.

  \<^bold>\<open>Not modelled.\<close> The consensus algorithm, the database and the other libraries; logging; the
  text format of the metrics and the serving of HTTP, which are calls of libraries; the parsing of
  command line arguments; \<open>websocket/upstream.rs\<close>, which holds only a comment; the
  integration tests, which run against mock servers only; deployment files. A mutex is explicit
  state: between two awaits a task's step is atomic, and a clone of a store or of a state machine
  (\<open>get_log_reader\<close>, \<open>get_snapshot_builder\<close>) is the same state.
\<close>

section \<open>From the management API to the router\<close>

text \<open>A configuration handler that answers with its message has put the command into the log.\<close>

lemma propose_config_Reply:
  assumes "propose_config api d tv cmd msg p = (Reply x, p')"
  shows "\<exists>data r r'. encode_shard_config tv cmd = Inr data \<and> get_raft 0 p = Some r \<and>
    client_write api \<lparr>raw_message = data, origin_node_id = node_id (pool_config p)\<rparr> r = (Inr (), r')"
  using assms
  by (auto simp: propose_config_def write_shard0_def expect_shard0_def
      split: sum.splits fault.splits option.splits prod.splits)

lemma pending_frame: "pool_frame p = pool_frame q \<Longrightarrow> pending p = pending q"
  using shard0_frame [of p q] by (simp add: pending_def)

lemma effective_frame: "pool_frame p = pool_frame q \<Longrightarrow> effective p = effective q"
  using pending_frame [of p q] pool_frame_router [of p q]
  by (simp add: effective_def fun_eq_iff cong: option.case_cong)

text \<open>
  C8. A route added through the API takes effect. When the handler reports success, shard 0's
  group has accepted a request; once an entry with that request is committed and applied, the
  configuration listener has exactly this command to handle, and after it did, the module is
  routed to the requested shard while every other module is routed as before.
\<close>

theorem added_route_takes_effect:
  assumes "serde_roundtrip tv dec" "pool_inv p" "pending p = []"
    and "shard_add_route api d tv mn sid p = (Reply x, p1)"
  shows "\<exists>q r r'. get_raft 0 p = Some r \<and> client_write api q r = (Inr (), r') \<and>
    (\<forall>lid l m fs. \<exists>p3 fs3.
       listener_step l (fst (commit_entries dec 0 [\<lparr>e_log_id = lid, e_payload = Normal q\<rparr>] (p1, m)), fs) =
         Some (p3, fs3) \<and>
       pending p3 = [] \<and> route_module mn p3 = sid \<and>
       (\<forall>other. other \<noteq> mn \<longrightarrow> route_module other p3 = route_module other p))"
proof -
  have cfg: "propose_config api d tv (AddRoute mn sid)
      (''Route '' @ mn @ '' -> shard '' @ to_string sid @ '' added'') p = (Reply x, p1)"
    using assms(4) by (simp add: shard_add_route_def)
  obtain data r r' where acc: "encode_shard_config tv (AddRoute mn sid) = Inr data" "get_raft 0 p = Some r"
    "client_write api \<lparr>raw_message = data, origin_node_id = node_id (pool_config p)\<rparr> r = (Inr (), r')"
    using propose_config_Reply [OF cfg] by blast
  let ?q = "\<lparr>raw_message = data, origin_node_id = node_id (pool_config p)\<rparr>"
  have frame: "pool_frame p1 = pool_frame p"
    using propose_config_frame cfg by (metis snd_conv)
  have p1: "pool_inv p1" "pending p1 = []" "effective p1 = effective p" "router p1 = router p"
    using pool_inv_frame [OF frame assms(2)] pending_frame [OF frame] effective_frame [OF frame]
      pool_frame_router [OF frame] assms(3) by simp_all
  have "tv (AddRoute mn sid) = Inr (drop 1 data)" "first_byte data = Some SHARD_CONFIG_TAG"
    using acc(1) by (auto simp: encode_Inr_iff first_byte_def)
  then have dec: "decode_shard_config dec data = Some (AddRoute mn sid)"
    using serde_roundtripD [OF assms(1)] by (simp add: decode_shard_config_def)
  have step: "\<exists>p3 fs3. listener_step l (fst (commit_entries dec 0 [\<lparr>e_log_id = lid, e_payload = Normal ?q\<rparr>] (p1, m)), fs) =
       Some (p3, fs3) \<and> pending p3 = [] \<and> route_module mn p3 = sid \<and>
       (\<forall>other. other \<noteq> mn \<longrightarrow> route_module other p3 = route_module other p)" for lid l m fs
  proof -
    let ?p2 = "fst (commit_entries dec 0 [\<lparr>e_log_id = lid, e_payload = Normal ?q\<rparr>] (p1, m))"
    have cs: "config_commands dec [\<lparr>e_log_id = lid, e_payload = Normal ?q\<rparr>] = [AddRoute mn sid]"
      by (simp add: config_command_def dec)
    have inv2: "pool_inv ?p2" by (rule pool_inv_commit [OF p1(1)])
    have "pending ?p2 = [AddRoute mn sid]"
      unfolding commit_pending [OF p1(1)] cs p1(2) by simp
    from listener_enabled [OF inv2 this] obtain p3 fs3 where
      run: "listener_step l (?p2, fs) = Some (p3, fs3)" and done3: "pending p3 = []" by blast
    have "routes (router p3) k = effective ?p2 k" for k
      using listener_effective [OF run] done3 by (metis effective_def last_route.simps(1) option.simps(4))
    then have table: "routes (router p3) k = (if mn = k then Some sid else effective p k)" for k
      unfolding commit_effective [OF p1(1)] cs p1(3) by simp
    have old: "effective p k = routes (router p) k" for k using assms(3) by (simp add: effective_def)
    have default: "default_shard (router p3) = default_shard (router p)"
      using listener_effective [OF run] commit_shard0(2) [OF p1(1)] p1(4) by metis
    show ?thesis
      using run done3 default by (auto simp: route_module_def route_def table old cong: option.case_cong)
  qed
  with acc show ?thesis by blast
qed

definition demo_route_to_vec :: "shard_config_command to_vec" where
  "demo_route_to_vec cmd = (if cmd = AddRoute ''game'' 4 then Inr [52] else Inl ''unsupported'')"

definition demo_route_from_slice :: "shard_config_command from_slice" where
  "demo_route_from_slice bs = (if bs = [52] then Inr (AddRoute ''game'' 4) else Inl ''bad json'')"

lemma demo_route_roundtrip: "serde_roundtrip demo_route_to_vec demo_route_from_slice"
  by (simp add: serde_roundtrip_def demo_route_to_vec_def demo_route_from_slice_def)

lemma demo_pool_pending: "pending (demo_pool True) = []"
  by (simp add: pending_def shard0_def demo_pool_def demo_shard_def set_forwarder_def
      set_shard_config_tx_def channel_new_def sent_def)

theorem added_route_takes_effect_witness:
  "\<exists>q p3 fs3. listener_step demo_libs
     (fst (commit_entries demo_route_from_slice 0 [\<lparr>e_log_id = demo_log_id 1, e_payload = Normal q\<rparr>]
        (snd (shard_add_route demo_api demo_displays demo_route_to_vec ''game'' 4 (demo_pool True)), metrics_new)), demo_fs0) =
     Some (p3, fs3) \<and> route_module ''game'' p3 = 4"
proof -
  have "\<exists>x p1. shard_add_route demo_api demo_displays demo_route_to_vec ''game'' 4 (demo_pool True) = (Reply x, p1)"
    by (simp add: shard_add_route_def propose_config_def encode_shard_config_def demo_route_to_vec_def
        write_shard0_def expect_shard0_def demo_get_raft demo_api_def)
  then obtain x p1 where run:
    "shard_add_route demo_api demo_displays demo_route_to_vec ''game'' 4 (demo_pool True) = (Reply x, p1)" by blast
  from added_route_takes_effect [OF demo_route_roundtrip demo_pool_inv demo_pool_pending run] run
  show ?thesis by (metis snd_conv)
qed

section \<open>From the replicated log to SpacetimeDB\<close>

text \<open>
  C9. What is committed reaches the database. On a node whose forwarder is connected, applying a
  batch of entries and letting the forwarder work off its channel delivers to SpacetimeDB
  exactly the ordinary writes of the other nodes, in log order; a configuration command is never
  among them, and the node's own writes are not, since its client connections sent them.
\<close>

theorem committed_writes_reach_database:
  assumes "sm_apply dec es (s, m) = (res, s', m')"
    and "forwarder s = Some channel_new" "forwarder s' = Some (fw_rx w)"
    and "fw_phase (fw_task w) = Connected url" "fw_delivered w = []"
  shows "\<exists>w'. fwd_run w (replicate (length (app_writes es)) (Task (Received True))) w' \<and>
    fw_delivered w' = foreign (fw_node_id (fw_task w)) (app_writes es) \<and>
    (\<forall>d \<in> set (fw_delivered w'). first_byte d \<noteq> Some 0xFF)"
proof -
  have "forwarder s' = send_all (app_writes es) (forwarder s)"
    using assms(1) fold_apply_parts(2) [of dec es "(s, m)"] by (simp add: sm_apply_eq)
  then have q: "ch_queue (fw_rx w) = app_writes es"
    using assms(2,3) by (simp add: send_all_Some channel_new_def)
  have "first_byte d \<noteq> Some 0xFF" if "d \<in> set (foreign (fw_node_id (fw_task w)) (app_writes es))" for d
    using that app_writes_untagged [of _ d es] by (auto simp: foreign_def SHARD_CONFIG_TAG_def)
  with fwd_drain [OF assms(4)] q assms(5) show ?thesis by auto
qed

definition demo_fwd_world :: "(u64 \<times> bytes) channel \<Rightarrow> fwd_world" where
  "demo_fwd_world ch =
     \<lparr>fw_task = \<lparr>fw_node_id = 1, fw_stdb_url = ''ws://db'', fw_seen = 0, fw_phase = Connected ''ws://db/m''\<rparr>,
      fw_paths = watch_new [], fw_rx = ch, fw_delivered = []\<rparr>"

theorem committed_writes_reach_database_witness:
  "\<exists>w w'. fwd_run w [Task (Received True)] w' \<and> fw_delivered w' = [[3, 9]]"
proof -
  let ?s = "set_forwarder channel_new sm_new"
  let ?es = "[demo_create7, demo_write]"
  obtain res s' m' where run: "sm_apply demo_from_slice ?es (?s, metrics_new) = (res, s', m')"
    by (metis surj_pair)
  have ws: "app_writes ?es = [(2, [3, 9])]"
    by (simp add: app_write_def demo_create7_def demo_write_def first_byte_def SHARD_CONFIG_TAG_def)
  have f: "forwarder ?s = Some channel_new" by (simp add: set_forwarder_def)
  have "forwarder s' = send_all (app_writes ?es) (forwarder ?s)"
    using run fold_apply_parts(2) [of demo_from_slice ?es "(?s, metrics_new)"] by (simp add: sm_apply_eq)
  then obtain ch where ch: "forwarder s' = Some (fw_rx (demo_fwd_world ch))"
    unfolding f by (auto simp: send_all_Some demo_fwd_world_def)
  have ph: "fw_phase (fw_task (demo_fwd_world ch)) = Connected ''ws://db/m''" "fw_delivered (demo_fwd_world ch) = []"
    and nid: "fw_node_id (fw_task (demo_fwd_world ch)) = 1"
    by (simp_all add: demo_fwd_world_def)
  from committed_writes_reach_database [OF run f ch ph] show ?thesis
    unfolding ws nid by auto
qed

section \<open>Restarting\<close>



end
